(* ===== verification/Axe_Prelude.thy ===== *)
theory Axe_Prelude
  imports Main "HOL-Library.Word" "HOL-Library.List_Lexorder" "HOL-Library.Char_ord"
    "HOL-Library.Code_Target_Nat"
begin

text \<open>
  Shared vocabulary of the development: the collections of rewrite rules, the machine words, the
  result type of fallible operations with its equations, and Rust's checked and saturating
  integer operations in terms of natural numbers.
\<close>

named_theorems result_simps \<open>equations that push a test through a fallible computation\<close>
named_theorems checked_simps \<open>Rust's checked integer operations in terms of unat\<close>
named_theorems hoare_rules \<open>rules for the state-and-error monad\<close>

section \<open>Machine words and opaque identifiers\<close>

type_synonym byte = "8 word"
type_synonym bytes = "byte list"
type_synonym u32 = "32 word"
type_synonym u64 = "64 word"
type_synonym u128 = "128 word"
type_synonym u256 = "256 word"
type_synonym address = "160 word"
type_synonym b256 = "256 word"

section \<open>Errors as values\<close>

text \<open>
  An error of the program is an \<open>eyre::Report\<close>. The only thing the program ever asks of
  one is whether it is the \<open>Paused\<close> error (a stop that keeps progress and exits with
  success), so a report is a message and that distinction. The message is the fixed part of
  the source's text.
\<close>

datatype report = Report string | Paused string

type_synonym 'a result = "report + 'a"

definition and_then :: "'e + 'a \<Rightarrow> ('a \<Rightarrow> 'e + 'b) \<Rightarrow> 'e + 'b" where
  "and_then m f = (case m of Inl e \<Rightarrow> Inl e | Inr x \<Rightarrow> f x)"

definition ensure :: "bool \<Rightarrow> string \<Rightarrow> unit result" where
  "ensure c msg = (if c then Inr () else Inl (Report msg))"

definition ok_or :: "'a option \<Rightarrow> string \<Rightarrow> 'a result" where
  "ok_or x msg = (case x of None \<Rightarrow> Inl (Report msg) | Some y \<Rightarrow> Inr y)"

definition is_ok :: "'e + 'a \<Rightarrow> bool" where
  "is_ok m = (case m of Inl _ \<Rightarrow> False | Inr _ \<Rightarrow> True)"

lemma and_then_simps [simp]:
  "and_then (Inl e) f = Inl e"
  "and_then (Inr x) f = f x"
  by (simp_all add: and_then_def)

lemma and_then_Inr [result_simps]:
  "(and_then m f = Inr y) = (\<exists>x. m = Inr x \<and> f x = Inr y)"
  by (cases m) auto

lemma and_then_Inl [result_simps]:
  "(and_then m f = Inl e) = (m = Inl e \<or> (\<exists>x. m = Inr x \<and> f x = Inl e))"
  by (cases m) auto

lemma and_then_assoc: "and_then (and_then m f) g = and_then m (\<lambda>x. and_then (f x) g)"
  by (cases m) auto

lemma and_then_cong [fundef_cong]:
  "m = m' \<Longrightarrow> (\<And>x. m' = Inr x \<Longrightarrow> f x = f' x) \<Longrightarrow> and_then m f = and_then m' f'"
  by (cases m') auto

lemma ensure_Inr [result_simps]: "(ensure c msg = Inr u) = c"
  by (simp add: ensure_def)

lemma ensure_Inl [result_simps]: "(ensure c msg = Inl e) = (\<not> c \<and> e = Report msg)"
  by (auto simp: ensure_def)

lemma ensure_simps [simp]: "ensure True msg = Inr ()" "ensure False msg = Inl (Report msg)"
  by (simp_all add: ensure_def)

lemma ok_or_simps [simp]: "ok_or None msg = Inl (Report msg)" "ok_or (Some x) msg = Inr x"
  by (simp_all add: ok_or_def)

lemma ok_or_Inr [result_simps]: "(ok_or x msg = Inr y) = (x = Some y)"
  by (cases x) auto

lemma ok_or_Inl [result_simps]: "(ok_or x msg = Inl e) = (x = None \<and> e = Report msg)"
  by (cases x) auto

lemma is_ok_simps [simp]: "is_ok (Inl e) = False" "is_ok (Inr x) = True"
  by (simp_all add: is_ok_def)

lemma is_ok_iff: "is_ok m = (\<exists>x. m = Inr x)"
  by (cases m) auto

lemma is_ok_and_then [result_simps]: "is_ok (and_then m f) = (\<exists>x. m = Inr x \<and> is_ok (f x))"
  by (cases m) auto

lemma is_ok_ensure [result_simps]: "is_ok (ensure c msg) = c"
  by (simp add: ensure_def)

text \<open>Stops at the first error, as the question mark inside a \<open>for\<close> loop does.\<close>

fun all_ok :: "('a \<Rightarrow> unit result) \<Rightarrow> 'a list \<Rightarrow> unit result" where
  "all_ok f [] = Inr ()"
| "all_ok f (x # xs) = and_then (f x) (\<lambda>_. all_ok f xs)"

lemma all_ok_Inr [result_simps]: "(all_ok f xs = Inr u) = (\<forall>x \<in> set xs. f x = Inr ())"
  by (induction xs) (auto simp: result_simps)

lemma all_ok_Inl: "all_ok f xs = Inl e \<Longrightarrow> \<exists>x \<in> set xs. f x = Inl e"
  by (induction xs) (auto simp: result_simps)

fun map_ok :: "('a \<Rightarrow> 'e + 'b) \<Rightarrow> 'a list \<Rightarrow> 'e + 'b list" where
  "map_ok f [] = Inr []"
| "map_ok f (x # xs) = and_then (f x) (\<lambda>y. and_then (map_ok f xs) (\<lambda>ys. Inr (y # ys)))"

lemma map_ok_Inr: "(map_ok f xs = Inr ys) = list_all2 (\<lambda>x y. f x = Inr y) xs ys"
  by (induction xs arbitrary: ys) (auto simp: result_simps list_all2_Cons1)

section \<open>Checked arithmetic\<close>

definition checked_add :: "'a::len word \<Rightarrow> 'a word \<Rightarrow> 'a word option" where
  "checked_add a b = (if unat a + unat b < 2 ^ LENGTH('a) then Some (a + b) else None)"

definition checked_mul :: "'a::len word \<Rightarrow> 'a word \<Rightarrow> 'a word option" where
  "checked_mul a b = (if unat a * unat b < 2 ^ LENGTH('a) then Some (a * b) else None)"

definition checked_sub :: "'a::len word \<Rightarrow> 'a word \<Rightarrow> 'a word option" where
  "checked_sub a b = (if b \<le> a then Some (a - b) else None)"

definition saturating_sub :: "'a::len word \<Rightarrow> 'a word \<Rightarrow> 'a word" where
  "saturating_sub a b = (if b \<le> a then a - b else 0)"

definition saturating_add :: "'a::len word \<Rightarrow> 'a word \<Rightarrow> 'a word" where
  "saturating_add a b = (if unat a + unat b < 2 ^ LENGTH('a) then a + b else - 1)"

definition saturating_mul :: "'a::len word \<Rightarrow> 'a word \<Rightarrow> 'a word" where
  "saturating_mul a b = (if unat a * unat b < 2 ^ LENGTH('a) then a * b else - 1)"

text \<open>Rust's \<open>div_ceil\<close>, whose own overflow cannot happen because it is computed from the
  quotient and the remainder.\<close>

definition div_ceil :: "'a::len word \<Rightarrow> 'a word \<Rightarrow> 'a word" where
  "div_ceil a b = (if a mod b > 0 then a div b + 1 else a div b)"

lemma checked_add_Some [checked_simps]:
  "(checked_add a b = Some c) = (unat c = unat a + unat b)"
  for a b c :: "'a::len word"
proof (cases "unat a + unat b < 2 ^ LENGTH('a)")
  case True
  then show ?thesis by (auto simp: checked_add_def word_unat_eq_iff unat_word_ariths)
next
  case False
  then have "unat c \<noteq> unat a + unat b" by (metis unsigned_less)
  with False show ?thesis by (simp add: checked_add_def)
qed

lemma checked_add_None [checked_simps]:
  "(checked_add a b = None) = (2 ^ LENGTH('a) \<le> unat a + unat b)"
  for a b :: "'a::len word"
  by (auto simp: checked_add_def)

lemma checked_mul_Some [checked_simps]:
  "(checked_mul a b = Some c) = (unat c = unat a * unat b)"
  for a b c :: "'a::len word"
proof (cases "unat a * unat b < 2 ^ LENGTH('a)")
  case True
  then show ?thesis by (auto simp: checked_mul_def word_unat_eq_iff unat_word_ariths)
next
  case False
  then have "unat c \<noteq> unat a * unat b" by (metis unsigned_less)
  with False show ?thesis by (simp add: checked_mul_def)
qed

lemma checked_mul_None [checked_simps]:
  "(checked_mul a b = None) = (2 ^ LENGTH('a) \<le> unat a * unat b)"
  for a b :: "'a::len word"
  by (auto simp: checked_mul_def)

lemma checked_sub_Some [checked_simps]:
  "(checked_sub a b = Some c) = (unat c + unat b = unat a)"
  for a b c :: "'a::len word"
proof (cases "b \<le> a")
  case True
  then have "unat (a - b) = unat a - unat b" and "unat b \<le> unat a"
    by (simp_all add: unat_sub word_le_nat_alt)
  with True show ?thesis by (auto simp: checked_sub_def word_unat_eq_iff)
next
  case False
  then show ?thesis by (auto simp: checked_sub_def word_le_nat_alt)
qed

lemma unat_saturating_sub [checked_simps]: "unat (saturating_sub a b) = unat a - unat b"
  for a b :: "'a::len word"
  by (simp add: saturating_sub_def unat_sub word_le_nat_alt)

lemma unat_saturating_add [checked_simps]:
  "unat (saturating_add a b) = min (unat a + unat b) (2 ^ LENGTH('a) - 1)"
  for a b :: "'a::len word"
proof (cases "unat a + unat b < 2 ^ LENGTH('a)")
  case True
  then show ?thesis by (simp add: saturating_add_def unat_word_ariths)
next
  case False
  then show ?thesis by (simp add: saturating_add_def unsigned_minus_1_eq_mask mask_eq_exp_minus_1)
qed

lemma nat_div_ceil:
  fixes a b :: nat
  assumes "0 < b"
  shows "(a + b - 1) div b = a div b + (if a mod b = 0 then 0 else 1)"
proof -
  define q r where "q = a div b" and "r = a mod b"
  have a: "a = q * b + r" and r: "r < b" using assms by (simp_all add: q_def r_def)
  have "(a + b - 1) div b = q + (r + b - 1) div b"
  proof -
    have "a + b - 1 = q * b + (r + b - 1)" using a assms by linarith
    moreover have "(q * b + (r + b - 1)) div b = q + (r + b - 1) div b"
      by (rule div_mult_self3) (use assms in simp)
    ultimately show ?thesis by (rule ssubst)
  qed
  moreover have "(r + b - 1) div b = (if r = 0 then 0 else 1)"
  proof (cases "r = 0")
    case False
    then have "r + b - 1 = (r - 1) + b" by linarith
    moreover have "((r - 1) + b) div b = 1" using assms r by (simp add: div_add_self2)
    ultimately show ?thesis using False by (metis (full_types))
  qed (use assms in simp)
  ultimately show ?thesis by (simp add: q_def r_def)
qed

lemma unat_div_ceil:
  fixes a b :: "'a::len word"
  assumes "0 < b"
  shows "unat (div_ceil a b) = (unat a + unat b - 1) div unat b"
proof -
  have b: "0 < unat b" using assms by (simp add: word_less_nat_alt)
  have pos: "(a mod b > 0) = (unat a mod unat b \<noteq> 0)"
    by (simp add: word_less_nat_alt unat_mod)
  have small: "unat a div unat b + 1 < 2 ^ LENGTH('a)" if "unat a mod unat b \<noteq> 0"
  proof -
    have "unat a \<noteq> 0" using that by (metis mod_0)
    moreover have "1 < unat b" using b that by (metis Suc_lessI One_nat_def mod_by_Suc_0)
    ultimately have "unat a div unat b < unat a" by simp
    then show ?thesis using unsigned_less [of a, where 'a = nat] by linarith
  qed
  have "unat (div_ceil a b) = unat a div unat b + (if unat a mod unat b = 0 then 0 else 1)"
  proof (cases "unat a mod unat b = 0")
    case True
    then have "div_ceil a b = a div b" by (simp add: div_ceil_def pos)
    with True show ?thesis by (simp only: unat_div_distrib) simp
  next
    case False
    have "unat (a div b + 1) = (unat a div unat b + 1) mod 2 ^ LENGTH('a)"
      by (simp only: unat_word_ariths(1) unat_div_distrib unat_1)
    moreover have "div_ceil a b = a div b + 1" using False by (simp add: div_ceil_def pos)
    ultimately have "unat (div_ceil a b) = unat a div unat b + 1"
      using mod_less [OF small [OF False]] by metis
    with False show ?thesis by simp
  qed
  then show ?thesis by (simp only: nat_div_ceil [OF b])
qed

end
