(* ===== verification/Axe_Decimal.thy ===== *)
theory Axe_Decimal
  imports Axe_Prelude
begin

text \<open>
  Rust's \<open>to_string\<close> and \<open>str::parse\<close> on unsigned integers. The program keeps
  amounts, fees and thresholds as decimal strings in its journal and plan, so every budget
  check goes through them.
\<close>

definition digit_char :: "nat \<Rightarrow> char" where
  "digit_char d = char_of (48 + d)"

definition digit_value :: "char \<Rightarrow> nat option" where
  "digit_value c = (let k = of_char c in if 48 \<le> k \<and> k \<le> 57 then Some (k - 48) else None)"

fun show_nat :: "nat \<Rightarrow> string" where
  "show_nat n = (if n < 10 then [digit_char n] else show_nat (n div 10) @ [digit_char (n mod 10)])"

declare show_nat.simps [simp del]

fun parse_digits :: "nat \<Rightarrow> string \<Rightarrow> nat option" where
  "parse_digits acc [] = Some acc"
| "parse_digits acc (c # cs) =
     (case digit_value c of None \<Rightarrow> None | Some d \<Rightarrow> parse_digits (10 * acc + d) cs)"

text \<open>
  \<open>u64::from_str\<close> and its kin: the empty string and a lone sign are refused, one leading
  plus sign is accepted, and a value that does not fit the width is an overflow.
\<close>

definition parse_uint :: "nat \<Rightarrow> string \<Rightarrow> nat option" where
  "parse_uint w s =
     (let ds = (case s of [] \<Rightarrow> [] | c # cs \<Rightarrow> if c = CHR ''+'' then cs else s)
      in if ds = [] then None
         else (case parse_digits 0 ds of
                 None \<Rightarrow> None
               | Some n \<Rightarrow> if n < 2 ^ w then Some n else None))"

definition parse_word :: "string \<Rightarrow> 'a::len word option" where
  "parse_word s = map_option of_nat (parse_uint LENGTH('a) s)"

definition show_word :: "'a::len word \<Rightarrow> string" where
  "show_word x = show_nat (unat x)"

text \<open>Unfolding these evaluates the parser on a literal.\<close>

lemmas parse_eval = parse_word_def parse_uint_def digit_value_def

lemma digit_value_char [simp]: "d < 10 \<Longrightarrow> digit_value (digit_char d) = Some d"
proof -
  assume "d < 10"
  then have "of_char (digit_char d) = 48 + d"
    by (simp add: digit_char_def)
  with \<open>d < 10\<close> show ?thesis by (simp add: digit_value_def)
qed

lemma digit_value_bound: "digit_value c = Some d \<Longrightarrow> d < 10"
  by (auto simp: digit_value_def Let_def split: if_splits)

lemma parse_digits_append:
  "parse_digits acc (xs @ ys) = (case parse_digits acc xs of None \<Rightarrow> None | Some a \<Rightarrow> parse_digits a ys)"
  by (induction acc xs rule: parse_digits.induct) (auto split: option.splits)

lemma parse_digits_show: "parse_digits 0 (show_nat n) = Some n"
proof (induction n rule: show_nat.induct)
  case (1 n)
  show ?case
  proof (cases "n < 10")
    case True
    then show ?thesis by (simp add: show_nat.simps [of n])
  next
    case False
    then have "parse_digits 0 (show_nat (n div 10)) = Some (n div 10)" by (rule "1.IH")
    with False show ?thesis
      by (simp add: show_nat.simps [of n] parse_digits_append)
  qed
qed

lemma show_nat_first: "\<exists>d cs. d < 10 \<and> show_nat n = digit_char d # cs"
proof (induction n rule: show_nat.induct)
  case (1 n)
  show ?case
  proof (cases "n < 10")
    case True
    then show ?thesis by (auto simp: show_nat.simps [of n])
  next
    case False
    then obtain d cs where "d < 10" "show_nat (n div 10) = digit_char d # cs"
      using "1.IH" by blast
    with False show ?thesis by (auto simp: show_nat.simps [of n])
  qed
qed

lemma digit_char_not_plus: "d < 10 \<Longrightarrow> digit_char d \<noteq> CHR ''+''"
proof
  assume "d < 10" and "digit_char d = CHR ''+''"
  then have "digit_value CHR ''+'' = Some d" by (metis digit_value_char)
  then show False by (simp add: digit_value_def)
qed

theorem parse_show: "n < 2 ^ w \<Longrightarrow> parse_uint w (show_nat n) = Some n"
proof -
  assume n: "n < 2 ^ w"
  obtain d cs where d: "d < 10" and s: "show_nat n = digit_char d # cs"
    using show_nat_first by blast
  have "parse_digits 0 (digit_char d # cs) = Some n"
    using parse_digits_show [of n] by (simp only: s)
  then show ?thesis
    using n by (simp only: s) (simp add: parse_uint_def digit_char_not_plus [OF d])
qed

lemma parse_uint_bound: "parse_uint w s = Some n \<Longrightarrow> n < 2 ^ w"
  by (auto simp: parse_uint_def Let_def split: if_splits option.splits)

lemma parse_show_word [simp]: "parse_word (show_word x) = Some x"
  by (simp add: parse_word_def show_word_def parse_show unsigned_less)

lemma show_word_inj: "show_word x = show_word y \<Longrightarrow> x = y"
  by (metis option.inject parse_show_word)

lemma unat_parse_word: "parse_word s = Some (x :: 'a::len word) \<Longrightarrow> parse_uint LENGTH('a) s = Some (unat x)"
  using parse_uint_bound [of "LENGTH('a)" s] by (auto simp: parse_word_def unat_of_nat)

end
