(* ===== verification/Axe_Btree.thy ===== *)
theory Axe_Btree
  imports Axe_Prelude
begin

text \<open>
  \<open>BTreeMap\<close> as its sequence of entries in key order. The program relies on three things
  of it: a lookup after an insert, an entry's removal, and iteration in key order. The
  interface \<open>ordered_map\<close> states them; \<open>bt\<close> interprets it on the list of entries.
\<close>

type_synonym ('k, 'v) btree = "('k \<times> 'v) list"

definition bt_empty :: "('k, 'v) btree" where
  "bt_empty = []"

definition bt_get :: "('k, 'v) btree \<Rightarrow> 'k \<Rightarrow> 'v option" where
  "bt_get m k = map_of m k"

fun bt_insert :: "'k::linorder \<Rightarrow> 'v \<Rightarrow> ('k, 'v) btree \<Rightarrow> ('k, 'v) btree" where
  "bt_insert k v [] = [(k, v)]"
| "bt_insert k v ((k', v') # m) =
     (if k < k' then (k, v) # (k', v') # m
      else if k = k' then (k, v) # m
      else (k', v') # bt_insert k v m)"

fun bt_remove :: "'k \<Rightarrow> ('k, 'v) btree \<Rightarrow> ('k, 'v) btree" where
  "bt_remove k [] = []"
| "bt_remove k ((k', v') # m) = (if k = k' then m else (k', v') # bt_remove k m)"

definition bt_values :: "('k, 'v) btree \<Rightarrow> 'v list" where
  "bt_values m = map snd m"

definition bt_contains :: "('k, 'v) btree \<Rightarrow> 'k \<Rightarrow> bool" where
  "bt_contains m k = (bt_get m k \<noteq> None)"

definition bt_wf :: "('k::linorder, 'v) btree \<Rightarrow> bool" where
  "bt_wf m = sorted_wrt (<) (map fst m)"

text \<open>What a client of an ordered map may rely on.\<close>

locale ordered_map =
  fixes empty :: "'m"
    and get :: "'m \<Rightarrow> 'k::linorder \<Rightarrow> 'v option"
    and insert :: "'k \<Rightarrow> 'v \<Rightarrow> 'm \<Rightarrow> 'm"
    and remove :: "'k \<Rightarrow> 'm \<Rightarrow> 'm"
    and entries :: "'m \<Rightarrow> ('k \<times> 'v) list"
    and wf :: "'m \<Rightarrow> bool"
  assumes wf_empty: "wf empty"
    and wf_insert: "wf m \<Longrightarrow> wf (insert k v m)"
    and wf_remove: "wf m \<Longrightarrow> wf (remove k m)"
    and get_empty: "get empty k = None"
    and get_insert: "wf m \<Longrightarrow> get (insert k v m) k' = (if k' = k then Some v else get m k')"
    and get_remove: "wf m \<Longrightarrow> get (remove k m) k' = (if k' = k then None else get m k')"
    and entries_get: "wf m \<Longrightarrow> (k, v) \<in> set (entries m) \<longleftrightarrow> get m k = Some v"
    and entries_sorted: "wf m \<Longrightarrow> sorted_wrt (<) (map fst (entries m))"
begin

lemma insert_idem:
  "wf m \<Longrightarrow> get (insert k v (insert k u m)) k' = get (insert k v m) k'"
  by (simp add: get_insert wf_insert)

lemma insert_commute_get:
  "wf m \<Longrightarrow> k \<noteq> l \<Longrightarrow> get (insert k v (insert l u m)) x = get (insert l u (insert k v m)) x"
  by (simp add: get_insert wf_insert)

lemma entries_insert:
  assumes "wf m"
  shows "set (entries (insert k v m)) = {(k, v)} \<union> {e \<in> set (entries m). fst e \<noteq> k}"
proof (rule set_eqI)
  fix e :: "'k \<times> 'v"
  obtain k' v' where e: "e = (k', v')" by (cases e)
  show "e \<in> set (entries (insert k v m)) \<longleftrightarrow> e \<in> {(k, v)} \<union> {e \<in> set (entries m). fst e \<noteq> k}"
    using assms by (auto simp: e entries_get wf_insert get_insert)
qed

lemma entries_remove:
  assumes "wf m"
  shows "set (entries (remove k m)) = {e \<in> set (entries m). fst e \<noteq> k}"
proof (rule set_eqI)
  fix e :: "'k \<times> 'v"
  obtain k' v' where e: "e = (k', v')" by (cases e)
  show "e \<in> set (entries (remove k m)) \<longleftrightarrow> e \<in> {e \<in> set (entries m). fst e \<noteq> k}"
    using assms by (auto simp: e entries_get wf_remove get_remove)
qed

lemma entries_distinct: "wf m \<Longrightarrow> distinct (entries m)"
  using entries_sorted [of m] by (metis distinct_map strict_sorted_iff)

end

lemma bt_get_simps [simp]:
  "bt_get [] k = None"
  "bt_get ((k', v) # m) k = (if k = k' then Some v else bt_get m k)"
  by (auto simp: bt_get_def)

lemma bt_keys_insert: "set (map fst (bt_insert k v m)) = insert k (set (map fst m))"
  by (induction k v m rule: bt_insert.induct) auto

lemma bt_remove_subset: "set (bt_remove k m) \<subseteq> set m"
  by (induction k m rule: bt_remove.induct) auto

lemma bt_wf_insert: "bt_wf m \<Longrightarrow> bt_wf (bt_insert k v m)"
proof (induction k v m rule: bt_insert.induct)
  case (2 k v k' v' m)
  then show ?case
    using bt_keys_insert [of k v m] by (auto simp: bt_wf_def)
qed (simp add: bt_wf_def)

lemma bt_wf_remove: "bt_wf m \<Longrightarrow> bt_wf (bt_remove k m)"
proof (induction k m rule: bt_remove.induct)
  case (2 k k' v' m)
  then show ?case
    using bt_remove_subset [of k m] by (auto simp: bt_wf_def)
qed simp

lemma bt_get_None: "k \<notin> set (map fst m) \<Longrightarrow> bt_get m k = None"
  by (auto simp: bt_get_def map_of_eq_None_iff)

lemma bt_get_insert: "bt_get (bt_insert k v m) k' = (if k' = k then Some v else bt_get m k')"
  by (induction k v m rule: bt_insert.induct) auto

lemma bt_get_remove:
  "bt_wf m \<Longrightarrow> bt_get (bt_remove k m) k' = (if k' = k then None else bt_get m k')"
proof (induction k m rule: bt_remove.induct)
  case (2 k k'' v' m)
  then have wf: "bt_wf m" and "k'' \<notin> set (map fst m)" by (auto simp: bt_wf_def)
  then have "bt_get m k'' = None" by (simp add: bt_get_None)
  with "2.IH" wf show ?case by auto
qed simp

lemma bt_wf_distinct: "bt_wf m \<Longrightarrow> distinct (map fst m)"
  by (simp add: bt_wf_def strict_sorted_iff)

interpretation bt: ordered_map bt_empty bt_get bt_insert bt_remove "\<lambda>m. m" bt_wf
proof
  fix m :: "('k::linorder, 'v) btree" and k v
  show "bt_wf m \<Longrightarrow> (k, v) \<in> set m \<longleftrightarrow> bt_get m k = Some v"
    using bt_wf_distinct [of m] by (auto simp: bt_get_def)
  show "bt_wf m \<Longrightarrow> sorted_wrt (<) (map fst m)" by (simp add: bt_wf_def)
qed (simp_all add: bt_empty_def bt_wf_def [of "[]"] bt_wf_insert bt_wf_remove bt_get_insert bt_get_remove)

lemma bt_wf_empty [simp]: "bt_wf bt_empty"
  by (rule bt.wf_empty)

lemma bt_get_empty [simp]: "bt_get bt_empty k = None"
  by (simp add: bt_empty_def)

lemma bt_values_mem: "bt_wf m \<Longrightarrow> v \<in> set (bt_values m) \<longleftrightarrow> (\<exists>k. bt_get m k = Some v)"
  by (force simp: bt_values_def bt.entries_get [symmetric])

lemma bt_contains_insert [simp]: "bt_contains (bt_insert k v m) k' = (k' = k \<or> bt_contains m k')"
  by (simp add: bt_contains_def bt_get_insert)

lemma bt_insert_same_entry: "bt_wf m \<Longrightarrow> bt_get m k = Some v \<Longrightarrow> bt_insert k v m = m"
proof (induction k v m rule: bt_insert.induct)
  case (2 k v k' v' m)
  show ?case
  proof (cases "k = k'")
    case True
    with 2 show ?thesis by simp
  next
    case False
    with 2 have get: "bt_get m k = Some v" and wf: "bt_wf m" by (auto simp: bt_wf_def)
    from get have "(k, v) \<in> set m" by (auto simp: bt_get_def dest: map_of_SomeD)
    with \<open>bt_wf ((k', v') # m)\<close> have "k' < k" by (auto simp: bt_wf_def)
    with False get wf "2.IH" show ?thesis by auto
  qed
qed simp

end
