(* ===== verification/Axe_Network.thy ===== *)
theory Axe_Network
  imports Axe_Prelude
begin

text \<open>
  The cross-cutting domain types of \<open>src/types.rs\<close>: the four Axelar networks with their
  per-network policy constants, the chain runtime models, the ITS message discriminators and
  the wei helpers.
\<close>

datatype chain_type = Evm | Svm

definition chain_type_as_str :: "chain_type \<Rightarrow> string" where
  "chain_type_as_str t = (case t of Evm \<Rightarrow> ''evm'' | Svm \<Rightarrow> ''svm'')"

definition chain_type_from_str :: "string \<Rightarrow> chain_type result" where
  "chain_type_from_str s =
     (if s = ''evm'' then Inr Evm
      else if s = ''svm'' then Inr Svm
      else Inl (Report ''unknown chainType''))"

datatype network = Mainnet | Testnet | Stagenet | DevnetAmplifier

definition network_all :: "network list" where
  "network_all = [Mainnet, Testnet, Stagenet, DevnetAmplifier]"

definition verifier_threshold :: "network \<Rightarrow> u64 \<times> u64" where
  "verifier_threshold n =
     (case n of
        Mainnet \<Rightarrow> (2, 3)
      | Testnet \<Rightarrow> (51, 100)
      | Stagenet \<Rightarrow> (51, 100)
      | DevnetAmplifier \<Rightarrow> (6, 10))"

definition gateway_rotation_delay_seconds :: "network \<Rightarrow> u64" where
  "gateway_rotation_delay_seconds n =
     (case n of
        Mainnet \<Rightarrow> 86400
      | Testnet \<Rightarrow> 3600
      | Stagenet \<Rightarrow> 300
      | DevnetAmplifier \<Rightarrow> 0)"

definition deployment_uses_governance :: "network \<Rightarrow> bool" where
  "deployment_uses_governance n = (n \<noteq> DevnetAmplifier)"

definition verifier_service_name :: "network \<Rightarrow> string" where
  "verifier_service_name n =
     (case n of DevnetAmplifier \<Rightarrow> ''validators'' | _ \<Rightarrow> ''amplifier'')"

definition network_as_str :: "network \<Rightarrow> string" where
  "network_as_str n =
     (case n of
        Mainnet \<Rightarrow> ''mainnet''
      | Testnet \<Rightarrow> ''testnet''
      | Stagenet \<Rightarrow> ''stagenet''
      | DevnetAmplifier \<Rightarrow> ''devnet-amplifier'')"

definition network_from_str :: "string \<Rightarrow> network result" where
  "network_from_str s =
     (if s = ''mainnet'' then Inr Mainnet
      else if s = ''testnet'' then Inr Testnet
      else if s = ''stagenet'' then Inr Stagenet
      else if s = ''devnet-amplifier'' then Inr DevnetAmplifier
      else Inl (Report ''unknown network''))"

datatype its_message_type = InterchainTransfer | DeployInterchainToken | ReceiveFromHub

definition its_message_type_as_u64 :: "its_message_type \<Rightarrow> u64" where
  "its_message_type_as_u64 t =
     (case t of InterchainTransfer \<Rightarrow> 0 | DeployInterchainToken \<Rightarrow> 1 | ReceiveFromHub \<Rightarrow> 4)"

definition eth :: "u64 \<Rightarrow> u256" where
  "eth n = ucast n * 1000000000000000000"

definition eth_milli :: "u64 \<Rightarrow> u256" where
  "eth_milli n = ucast n * 1000000000000000"

lemma network_all_complete: "n \<in> set network_all"
  by (cases n) (simp_all add: network_all_def)

lemma network_roundtrip: "network_from_str s = Inr n \<longleftrightarrow> s = network_as_str n"
  by (cases n) (auto simp: network_from_str_def network_as_str_def)

lemma chain_type_roundtrip: "chain_type_from_str s = Inr t \<longleftrightarrow> s = chain_type_as_str t"
  by (cases t) (auto simp: chain_type_from_str_def chain_type_as_str_def)

lemma its_message_type_inj: "its_message_type_as_u64 a = its_message_type_as_u64 b \<longleftrightarrow> a = b"
  by (cases a; cases b) (simp_all add: its_message_type_as_u64_def)

text \<open>The wei helpers never wrap: a 64-bit count times \<open>10 ^ 18\<close> fits 256 bits.\<close>

lemma unat_eth: "unat (eth n) = unat n * 1000000000000000000"
proof -
  have "unat n < 2 ^ 64" using unsigned_less [of n, where 'a = nat] by simp
  then have "unat n * 1000000000000000000 < 2 ^ 256" by simp
  then show ?thesis
    by (simp add: eth_def unat_word_ariths(2) unsigned_ucast_eq take_bit_nat_eq_self)
qed

lemma unat_eth_milli: "unat (eth_milli n) = unat n * 1000000000000000"
proof -
  have "unat n < 2 ^ 64" using unsigned_less [of n, where 'a = nat] by simp
  then have "unat n * 1000000000000000 < 2 ^ 256" by simp
  then show ?thesis
    by (simp add: eth_milli_def unat_word_ariths(2) unsigned_ucast_eq take_bit_nat_eq_self)
qed

lemma eth_is_thousand_milli: "unat n * 1000 < 2 ^ 64 \<Longrightarrow> eth n = eth_milli (n * 1000)"
  by (simp add: word_unat_eq_iff [of "eth n"] unat_eth unat_eth_milli unat_word_ariths(2))

end
