(* ===== verification/Axe_Json.thy ===== *)
theory Axe_Json
  imports Axe_Prelude
begin

text \<open>
  The JSON values (\<open>serde_json::Value\<close>) that the RPC answers and the journal carry, with the
  accessors the code uses.  An object is an association list, read from the front.  A float
  number keeps the text of its literal.  Paths are lists of object keys: every pointer of the
  code is a chain of keys none of which is an array index, so an array has no such member.
\<close>

datatype json_number = PosInt u64 | NegInt int | Float string

datatype json =
    JNull
  | JBool bool
  | JNumber json_number
  | JString string
  | JArray "json list"
  | JObject "(string \<times> json) list"

definition json_get :: "string \<Rightarrow> json \<Rightarrow> json option" where
  "json_get k v = (case v of JObject kvs \<Rightarrow> map_of kvs k | _ \<Rightarrow> None)"

text \<open>The \<open>value[key]\<close> operator: a missing member reads as null.\<close>

definition json_index :: "json \<Rightarrow> string \<Rightarrow> json" where
  "json_index v k = (case json_get k v of None \<Rightarrow> JNull | Some w \<Rightarrow> w)"

fun json_pointer :: "json \<Rightarrow> string list \<Rightarrow> json option" where
  "json_pointer v [] = Some v"
| "json_pointer v (k # ks) =
     (case json_get k v of None \<Rightarrow> None | Some w \<Rightarrow> json_pointer w ks)"

definition as_str :: "json \<Rightarrow> string option" where
  "as_str v = (case v of JString s \<Rightarrow> Some s | _ \<Rightarrow> None)"

definition as_u64 :: "json \<Rightarrow> u64 option" where
  "as_u64 v = (case v of JNumber (PosInt n) \<Rightarrow> Some n | _ \<Rightarrow> None)"

definition as_array :: "json \<Rightarrow> json list option" where
  "as_array v = (case v of JArray vs \<Rightarrow> Some vs | _ \<Rightarrow> None)"

lemma json_get_object [simp]: "json_get k (JObject kvs) = map_of kvs k"
  by (simp add: json_get_def)

lemma json_access [simp]:
  "as_str (JString s) = Some s" "as_str JNull = None"
  "as_u64 (JNumber (PosInt n)) = Some n" "as_u64 JNull = None"
  "as_array (JArray vs) = Some vs" "as_array JNull = None"
  by (simp_all add: as_str_def as_u64_def as_array_def)

text \<open>Indexing and pointer access agree on the two-level reads the code mixes.\<close>

lemma as_u64_index_pointer:
  "as_u64 (json_index (json_index v a) b) = Some n \<longleftrightarrow>
   (case json_pointer v [a, b] of None \<Rightarrow> None | Some w \<Rightarrow> as_u64 w) = Some n"
  by (auto simp: json_index_def json_get_def split: option.splits json.splits)

end
