(* ===== verification/Deploy_Types.thy ===== *)
theory Deploy_Types
  imports Axe_Decimal Axe_Btree Axe_Network Axe_Json
begin

text \<open>
  The data of a hardened deployment (\<open>src/commands/deploy/hardened/types.rs\<close>): the public
  plan, the EVM confirmation policy with its text form, the run options and the journal of
  signed transactions.
\<close>

record cosmos_deployment =
  cd_deployment_name :: string
  cd_coordinator :: string
  cd_salt :: string
  cd_code_ids :: "u64 \<times> u64 \<times> u64"
  cd_gateway :: string
  cd_verifier :: string
  cd_prover :: string

record plan =
  pl_evm_chain_id :: u64
  pl_axelar_chain_id :: string
  pl_gateway_owner :: address
  pl_operators_owner :: address
  pl_gas_service_owner :: address
  pl_its_owner :: address
  pl_factory_owner :: address
  pl_gateway_operator :: address
  pl_prover_admin :: string
  pl_approved_verifiers :: "string list"
  pl_evm_gas_budget :: string
  pl_cosmos_fee_budget :: string
  pl_reward_amount :: string
  pl_voting_threshold :: "u64 \<times> u64"
  pl_signing_threshold :: "u64 \<times> u64"
  pl_block_expiry :: u64
  pl_confirmation_height :: u64

text \<open>
  \<open>Confirmations\<close> carries a \<open>NonZeroU64\<close>; \<open>policy_wf\<close> is that type's invariant.
\<close>

datatype evm_confirmation_policy = Confirmations u64 | Finalized

datatype block_tag = Latest | FinalizedTag | Number u64

definition policy_wf :: "evm_confirmation_policy \<Rightarrow> bool" where
  "policy_wf p = (case p of Confirmations n \<Rightarrow> n \<noteq> 0 | Finalized \<Rightarrow> True)"

definition policy_default :: evm_confirmation_policy where
  "policy_default = Confirmations 1"

definition previous_default :: evm_confirmation_policy where
  "previous_default = Finalized"

definition policy_block_tag :: "evm_confirmation_policy \<Rightarrow> block_tag" where
  "policy_block_tag p = (case p of Confirmations _ \<Rightarrow> Latest | Finalized \<Rightarrow> FinalizedTag)"

definition policy_from_str :: "string \<Rightarrow> evm_confirmation_policy result" where
  "policy_from_str s =
     (if s = ''finalized'' then Inr Finalized
      else case (parse_word s :: u64 option) of
        Some n \<Rightarrow>
          if n = 0
          then Inl (Report ''EVM confirmations must be a positive block count or finalized'')
          else Inr (Confirmations n)
      | None \<Rightarrow> Inl (Report ''EVM confirmations must be a positive block count or finalized''))"

definition policy_to_string :: "evm_confirmation_policy \<Rightarrow> string" where
  "policy_to_string p =
     (case p of Confirmations n \<Rightarrow> show_word n | Finalized \<Rightarrow> ''finalized'')"

record options =
  op_plan :: "string option"
  op_activate :: bool
  op_evm_confirmations :: "evm_confirmation_policy option"
  op_evm_wait_seconds :: u64
  op_bump_fees :: "string option"
  op_cosmos_fee :: "u128 option"
  op_retry_failed :: "string option"
  op_retry_gas_limit :: "u64 option"
  op_recovery_lcd :: "string option"

datatype transaction =
    EvmTx (tx_intent: b256) (tx_raw: "byte list") (tx_hash: b256)
      (tx_sender: address) (tx_nonce: u64) (tx_gas_cost: string)
  | CosmosTxn (tx_intent: b256) (tx_raw: "byte list") (ctx_hash: string)
      (ctx_sender: string) (ctx_fee: string) (ctx_sequence: u64)

record contract_evidence =
  ev_address :: address
  ev_code_hash :: b256
  ev_owner :: "address option"
  ev_implementation :: "address option"
  ev_operator :: "address option"
  ev_signer_hash :: "b256 option"

record service =
  sv_min_num_verifiers :: u64
  sv_max_num_verifiers :: "u64 option"

text \<open>The fields of Alloy's transaction receipt that the deployment code reads.\<close>

record receipt =
  rc_transaction_hash :: b256
  rc_block_number :: "u64 option"
  rc_block_hash :: "b256 option"
  rc_status :: bool

datatype confirmation =
    EvmConfirmation receipt
  | CosmosConfirmation u64 u32 json

record protocol_identity =
  pi_address :: string
  pi_code_id :: string
  pi_checksum :: string
  pi_creator :: string
  pi_admin :: string

record initial_signers =
  is_identities :: "string list"
  is_signers :: "(address \<times> u128) list"
  is_threshold :: u128
  is_nonce :: b256
  is_set_id :: string
  is_hash :: b256

record journal =
  jn_version :: u32
  jn_fingerprint :: b256
  jn_cosmos_deployment :: "cosmos_deployment option"
  jn_inputs_hash :: "b256 option"
  jn_evm_confirmations :: evm_confirmation_policy
  jn_actions :: "(string, transaction) btree"
  jn_evidence :: "(string, contract_evidence) btree"
  jn_confirmations :: "(string, confirmation) btree"
  jn_attempts :: "(string, transaction list) btree"
  jn_retry_gas_limits :: "(string, u64) btree"
  jn_protocols :: "(string, protocol_identity) btree"
  jn_protocol_history :: "(string, protocol_identity) btree list"
  jn_initial_signers :: "initial_signers option"
  jn_rotations :: "(u64, b256) btree"

definition is_evm :: "transaction \<Rightarrow> bool" where
  "is_evm t = (case t of EvmTx _ _ _ _ _ _ \<Rightarrow> True | CosmosTxn _ _ _ _ _ _ \<Rightarrow> False)"

subsection \<open>The confirmation policy's text form\<close>

lemma show_word_not_finalized: "show_word (n :: u64) \<noteq> ''finalized''"
proof
  assume "show_word n = ''finalized''"
  then have "parse_word ''finalized'' = Some n"
    using parse_show_word [of n] by metis
  moreover have "parse_word ''finalized'' = (None :: u64 option)" by code_simp
  ultimately show False by simp
qed

lemma policy_from_str_wf: "policy_from_str s = Inr p \<Longrightarrow> policy_wf p"
  by (auto simp: policy_from_str_def policy_wf_def split: if_splits option.splits)

lemma policy_default_wf: "policy_wf policy_default" "policy_wf previous_default"
  by (simp_all add: policy_wf_def policy_default_def previous_default_def)

lemma policy_print_parse:
  "policy_wf p \<Longrightarrow> policy_from_str (policy_to_string p) = Inr p"
  by (cases p)
    (simp_all add: policy_from_str_def policy_to_string_def policy_wf_def show_word_not_finalized)

lemma policy_zero_refused: "\<not> is_ok (policy_from_str (show_word (0 :: u64)))"
  by (simp add: policy_from_str_def show_word_not_finalized)

end
