(* ===== verification/Deploy_State.thy ===== *)
theory Deploy_State
  imports Deploy_Types
begin

text \<open>
  The deployment state file (\<open>src/state.rs\<close> and \<open>src/state/loading.rs\<close>): the step list a
  deployment runs, the traversal and mutation of its steps, what a saved file keeps, and how
  a run selects the one state file it resumes.
\<close>

datatype step_status = Pending | Completed

datatype step_kind =
    EvmCompat
  | DeployCreate
  | DeployCreate2
  | PredictAddress
  | ConfigEdit
  | CosmosTx (proposal_key_of: string)
  | CosmosPoll (proposal_key_of: string)
  | CosmosQuery
  | WaitVerifierSet
  | DeployGateway (implementation_address: "address option")
  | RegisterOperators
  | DeployUpgradable (implementation_address: "address option") (proxy_address: "address option")
  | DeployIts
      (its_deployer_address: "address option")
      (token_manager_deployer_address: "address option")
      (interchain_token_address: "address option")
      (interchain_token_deployer_address: "address option")
      (token_manager_address: "address option")
      (token_handler_address: "address option")
      (interchain_token_service_impl_address: "address option")
      (interchain_token_factory_impl_address: "address option")
  | TransferOwnership (ts_contract: string) (ts_new_owner: address)

record step =
  step_name :: string
  step_status_of :: step_status
  step_kind_of :: step_kind

record state =
  st_axelar_id :: string
  st_rpc_url :: string
  st_target_json :: string
  st_mnemonic :: string
  st_hardened_plan :: "plan option"
  st_hardened_fingerprint :: "b256 option"
  st_env :: network
  st_cosm_salt :: string
  st_admin_mnemonic :: "string option"
  st_rewards_funder_mnemonic :: "string option"
  st_deployer_private_key :: "string option"
  st_gateway_deployer_private_key :: "string option"
  st_gateway_deployer :: "address option"
  st_gas_service_deployer_private_key :: "string option"
  st_its_deployer_private_key :: "string option"
  st_its_salt :: "string option"
  st_its_proxy_salt :: "string option"
  st_predicted_gateway_address :: "address option"
  st_sender_receiver_address :: "address option"
  st_proposals :: "(string, u64) btree"
  st_steps :: "step list"

subsection \<open>The default step list\<close>

definition pending_step :: "string \<Rightarrow> step_kind \<Rightarrow> step" where
  "pending_step name kind = \<lparr> step_name = name, step_status_of = Pending, step_kind_of = kind \<rparr>"

definition ownership_step :: "string \<Rightarrow> string \<Rightarrow> address \<Rightarrow> step" where
  "ownership_step name contract new_owner =
     pending_step name (TransferOwnership contract new_owner)"

definition deploy_its_step :: step where
  "deploy_its_step =
     pending_step ''DeployInterchainTokenService''
       (DeployIts None None None None None None None None)"

definition default_steps :: "step list" where
  "default_steps =
     (let new_owner = 0x49845e5d9985d8dc941462293ed38EEfF18B0eAE in
      [ pending_step ''EvmCompatibilityCheck'' EvmCompat,
        pending_step ''ConstAddressDeployer'' DeployCreate,
        pending_step ''Create3Deployer'' DeployCreate2,
        pending_step ''PredictGatewayAddress'' PredictAddress,
        pending_step ''AddCosmWasmConfig'' ConfigEdit,
        pending_step ''InstantiateChainContracts'' (CosmosTx ''instantiate''),
        pending_step ''WaitInstantiateProposal'' (CosmosPoll ''instantiate''),
        pending_step ''SaveDeployedContracts'' CosmosQuery,
        pending_step ''AddRewards'' (CosmosTx ''addRewards''),
        pending_step ''WaitForVerifierSet'' WaitVerifierSet,
        pending_step ''AxelarGateway'' (DeployGateway None),
        pending_step ''Operators'' DeployCreate2,
        pending_step ''RegisterOperators'' RegisterOperators,
        pending_step ''AxelarGasService'' (DeployUpgradable None None) ] @
      [ ownership_step ''TransferOperatorsOwnership'' ''Operators'' new_owner,
        ownership_step ''TransferGatewayOwnership'' ''AxelarGateway'' new_owner,
        ownership_step ''TransferGasServiceOwnership'' ''AxelarGasService'' new_owner,
        deploy_its_step,
        pending_step ''RegisterItsOnHub'' (CosmosTx ''itsHubRegister''),
        pending_step ''WaitItsHubRegistration'' (CosmosPoll ''itsHubRegister'') ])"

subsection \<open>Traversal and mutation\<close>

definition next_pending_step :: "state \<Rightarrow> (nat \<times> step) option" where
  "next_pending_step st =
     find (\<lambda>(_, s). step_status_of s = Pending) (enumerate 0 (st_steps st))"

text \<open>An index past the end panics in the source; here it has no result.\<close>

definition mark_step_completed :: "state \<Rightarrow> nat \<Rightarrow> state option" where
  "mark_step_completed st idx =
     (if idx < length (st_steps st)
      then Some (st\<lparr> st_steps :=
        (st_steps st)[idx := (st_steps st ! idx)\<lparr> step_status_of := Completed \<rparr>] \<rparr>)
      else None)"

definition proposal_key :: "step \<Rightarrow> string option" where
  "proposal_key s =
     (case step_kind_of s of
        CosmosTx k \<Rightarrow> Some k
      | CosmosPoll k \<Rightarrow> Some k
      | _ \<Rightarrow> None)"

definition set_implementation_address :: "step \<Rightarrow> address \<Rightarrow> step result" where
  "set_implementation_address s addr =
     (case step_kind_of s of
        DeployGateway _ \<Rightarrow> Inr (s\<lparr> step_kind_of := DeployGateway (Some addr) \<rparr>)
      | DeployUpgradable _ proxy \<Rightarrow>
          Inr (s\<lparr> step_kind_of := DeployUpgradable (Some addr) proxy \<rparr>)
      | _ \<Rightarrow> Inl (Report ''cannot set an implementation address on step kind''))"

definition set_proxy_address :: "step \<Rightarrow> address \<Rightarrow> step result" where
  "set_proxy_address s addr =
     (case step_kind_of s of
        DeployUpgradable impl _ \<Rightarrow>
          Inr (s\<lparr> step_kind_of := DeployUpgradable impl (Some addr) \<rparr>)
      | _ \<Rightarrow> Inl (Report ''cannot set a proxy address on step kind''))"

definition its_address :: "step \<Rightarrow> string \<Rightarrow> address option" where
  "its_address s name =
     (case step_kind_of s of
        DeployIts its tmd it itd tm th service factory \<Rightarrow>
          if name = ''itsDeployer'' then its
          else if name = ''TokenManagerDeployer'' then tmd
          else if name = ''InterchainToken'' then it
          else if name = ''InterchainTokenDeployer'' then itd
          else if name = ''TokenManager'' then tm
          else if name = ''TokenHandler'' then th
          else if name = ''InterchainTokenServiceImpl'' then service
          else if name = ''InterchainTokenFactoryImpl'' then factory
          else None
      | _ \<Rightarrow> None)"

definition set_its_address :: "step \<Rightarrow> string \<Rightarrow> address \<Rightarrow> step result" where
  "set_its_address s name addr =
     (case step_kind_of s of
        DeployIts its tmd it itd tm th service factory \<Rightarrow>
          let a = Some addr; put = (\<lambda>k. Inr (s\<lparr> step_kind_of := k \<rparr>)) in
          if name = ''itsDeployer'' then put (DeployIts a tmd it itd tm th service factory)
          else if name = ''TokenManagerDeployer''
            then put (DeployIts its a it itd tm th service factory)
          else if name = ''InterchainToken''
            then put (DeployIts its tmd a itd tm th service factory)
          else if name = ''InterchainTokenDeployer''
            then put (DeployIts its tmd it a tm th service factory)
          else if name = ''TokenManager''
            then put (DeployIts its tmd it itd a th service factory)
          else if name = ''TokenHandler''
            then put (DeployIts its tmd it itd tm a service factory)
          else if name = ''InterchainTokenServiceImpl''
            then put (DeployIts its tmd it itd tm th a factory)
          else if name = ''InterchainTokenFactoryImpl''
            then put (DeployIts its tmd it itd tm th service a)
          else Inl (Report ''unknown ITS sub-deploy name'')
      | _ \<Rightarrow> Inl (Report ''cannot set ITS address on a non-DeployIts step''))"

definition clear_its_helper_addresses :: "step \<Rightarrow> step result" where
  "clear_its_helper_addresses s =
     (case step_kind_of s of
        DeployIts its _ _ _ _ _ _ _ \<Rightarrow>
          Inr (s\<lparr> step_kind_of := DeployIts its None None None None None None None \<rparr>)
      | _ \<Rightarrow> Inl (Report ''cannot clear ITS helper addresses on a non-DeployIts step''))"

subsection \<open>Persistence and loading\<close>

text \<open>
  \<open>save_state_at\<close> drops the secret fields from the serialised object, and
  \<open>rewards_funder_mnemonic\<close> is never serialised; reading the file back fills them with their
  defaults.  \<open>saved_state\<close> is the state a later run reads.
\<close>

definition saved_state :: "state \<Rightarrow> state" where
  "saved_state st =
     st\<lparr> st_mnemonic := [], st_admin_mnemonic := None, st_rewards_funder_mnemonic := None,
         st_deployer_private_key := None, st_gateway_deployer_private_key := None,
         st_gas_service_deployer_private_key := None, st_its_deployer_private_key := None \<rparr>"

text \<open>A path is the list of its components.\<close>

type_synonym path = "string list"

definition chain_identifier_ok :: "string \<Rightarrow> bool" where
  "chain_identifier_ok chain =
     list_all (\<lambda>c. CHR ''0'' \<le> c \<and> c \<le> CHR ''9'' \<or> CHR ''A'' \<le> c \<and> c \<le> CHR ''Z'' \<or>
       CHR ''a'' \<le> c \<and> c \<le> CHR ''z'' \<or> c = CHR ''-'') chain"

definition candidates ::
  "path \<Rightarrow> (path \<Rightarrow> bool) \<Rightarrow> string \<Rightarrow> network option \<Rightarrow> path list result" where
  "candidates data_dir exists_at chain network =
     and_then (ensure (chain_identifier_ok chain) ''invalid chain identifier'') (\<lambda>_.
       let hardened =
             map (\<lambda>env. data_dir @ [''deployments'', network_as_str env, chain, ''state.json''])
               (filter (\<lambda>env. network = None \<or> network = Some env)
                 [Mainnet, Testnet, Stagenet, DevnetAmplifier]);
           legacy = data_dir @ [chain @ ''.json'']
       in Inr (filter exists_at hardened @ (if exists_at legacy then [legacy] else [])))"

definition unused_legacy :: "state \<Rightarrow> state \<Rightarrow> bool" where
  "unused_legacy legacy current =
     (st_hardened_plan legacy = None
      \<and> st_hardened_fingerprint legacy = None
      \<and> st_env legacy = st_env current
      \<and> st_axelar_id legacy = st_axelar_id current
      \<and> st_target_json legacy = st_target_json current
      \<and> st_cosm_salt legacy = st_cosm_salt current
      \<and> st_proposals legacy = []
      \<and> list_all (\<lambda>s. step_status_of s = Pending) (st_steps legacy)
      \<and> st_predicted_gateway_address legacy = None
      \<and> st_sender_receiver_address legacy = None)"

text \<open>The file holds a hardened deployment whose journal stands beside it.\<close>

definition journaled_at :: "(path \<Rightarrow> bool) \<Rightarrow> path \<Rightarrow> state \<Rightarrow> bool" where
  "journaled_at is_file p current =
     (p \<noteq> [] \<and> last p = ''state.json'' \<and> is_file (butlast p @ [''journal.json''])
      \<and> st_hardened_plan current \<noteq> None \<and> st_hardened_fingerprint current \<noteq> None)"

definition superseded :: "(path \<Rightarrow> bool) \<Rightarrow> (path \<times> state) list \<Rightarrow> state \<Rightarrow> bool" where
  "superseded is_file states legacy =
     list_ex (\<lambda>(p, current). journaled_at is_file p current \<and> unused_legacy legacy current) states"

definition read_paths ::
  "(path \<Rightarrow> state result) \<Rightarrow> (path \<Rightarrow> bool) \<Rightarrow> path list \<Rightarrow> network option \<Rightarrow> state option result"
where
  "read_paths read_at is_file paths network =
     and_then (map_ok (\<lambda>p. and_then (read_at p) (\<lambda>st. Inr (p, st))) paths) (\<lambda>loaded.
       let states = filter (\<lambda>(_, st). network = None \<or> network = Some (st_env st)) loaded;
           kept = filter (\<lambda>(_, st). \<not> superseded is_file states st) states
       in and_then (ensure (length kept \<le> 1) ''multiple deployments match'') (\<lambda>_.
            Inr (if kept = [] then None else Some (snd (last kept)))))"

subsection \<open>The step cursor\<close>

text \<open>Progress is sequential when no completed step follows a pending one.\<close>

definition sequential :: "step list \<Rightarrow> bool" where
  "sequential ss =
     list_all (\<lambda>s. step_status_of s = Pending)
       (dropWhile (\<lambda>s. step_status_of s = Completed) ss)"

definition pending_count :: "step list \<Rightarrow> nat" where
  "pending_count ss = length (filter (\<lambda>s. step_status_of s = Pending) ss)"

lemma not_pending [simp]:
  "(status \<noteq> Pending) = (status = Completed)" "(status \<noteq> Completed) = (status = Pending)"
  by (cases status; simp)+

lemma next_pending_step_Some:
  "next_pending_step st = Some (i, s) \<longleftrightarrow>
     i < length (st_steps st) \<and> st_steps st ! i = s \<and> step_status_of s = Pending \<and>
     (\<forall>j < i. step_status_of (st_steps st ! j) = Completed)"
  by (auto simp: next_pending_step_def find_Some_iff nth_enumerate_eq)

lemma next_pending_step_None:
  "next_pending_step st = None \<longleftrightarrow> (\<forall>s \<in> set (st_steps st). step_status_of s = Completed)"
  by (force simp: next_pending_step_def find_None_iff in_set_enumerate_eq all_set_conv_all_nth)

lemma sequential_Cons:
  "sequential (a # ss) \<longleftrightarrow>
     (if step_status_of a = Completed then sequential ss
      else \<forall>x \<in> set ss. step_status_of x = Pending)"
  by (auto simp: sequential_def list_all_iff)

lemma sequential_Nil [simp]: "sequential []"
  by (simp add: sequential_def)

lemma all_pending_sequential: "\<forall>x \<in> set ss. step_status_of x = Pending \<Longrightarrow> sequential ss"
  by (induction ss) (auto simp: sequential_Cons)

lemma sequential_prefix:
  "sequential (pre @ post) \<Longrightarrow> \<forall>x \<in> set pre. step_status_of x = Completed \<Longrightarrow> sequential post"
  by (induction pre) (auto simp: sequential_Cons)

lemma sequential_append_completed:
  "\<forall>x \<in> set pre. step_status_of x = Completed \<Longrightarrow> sequential (pre @ post) = sequential post"
  by (induction pre) (auto simp: sequential_Cons)

text \<open>The cursor splits the list: completed steps, the step at the cursor, the rest.\<close>

lemma next_pending_split:
  assumes "next_pending_step st = Some (i, s)"
  obtains pre post where "st_steps st = pre @ s # post" "length pre = i"
    "\<forall>x \<in> set pre. step_status_of x = Completed" "step_status_of s = Pending"
proof
  let ?ss = "st_steps st"
  have i: "i < length ?ss" "?ss ! i = s" and st: "step_status_of s = Pending"
    and c: "\<forall>j < i. step_status_of (?ss ! j) = Completed"
    using assms by (auto simp: next_pending_step_Some)
  show "?ss = take i ?ss @ s # drop (Suc i) ?ss" using i by (metis id_take_nth_drop)
  show "length (take i ?ss) = i" using i by simp
  show "\<forall>x \<in> set (take i ?ss). step_status_of x = Completed"
    using c by (auto simp: in_set_conv_nth)
  show "step_status_of s = Pending" by (rule st)
qed

lemma mark_next_completed:
  assumes "next_pending_step st = Some (i, s)"
  obtains st' pre post where "mark_step_completed st i = Some st'"
    "st_steps st = pre @ s # post" "st_steps st' = pre @ s\<lparr> step_status_of := Completed \<rparr> # post"
    "st' = st\<lparr> st_steps := st_steps st' \<rparr>" "length pre = i"
    "\<forall>x \<in> set pre. step_status_of x = Completed" "step_status_of s = Pending"
proof -
  obtain pre post where split: "st_steps st = pre @ s # post" "length pre = i"
    and c: "\<forall>x \<in> set pre. step_status_of x = Completed" "step_status_of s = Pending"
    using assms by (rule next_pending_split)
  show thesis
    by (rule that [of "st\<lparr> st_steps := pre @ s\<lparr> step_status_of := Completed \<rparr> # post \<rparr>" pre post])
      (use split c in \<open>auto simp: mark_step_completed_def list_update_append nth_append\<close>)
qed

text \<open>Completing the step at the cursor keeps progress sequential and consumes one step.\<close>

lemma mark_next_sequential:
  assumes "next_pending_step st = Some (i, s)" and "sequential (st_steps st)"
    and "mark_step_completed st i = Some st'"
  shows "sequential (st_steps st') \<and> Suc (pending_count (st_steps st')) = pending_count (st_steps st)"
proof -
  obtain pre post where "st_steps st = pre @ s # post"
    and st': "st_steps st' = pre @ s\<lparr> step_status_of := Completed \<rparr> # post"
    and c: "\<forall>x \<in> set pre. step_status_of x = Completed" "step_status_of s = Pending"
    by (rule mark_next_completed [OF assms(1)]) (use assms(3) in simp)
  moreover from this have "\<forall>x \<in> set post. step_status_of x = Pending"
    using assms(2) by (simp add: sequential_append_completed sequential_Cons)
  ultimately show ?thesis
    by (simp add: sequential_append_completed sequential_Cons all_pending_sequential pending_count_def)
qed

subsection \<open>What the operations promise\<close>

lemma default_steps_shape:
  "length default_steps = 20" "distinct (map step_name default_steps)"
  "\<forall>s \<in> set default_steps. step_status_of s = Pending"
  by code_simp+

lemma set_its_address_ok:
  "is_ok (set_its_address s name a) \<longleftrightarrow>
     (\<exists>f1 f2 f3 f4 f5 f6 f7 f8. step_kind_of s = DeployIts f1 f2 f3 f4 f5 f6 f7 f8) \<and>
     name \<in> {''itsDeployer'', ''TokenManagerDeployer'', ''InterchainToken'',
       ''InterchainTokenDeployer'', ''TokenManager'', ''TokenHandler'',
       ''InterchainTokenServiceImpl'', ''InterchainTokenFactoryImpl''}"
  by (cases "step_kind_of s") (simp_all add: set_its_address_def Let_def)

lemma set_its_address_get:
  assumes "set_its_address s name a = Inr s'"
  shows "its_address s' n = (if n = name then Some a else its_address s n)"
proof (cases "step_kind_of s")
  case (DeployIts f1 f2 f3 f4 f5 f6 f7 f8)
  then show ?thesis
    using assms
    apply (simp only: set_its_address_def Let_def step_kind.case split: if_split_asm)
    apply (simp_all only: sum.inject sum.distinct)
    by (hypsubst, simp add: its_address_def)+
qed (use assms in \<open>simp_all add: set_its_address_def\<close>)

lemma set_its_address_frame:
  assumes "set_its_address s name a = Inr s'"
  shows "step_name s' = step_name s \<and> step_status_of s' = step_status_of s"
proof (cases "step_kind_of s")
  case (DeployIts f1 f2 f3 f4 f5 f6 f7 f8)
  then show ?thesis
    using assms
    apply (simp only: set_its_address_def Let_def step_kind.case split: if_split_asm)
    apply (simp_all only: sum.inject sum.distinct)
    by (hypsubst, simp)+
qed (use assms in \<open>simp_all add: set_its_address_def\<close>)

text \<open>
  C15: Recording an ITS sub-deployment address behaves like a store: the recorded name reads
  back as the new address, every other sub-deployment (and every unknown name) reads as
  before, and the step keeps its name and status, so an interrupted ITS deployment resumes
  with exactly the addresses recorded so far.
\<close>

theorem its_address_store:
  assumes "set_its_address s name a = Inr s'"
  shows "its_address s' n = (if n = name then Some a else its_address s n) \<and>
    step_name s' = step_name s \<and> step_status_of s' = step_status_of s"
  using set_its_address_get [OF assms] set_its_address_frame [OF assms] by simp

theorem its_address_store_witness:
  "\<exists>s'. set_its_address deploy_its_step ''TokenHandler'' 7 = Inr s' \<and>
     its_address s' ''TokenHandler'' = Some 7 \<and> its_address s' ''TokenManager'' = None \<and>
     step_status_of s' = Pending"
proof -
  obtain s' where s': "set_its_address deploy_its_step ''TokenHandler'' 7 = Inr s'"
    by (simp add: set_its_address_def deploy_its_step_def pending_step_def Let_def)
  have base: "its_address deploy_its_step ''TokenManager'' = None"
    "step_status_of deploy_its_step = Pending"
    by (simp_all add: its_address_def deploy_its_step_def pending_step_def)
  show ?thesis
    using s' base its_address_store [OF s', of "''TokenHandler''"]
      its_address_store [OF s', of "''TokenManager''"] by auto
qed

text \<open>
  Clearing the helper addresses forgets seven of the eight addresses: the deployer's own
  address stays recorded.
\<close>

lemma clear_keeps_its_deployer:
  assumes "clear_its_helper_addresses s = Inr s'"
  shows "its_address s' n = (if n = ''itsDeployer'' then its_address s n else None)"
  using assms
  by (cases "step_kind_of s") (auto simp: clear_its_helper_addresses_def its_address_def)

lemma saved_state_idem [simp]: "saved_state (saved_state st) = saved_state st"
  by (simp add: saved_state_def)

lemma saved_state_cursor [simp]:
  "next_pending_step (saved_state st) = next_pending_step st" "st_steps (saved_state st) = st_steps st"
  by (simp_all add: saved_state_def next_pending_step_def)

lemma hardened_not_superseded:
  "st_hardened_plan st \<noteq> None \<Longrightarrow> \<not> superseded is_file states st"
  by (auto simp: superseded_def unused_legacy_def list_ex_iff)

lemma map_ok_mem:
  "map_ok f xs = Inr ys \<Longrightarrow> x \<in> set xs \<Longrightarrow> \<exists>y \<in> set ys. f x = Inr y"
  by (auto simp: map_ok_Inr list_all2_conv_all_nth in_set_conv_nth)

lemma short_list_mem: "length xs \<le> 1 \<Longrightarrow> x \<in> set xs \<Longrightarrow> xs = [x]"
  by (cases xs) auto



text \<open>A plan and a fresh hardened state that the witnesses of the deployment theories share.\<close>

definition sample_plan :: plan where
  "sample_plan =
     \<lparr> pl_evm_chain_id = 143, pl_axelar_chain_id = ''axelar-dojo-1'',
       pl_gateway_owner = 1, pl_operators_owner = 2, pl_gas_service_owner = 3, pl_its_owner = 4,
       pl_factory_owner = 5, pl_gateway_operator = 6, pl_prover_admin = ''axelar1admin'',
       pl_approved_verifiers = [], pl_evm_gas_budget = ''1000'', pl_cosmos_fee_budget = ''500'',
       pl_reward_amount = ''7'', pl_voting_threshold = (2, 3), pl_signing_threshold = (2, 3),
       pl_block_expiry = 10, pl_confirmation_height = 1 \<rparr>"

definition sample_state :: state where
  "sample_state =
     \<lparr> st_axelar_id = ''monad'', st_rpc_url = ''http://rpc'', st_target_json = ''mainnet.json'',
       st_mnemonic = ''secret'', st_hardened_plan = Some sample_plan,
       st_hardened_fingerprint = Some 9, st_env = Mainnet, st_cosm_salt = ''v1'',
       st_admin_mnemonic = None, st_rewards_funder_mnemonic = None,
       st_deployer_private_key = None, st_gateway_deployer_private_key = None,
       st_gateway_deployer = None, st_gas_service_deployer_private_key = None,
       st_its_deployer_private_key = None, st_its_salt = Some ''v2.2.0'',
       st_its_proxy_salt = Some ''v1.0.0'', st_predicted_gateway_address = None,
       st_sender_receiver_address = None, st_proposals = [], st_steps = default_steps \<rparr>"

definition sample_legacy :: state where
  "sample_legacy =
     sample_state\<lparr> st_hardened_plan := None, st_hardened_fingerprint := None \<rparr>"


end
