(* ===== verification/Deploy_Plan.thy ===== *)
theory Deploy_Plan
  imports Deploy_State
begin

text \<open>
  The approved plan (\<open>hardened/plan.rs\<close>, \<open>hardened/evm_policy.rs\<close>): its validation, the step
  list derived from it, and the check that a saved step list is the approved one with
  sequential progress.  Account parsing belongs to the Cosmos library: \<open>account_prefix\<close> gives
  the bech32 prefix of a well-formed account identifier and nothing for any other text.
\<close>

definition validate_network_thresholds :: "plan \<Rightarrow> network \<Rightarrow> unit result" where
  "validate_network_thresholds p n =
     ensure (pl_voting_threshold p = verifier_threshold n
             \<and> pl_signing_threshold p = verifier_threshold n)
       ''new deployments require the network voting and signing thresholds''"

definition planned_step :: "plan \<Rightarrow> step \<Rightarrow> step result" where
  "planned_step p s =
     (case step_kind_of s of
        TransferOwnership contract _ \<Rightarrow>
          let put = (\<lambda>owner. Inr (s\<lparr> step_kind_of := TransferOwnership contract owner \<rparr>)) in
          if contract = ''Operators'' then put (pl_operators_owner p)
          else if contract = ''AxelarGateway'' then put (pl_gateway_owner p)
          else if contract = ''AxelarGasService'' then put (pl_gas_service_owner p)
          else Inl (Report ''unexpected ownership step'')
      | _ \<Rightarrow> Inr s)"

definition plan_steps :: "plan \<Rightarrow> step list result" where
  "plan_steps p = map_ok (planned_step p) default_steps"

definition valid_threshold :: "u64 \<times> u64 \<Rightarrow> bool" where
  "valid_threshold t =
     (fst t > 0 \<and> fst t \<le> snd t \<and> (ucast (fst t) :: u128) * 2 > ucast (snd t))"

definition validate_plan :: "(string \<Rightarrow> string option) \<Rightarrow> plan \<Rightarrow> unit result" where
  "validate_plan account_prefix p =
     and_then (ensure (pl_evm_chain_id p \<noteq> 0 \<and> pl_axelar_chain_id p \<noteq> [])
       ''network identities required'') (\<lambda>_.
     and_then (ok_or (account_prefix (pl_prover_admin p)) ''invalid account identifier'') (\<lambda>prefix.
     and_then (ensure (prefix = ''axelar'') ''expected an Axelar prover admin address'') (\<lambda>_.
     and_then (all_ok (\<lambda>owner. ensure (owner \<noteq> 0) ''zero owner/operator is not allowed'')
       [pl_gateway_owner p, pl_operators_owner p, pl_gas_service_owner p, pl_its_owner p,
        pl_factory_owner p, pl_gateway_operator p]) (\<lambda>_.
     and_then (all_ok (\<lambda>t. ensure (valid_threshold t) ''invalid threshold'')
       [pl_voting_threshold p, pl_signing_threshold p]) (\<lambda>_.
     and_then (all_ok (\<lambda>amount.
         and_then (ok_or (parse_word amount :: u128 option) ''invalid digit found in string'') (\<lambda>n.
         ensure (n > 0) ''budgets and reward amount must be positive integers''))
       [pl_evm_gas_budget p, pl_cosmos_fee_budget p, pl_reward_amount p]) (\<lambda>_.
     ensure (pl_block_expiry p > 0 \<and> pl_confirmation_height p > 0)
       ''invalid confirmation/poll settings''))))))"

text \<open>
  The saved step is compared with the planned one field by field on their serialised forms: an
  absent optional field of the planned step is not serialised and so is not compared.
\<close>

definition field_matches :: "'a option \<Rightarrow> 'a option \<Rightarrow> bool" where
  "field_matches expected actual = (expected = None \<or> actual = expected)"

fun kind_matches :: "step_kind \<Rightarrow> step_kind \<Rightarrow> bool" where
  "kind_matches (DeployGateway i) (DeployGateway i') = field_matches i i'"
| "kind_matches (DeployUpgradable i p) (DeployUpgradable i' p') =
     (field_matches i i' \<and> field_matches p p')"
| "kind_matches (DeployIts a b c d e f g h) (DeployIts a' b' c' d' e' f' g' h') =
     (field_matches a a' \<and> field_matches b b' \<and> field_matches c c' \<and> field_matches d d' \<and>
      field_matches e e' \<and> field_matches f f' \<and> field_matches g g' \<and> field_matches h h')"
| "kind_matches k k' = (k = k')"

definition step_matches :: "step \<Rightarrow> step \<Rightarrow> bool" where
  "step_matches expected actual =
     (step_name actual = step_name expected \<and>
      kind_matches (step_kind_of expected) (step_kind_of actual))"

fun check_steps :: "bool \<Rightarrow> (step \<times> step) list \<Rightarrow> unit result" where
  "check_steps pending [] = Inr ()"
| "check_steps pending ((expected, actual) # rest) =
     and_then (ensure (step_matches expected actual)
       ''step definition differs from approved plan'') (\<lambda>_.
     case step_status_of actual of
       Pending \<Rightarrow> check_steps True rest
     | Completed \<Rightarrow>
         and_then (ensure (\<not> pending)
           ''non-sequential deployment progress; restore the last valid checkpoint'') (\<lambda>_.
         check_steps pending rest))"

definition validate_steps :: "state \<Rightarrow> unit result" where
  "validate_steps st =
     and_then (ok_or (st_hardened_plan st) ''missing plan'') (\<lambda>p.
     and_then (plan_steps p) (\<lambda>expected.
     and_then (ensure (length expected = length (st_steps st)) ''deployment step list changed'')
       (\<lambda>_. check_steps False (zip expected (st_steps st)))))"

definition salt :: "network \<Rightarrow> string \<Rightarrow> string \<Rightarrow> string" where
  "salt n name configured = (if n = Mainnet then name else configured)"

definition validate_salts :: "state \<Rightarrow> unit result" where
  "validate_salts st =
     (if st_env st = Mainnet
      then ensure (st_its_salt st = Some ''v2.2.0'' \<and> st_its_proxy_salt st = Some ''v1.0.0'')
        ''mainnet requires ITS_SALT=v2.2.0 and ITS_PROXY_SALT=v1.0.0 for this release''
      else Inr ())"

subsection \<open>Thresholds\<close>

lemma valid_threshold_iff:
  "valid_threshold (a, b) \<longleftrightarrow> 0 < unat a \<and> unat a \<le> unat b \<and> unat b < 2 * unat a"
proof -
  have "unat a < 2 ^ 64" "unat b < 2 ^ 64"
    using unsigned_less [of a, where 'a = nat] unsigned_less [of b, where 'a = nat] by simp_all
  then show ?thesis
    by (simp add: valid_threshold_def word_less_nat_alt word_le_nat_alt unat_word_ariths(2)
        unsigned_ucast_eq take_bit_nat_eq_self) linarith
qed

lemma network_thresholds_valid: "valid_threshold (verifier_threshold n)"
  by (cases n) (simp_all add: valid_threshold_def verifier_threshold_def)

lemma validate_plan_thresholds:
  "validate_plan account_prefix p = Inr () \<Longrightarrow>
     valid_threshold (pl_voting_threshold p) \<and> valid_threshold (pl_signing_threshold p)"
  by (simp add: validate_plan_def result_simps)

lemma validate_plan_owners:
  "validate_plan account_prefix p = Inr () \<Longrightarrow>
     0 \<notin> {pl_gateway_owner p, pl_operators_owner p, pl_gas_service_owner p, pl_its_owner p,
       pl_factory_owner p, pl_gateway_operator p}"
  by (auto simp: validate_plan_def result_simps)

subsection \<open>The approved step list\<close>

lemma check_steps_Inr:
  "check_steps pending zs = Inr () \<longleftrightarrow>
     (\<forall>(e, a) \<in> set zs. step_matches e a) \<and>
     (if pending then \<forall>a \<in> set (map snd zs). step_status_of a = Pending
      else sequential (map snd zs))"
  by (induction pending zs rule: check_steps.induct)
    (auto simp: result_simps sequential_Cons split: step_status.splits)

lemma validate_steps_iff:
  "validate_steps st = Inr () \<longleftrightarrow>
     (\<exists>p expected. st_hardened_plan st = Some p \<and> plan_steps p = Inr expected \<and>
        list_all2 step_matches expected (st_steps st) \<and> sequential (st_steps st))"
  by (auto simp: validate_steps_def result_simps check_steps_Inr list_all2_iff)


lemma plan_steps_ok:
  "\<exists>ss. plan_steps p = Inr ss \<and> length ss = 20 \<and> map step_name ss = map step_name default_steps"
  by (simp add: plan_steps_def default_steps_def planned_step_def pending_step_def
      ownership_step_def deploy_its_step_def)

text \<open>What a step handler may write into its own step while it runs.\<close>

inductive records :: "step \<Rightarrow> step \<Rightarrow> bool" for s where
  records_none: "records s s"
| records_implementation:
    "records s s' \<Longrightarrow> set_implementation_address s' a = Inr s'' \<Longrightarrow> records s s''"
| records_proxy: "records s s' \<Longrightarrow> set_proxy_address s' a = Inr s'' \<Longrightarrow> records s s''"
| records_its: "records s s' \<Longrightarrow> set_its_address s' name a = Inr s'' \<Longrightarrow> records s s''"
| records_clear: "records s s' \<Longrightarrow> clear_its_helper_addresses s' = Inr s'' \<Longrightarrow> records s s''"

fun unrecorded :: "step_kind \<Rightarrow> bool" where
  "unrecorded (DeployGateway i) = (i = None)"
| "unrecorded (DeployUpgradable i p) = (i = None \<and> p = None)"
| "unrecorded (DeployIts a b c d e f g h) =
     (a = None \<and> b = None \<and> c = None \<and> d = None \<and> e = None \<and> f = None \<and> g = None \<and> h = None)"
| "unrecorded _ = True"

lemma plan_steps_unrecorded:
  "plan_steps p = Inr ss \<Longrightarrow> \<forall>s \<in> set ss. unrecorded (step_kind_of s)"
  by (auto simp: plan_steps_def default_steps_def planned_step_def pending_step_def
      ownership_step_def deploy_its_step_def)

text \<open>The constructor of a kind and the fields that are fixed by the plan.\<close>

fun kind_core :: "step_kind \<Rightarrow> step_kind" where
  "kind_core (DeployGateway i) = DeployGateway None"
| "kind_core (DeployUpgradable i p) = DeployUpgradable None None"
| "kind_core (DeployIts a b c d e f g h) = DeployIts None None None None None None None None"
| "kind_core k = k"

lemma kind_matches_core: "unrecorded k \<Longrightarrow> kind_matches k k' \<longleftrightarrow> kind_core k' = k"
  by (cases k; cases k') (auto simp: field_matches_def)

lemma set_its_address_core:
  assumes "set_its_address s name a = Inr s'"
  shows "kind_core (step_kind_of s') = kind_core (step_kind_of s)"
proof (cases "step_kind_of s")
  case (DeployIts f1 f2 f3 f4 f5 f6 f7 f8)
  then show ?thesis
    using assms
    apply (simp only: set_its_address_def Let_def step_kind.case split: if_split_asm)
    apply (simp_all only: sum.inject sum.distinct)
    by (hypsubst, simp)+
qed (use assms in \<open>simp_all add: set_its_address_def\<close>)

lemma records_core:
  "records s s' \<Longrightarrow> step_name s' = step_name s \<and> step_status_of s' = step_status_of s \<and>
     kind_core (step_kind_of s') = kind_core (step_kind_of s)"
  by (induction rule: records.induct)
    (auto simp: set_implementation_address_def set_proxy_address_def
      clear_its_helper_addresses_def set_its_address_core set_its_address_frame
      split: step_kind.splits)

lemma step_matches_records:
  assumes "unrecorded (step_kind_of e)" and "step_matches e s" and "records s s'"
  shows "step_matches e (s'\<lparr> step_status_of := status \<rparr>)"
  using assms records_core [OF assms(3)] by (simp add: step_matches_def kind_matches_core)

lemma list_all2_update_right:
  "list_all2 P xs (pre @ y # post) \<Longrightarrow> (\<And>x. x \<in> set xs \<Longrightarrow> P x y \<Longrightarrow> P x y') \<Longrightarrow>
   list_all2 P xs (pre @ y' # post)"
proof (induction pre arbitrary: xs)
  case (Cons a pre)
  then show ?case by (cases xs) auto
qed (auto simp: list_all2_Cons2)

text \<open>
  C11: Progress stays on the approved plan.  If the saved steps pass validation, the step at the
  cursor runs, records any addresses in itself and is marked completed, then the new step list
  passes validation again and exactly one pending step has been consumed.  So every state a
  run saves is one that a resume accepts.
\<close>

theorem progress_stays_approved:
  assumes "validate_steps st = Inr ()"
    and "next_pending_step st = Some (i, s)"
    and "records s s'"
    and "mark_step_completed (st\<lparr> st_steps := (st_steps st)[i := s'] \<rparr>) i = Some st'"
  shows "validate_steps st' = Inr () \<and>
    Suc (pending_count (st_steps st')) = pending_count (st_steps st)"
proof -
  obtain p expected where p: "st_hardened_plan st = Some p" "plan_steps p = Inr expected"
    and match: "list_all2 step_matches expected (st_steps st)" and seq: "sequential (st_steps st)"
    using assms(1) by (auto simp: validate_steps_iff)
  obtain pre post where split: "st_steps st = pre @ s # post" "length pre = i"
    and fin: "\<forall>x \<in> set pre. step_status_of x = Completed" and pend: "step_status_of s = Pending"
    using assms(2) by (rule next_pending_split)
  let ?s = "s'\<lparr> step_status_of := Completed \<rparr>"
  have st': "st_steps st' = pre @ ?s # post" "st_hardened_plan st' = st_hardened_plan st"
    using assms(4) split by (auto simp: mark_step_completed_def)
  have rest: "\<forall>x \<in> set post. step_status_of x = Pending"
    using seq fin pend by (simp add: split sequential_append_completed sequential_Cons)
  have "list_all2 step_matches expected (pre @ ?s # post)"
    using match plan_steps_unrecorded [OF p(2)] assms(3)
    by (auto simp: split intro: list_all2_update_right step_matches_records)
  moreover have "sequential (pre @ ?s # post)"
    using fin rest by (simp add: sequential_append_completed sequential_Cons all_pending_sequential)
  ultimately show ?thesis
    using p pend by (simp add: validate_steps_iff st' split pending_count_def)
qed

definition sample_progress :: "nat \<Rightarrow> state" where
  "sample_progress n =
     (case plan_steps sample_plan of
        Inr ss \<Rightarrow> sample_state\<lparr> st_steps :=
          map (\<lambda>s. s\<lparr> step_status_of := Completed \<rparr>) (take n ss) @ drop n ss \<rparr>
      | Inl _ \<Rightarrow> sample_state)"

theorem progress_stays_approved_witness:
  "\<exists>st'. mark_step_completed ((sample_progress 10)\<lparr> st_steps := (st_steps (sample_progress 10))
        [10 := pending_step ''AxelarGateway'' (DeployGateway (Some 77))] \<rparr>) 10 = Some st' \<and>
     validate_steps st' = Inr () \<and> pending_count (st_steps st') = 9"
proof -
  let ?st = "sample_progress 10"
  let ?s = "pending_step ''AxelarGateway'' (DeployGateway None)"
  let ?s' = "pending_step ''AxelarGateway'' (DeployGateway (Some 77))"
  have ok: "validate_steps ?st = Inr ()" by code_simp
  have next_: "next_pending_step ?st = Some (10, ?s)" by code_simp
  have "records ?s ?s'"
    by (rule records_implementation [OF records_none, of _ 77])
      (simp add: set_implementation_address_def pending_step_def)
  moreover have "length (st_steps ?st) = 20" and count: "pending_count (st_steps ?st) = 10"
    by code_simp+
  moreover from this obtain st' where
    "mark_step_completed (?st\<lparr> st_steps := (st_steps ?st)[10 := ?s'] \<rparr>) 10 = Some st'"
    by (simp add: mark_step_completed_def)
  ultimately show ?thesis using progress_stays_approved [OF ok next_] by fastforce
qed

end
