(* ===== verification/Deploy_Storage.thy ===== *)
theory Deploy_Storage
  imports Deploy_State
begin

text \<open>
  Durable writes (\<open>hardened/storage.rs\<close>): the file is written beside its target, synced, renamed
  over it and the directory synced.  The file system keeps, for every path, the directory entry
  a running process sees and the entry that is on disk, and for every inode its data and
  whether that data is synced.  After a crash a path reads through either entry, and an
  inode that was not synced may hold anything.
\<close>

record filesystem =
  fs_dir :: "path \<Rightarrow> nat option"
  fs_dir_synced :: "path \<Rightarrow> nat option"
  fs_data :: "nat \<Rightarrow> bytes"
  fs_synced :: "nat \<Rightarrow> bool"
  fs_next :: nat

datatype fs_op =
    OpenTruncate path
  | SetPermissions path
  | WriteAll path bytes
  | SyncFile path
  | Rename path path
  | SyncDir

fun fs_exec :: "fs_op \<Rightarrow> filesystem \<Rightarrow> filesystem" where
  "fs_exec (OpenTruncate p) fs =
     (case fs_dir fs p of
        Some i \<Rightarrow> fs\<lparr> fs_data := (fs_data fs)(i := []), fs_synced := (fs_synced fs)(i := False) \<rparr>
      | None \<Rightarrow>
          let i = fs_next fs in
          fs\<lparr> fs_dir := (fs_dir fs)(p := Some i), fs_data := (fs_data fs)(i := []),
              fs_synced := (fs_synced fs)(i := False), fs_next := Suc i \<rparr>)"
| "fs_exec (SetPermissions p) fs = fs"
| "fs_exec (WriteAll p bs) fs =
     (case fs_dir fs p of
        Some i \<Rightarrow> fs\<lparr> fs_data := (fs_data fs)(i := fs_data fs i @ bs),
                     fs_synced := (fs_synced fs)(i := False) \<rparr>
      | None \<Rightarrow> fs)"
| "fs_exec (SyncFile p) fs =
     (case fs_dir fs p of
        Some i \<Rightarrow> fs\<lparr> fs_synced := (fs_synced fs)(i := True) \<rparr>
      | None \<Rightarrow> fs)"
| "fs_exec (Rename p q) fs =
     (case fs_dir fs p of
        Some i \<Rightarrow> fs\<lparr> fs_dir := (fs_dir fs)(q := Some i, p := None) \<rparr>
      | None \<Rightarrow> fs)"
| "fs_exec SyncDir fs = fs\<lparr> fs_dir_synced := fs_dir fs \<rparr>"

definition fs_run :: "fs_op list \<Rightarrow> filesystem \<Rightarrow> filesystem" where
  "fs_run ops fs = fold fs_exec ops fs"

definition may_read :: "filesystem \<Rightarrow> path \<Rightarrow> bytes option \<Rightarrow> bool" where
  "may_read fs p r =
     (\<exists>entry \<in> {fs_dir fs p, fs_dir_synced fs p}.
        case entry of
          None \<Rightarrow> r = None
        | Some i \<Rightarrow> \<exists>b. r = Some b \<and> (fs_synced fs i \<longrightarrow> b = fs_data fs i))"

text \<open>The temporary name replaces the extension of the target's file name.\<close>

definition file_stem :: "string \<Rightarrow> string" where
  "file_stem name =
     (let before = dropWhile (\<lambda>c. c \<noteq> CHR ''.'') (rev name) in
      if before = [] \<or> tl before = [] then name else rev (tl before))"

definition with_extension :: "path \<Rightarrow> string \<Rightarrow> path" where
  "with_extension p ext = butlast p @ [file_stem (last p) @ CHR ''.'' # ext]"

definition temporary_path :: "path \<Rightarrow> string \<Rightarrow> path" where
  "temporary_path p pid = with_extension p (pid @ ''.tmp'')"

definition write_ops :: "path \<Rightarrow> bytes \<Rightarrow> bool \<Rightarrow> string \<Rightarrow> fs_op list" where
  "write_ops p bs preserve_mode pid =
     (let tmp = temporary_path p pid in
      [OpenTruncate tmp] @ (if preserve_mode then [SetPermissions tmp] else []) @
      [WriteAll tmp bs, SyncFile tmp, Rename tmp p, SyncDir])"

definition deployment_directory :: "path \<Rightarrow> state \<Rightarrow> path result" where
  "deployment_directory data_dir st =
     and_then (ensure (chain_identifier_ok (st_axelar_id st))
       ''chain identifier must contain only ASCII letters, digits or hyphens'') (\<lambda>_.
     Inr (data_dir @ [''deployments'', network_as_str (st_env st), st_axelar_id st]))"

subsection \<open>The temporary file is another file\<close>

lemma file_stem_cases:
  "file_stem name = name \<or> (\<exists>ext. CHR ''.'' \<notin> set ext \<and> name = file_stem name @ CHR ''.'' # ext)"
proof -
  let ?ext = "takeWhile (\<lambda>c. c \<noteq> CHR ''.'') (rev name)"
  let ?before = "dropWhile (\<lambda>c. c \<noteq> CHR ''.'') (rev name)"
  show ?thesis
  proof (cases "?before = [] \<or> tl ?before = []")
    case False
    then have "?before = CHR ''.'' # tl ?before"
      using hd_dropWhile [of "\<lambda>c. c \<noteq> CHR ''.''" "rev name"] by (cases ?before) auto
    then have "rev name = ?ext @ CHR ''.'' # tl ?before" by (metis takeWhile_dropWhile_id)
    then have "name = rev (tl ?before) @ CHR ''.'' # rev ?ext"
      by (metis append.assoc append_Cons append_Nil rev.simps(2) rev_append rev_rev_ident)
    moreover have "CHR ''.'' \<notin> set (rev ?ext)" by (auto dest: set_takeWhileD)
    moreover have "file_stem name = rev (tl ?before)" using False by (auto simp: file_stem_def Let_def)
    ultimately show ?thesis by metis
  qed (auto simp: file_stem_def Let_def)
qed

lemma temporary_path_differs:
  assumes "p \<noteq> []"
  shows "temporary_path p pid \<noteq> p"
proof
  assume "temporary_path p pid = p"
  then have eq: "file_stem (last p) @ CHR ''.'' # pid @ ''.tmp'' = last p"
    unfolding temporary_path_def with_extension_def by (metis last_snoc)
  from file_stem_cases [of "last p"] show False
  proof
    assume "file_stem (last p) = last p"
    with eq show False by simp
  next
    assume "\<exists>ext. CHR ''.'' \<notin> set ext \<and> last p = file_stem (last p) @ CHR ''.'' # ext"
    then obtain ext where "CHR ''.'' \<notin> set ext" "last p = file_stem (last p) @ CHR ''.'' # ext"
      by blast
    then have "ext = pid @ ''.tmp''" using eq by (metis list.inject same_append_eq)
    with \<open>CHR ''.'' \<notin> set ext\<close> show False by simp
  qed
qed

subsection \<open>Crash safety\<close>

text \<open>No inode of the temporary name is an inode of the target, and linked inodes are allocated.\<close>

definition separate :: "filesystem \<Rightarrow> path \<Rightarrow> path \<Rightarrow> bool" where
  "separate fs tmp p =
     ((\<forall>i. fs_dir fs tmp = Some i \<longrightarrow> fs_dir fs p \<noteq> Some i \<and> fs_dir_synced fs p \<noteq> Some i) \<and>
      (\<forall>i. Some i \<in> {fs_dir fs tmp, fs_dir fs p, fs_dir_synced fs p} \<longrightarrow> i < fs_next fs))"

definition on_temporary :: "path \<Rightarrow> fs_op \<Rightarrow> bool" where
  "on_temporary tmp f =
     (case f of OpenTruncate q \<Rightarrow> q = tmp | SetPermissions q \<Rightarrow> q = tmp | WriteAll q _ \<Rightarrow> q = tmp
      | SyncFile q \<Rightarrow> q = tmp | _ \<Rightarrow> False)"

lemma exec_temporary:
  assumes "separate fs tmp p" and "tmp \<noteq> p" and "on_temporary tmp f"
  shows "separate (fs_exec f fs) tmp p" and "may_read (fs_exec f fs) p r = may_read fs p r"
  using assms
  by (cases f;
      auto simp: on_temporary_def separate_def may_read_def Let_def split: option.splits)+

lemma run_temporary:
  assumes "separate fs tmp p" and "tmp \<noteq> p" and "\<forall>f \<in> set ops. on_temporary tmp f"
  shows "separate (fs_run ops fs) tmp p \<and> (\<forall>r. may_read (fs_run ops fs) p r = may_read fs p r)"
  using assms unfolding fs_run_def
  by (induction ops arbitrary: fs) (auto simp: exec_temporary)

definition prepare_ops :: "path \<Rightarrow> bytes \<Rightarrow> bool \<Rightarrow> fs_op list" where
  "prepare_ops tmp bs preserve_mode =
     [OpenTruncate tmp] @ (if preserve_mode then [SetPermissions tmp] else []) @
     [WriteAll tmp bs, SyncFile tmp]"

lemma prepare_on_temporary: "\<forall>f \<in> set (prepare_ops tmp bs m). on_temporary tmp f"
  by (auto simp: prepare_ops_def on_temporary_def)

lemma prepare_contents:
  "\<exists>i. fs_dir (fs_run (prepare_ops tmp bs m) fs) tmp = Some i \<and>
     fs_data (fs_run (prepare_ops tmp bs m) fs) i = bs \<and> fs_synced (fs_run (prepare_ops tmp bs m) fs) i"
  by (cases "fs_dir fs tmp") (auto simp: prepare_ops_def fs_run_def Let_def)

lemma rename_outcomes:
  assumes "fs_dir fs tmp = Some i" "fs_data fs i = bs" "fs_synced fs i" "tmp \<noteq> p"
  shows "may_read (fs_exec (Rename tmp p) fs) p r \<Longrightarrow> r = Some bs \<or> may_read fs p r"
    and "may_read (fs_exec SyncDir (fs_exec (Rename tmp p) fs)) p r \<longleftrightarrow> r = Some bs"
  using assms by (auto simp: may_read_def split: option.splits)

lemma fs_run_append: "fs_run (xs @ ys) fs = fs_run ys (fs_run xs fs)"
  by (simp add: fs_run_def)

lemma fs_run_rename:
  "fs_run [Rename tmp p] fs = fs_exec (Rename tmp p) fs"
  "fs_run [Rename tmp p, SyncDir] fs = fs_exec SyncDir (fs_exec (Rename tmp p) fs)"
  by (simp_all add: fs_run_def)

lemma write_ops_split:
  "write_ops p bs m pid = prepare_ops (temporary_path p pid) bs m @ [Rename (temporary_path p pid) p, SyncDir]"
  by (simp add: write_ops_def prepare_ops_def Let_def)

lemma take_append_two:
  "take n (xs @ [a, b]) = take n xs \<or> take n (xs @ [a, b]) = xs @ [a] \<or> take n (xs @ [a, b]) = xs @ [a, b]"
  by (cases "n - length xs"; cases "n - length xs - 1") (auto simp: take_Cons' not_le)

lemma write_crash_safe:
  assumes "p \<noteq> []" and sep: "separate fs (temporary_path p pid) p"
    and "may_read (fs_run (take n (write_ops p bs m pid)) fs) p r"
  shows "r = Some bs \<or> may_read fs p r"
proof -
  let ?tmp = "temporary_path p pid"
  let ?pre = "prepare_ops ?tmp bs m"
  have ne: "?tmp \<noteq> p" using temporary_path_differs assms(1) by blast
  have pre: "may_read (fs_run (take k ?pre) fs) p r = may_read fs p r" for k
    using run_temporary [OF sep ne] prepare_on_temporary by (meson in_set_takeD)
  obtain i where i: "fs_dir (fs_run ?pre fs) ?tmp = Some i" "fs_data (fs_run ?pre fs) i = bs"
    "fs_synced (fs_run ?pre fs) i" using prepare_contents by blast
  have whole: "may_read (fs_run ?pre fs) p r = may_read fs p r"
    using pre [of "length ?pre"] by simp
  from take_append_two [of n ?pre "Rename ?tmp p" SyncDir] show ?thesis
  proof (elim disjE)
    assume "take n (?pre @ [Rename ?tmp p, SyncDir]) = take n ?pre"
    then show ?thesis using assms(3) pre [of n] by (simp add: write_ops_split)
  next
    assume "take n (?pre @ [Rename ?tmp p, SyncDir]) = ?pre @ [Rename ?tmp p]"
    then have "may_read (fs_exec (Rename ?tmp p) (fs_run ?pre fs)) p r"
      using assms(3) by (simp only: write_ops_split fs_run_append fs_run_rename)
    then show ?thesis using rename_outcomes(1) [OF i ne] whole by blast
  next
    assume "take n (?pre @ [Rename ?tmp p, SyncDir]) = ?pre @ [Rename ?tmp p, SyncDir]"
    then have "may_read (fs_exec SyncDir (fs_exec (Rename ?tmp p) (fs_run ?pre fs))) p r"
      using assms(3) by (simp only: write_ops_split fs_run_append fs_run_rename)
    then show ?thesis using rename_outcomes(2) [OF i ne] by blast
  qed
qed

lemma write_completed:
  assumes "p \<noteq> []"
  shows "may_read (fs_run (write_ops p bs m pid) fs) p r \<longleftrightarrow> r = Some bs"
proof -
  let ?tmp = "temporary_path p pid"
  obtain i where i: "fs_dir (fs_run (prepare_ops ?tmp bs m) fs) ?tmp = Some i"
    "fs_data (fs_run (prepare_ops ?tmp bs m) fs) i = bs"
    "fs_synced (fs_run (prepare_ops ?tmp bs m) fs) i" using prepare_contents by blast
  show ?thesis
    using rename_outcomes(2) [OF i temporary_path_differs [OF assms]]
    by (simp only: write_ops_split fs_run_append fs_run_rename)
qed

lemma rename_separate:
  assumes "separate fs tmp p" "tmp \<noteq> p"
  shows "separate (fs_exec (Rename tmp p) fs) tmp p"
    and "separate (fs_exec SyncDir (fs_exec (Rename tmp p) fs)) tmp p"
  using assms by (auto simp: separate_def split: option.splits)

lemma write_separate:
  assumes "p \<noteq> []" and sep: "separate fs (temporary_path p pid) p"
  shows "separate (fs_run (take n (write_ops p bs m pid)) fs) (temporary_path p pid) p"
proof -
  let ?tmp = "temporary_path p pid"
  let ?pre = "prepare_ops ?tmp bs m"
  have ne: "?tmp \<noteq> p" using temporary_path_differs assms(1) by blast
  have pre: "separate (fs_run (take k ?pre) fs) ?tmp p" for k
    using run_temporary [OF sep ne] prepare_on_temporary by (meson in_set_takeD)
  then have whole: "separate (fs_run ?pre fs) ?tmp p" by (metis take_all_iff order_refl)
  from take_append_two [of n ?pre "Rename ?tmp p" SyncDir] show ?thesis
    using pre [of n] rename_separate [OF whole ne]
    by (elim disjE) (simp_all only: write_ops_split fs_run_append fs_run_rename)
qed

text \<open>
  C10: A durable write is atomic.  However far the write of new contents gets before an error or a
  crash stops it, a later read of the target finds either the complete new contents or what
  could have been read before the write began; once every step of the write has run, only the
  new contents can be read.  The file system stays in the condition the next write needs.
\<close>

theorem atomic_write_crash_safe:
  assumes "p \<noteq> []" and "separate fs (temporary_path p pid) p"
  shows "(\<forall>n r. may_read (fs_run (take n (write_ops p bs mode pid)) fs) p r
            \<longrightarrow> r = Some bs \<or> may_read fs p r) \<and>
    (\<forall>r. may_read (fs_run (write_ops p bs mode pid) fs) p r \<longleftrightarrow> r = Some bs) \<and>
    (\<forall>n. separate (fs_run (take n (write_ops p bs mode pid)) fs) (temporary_path p pid) p)"
  using write_crash_safe [OF assms] write_completed [OF assms(1)] write_separate [OF assms] by blast

definition sample_fs :: filesystem where
  "sample_fs =
     \<lparr> fs_dir = [[''journal.json''] \<mapsto> 0], fs_dir_synced = [[''journal.json''] \<mapsto> 0],
       fs_data = (\<lambda>_. [1, 2]), fs_synced = (\<lambda>_. True), fs_next = 1 \<rparr>"

theorem atomic_write_crash_safe_witness:
  "temporary_path [''journal.json''] ''42'' = [''journal.42.tmp''] \<and>
   {r. may_read (fs_run (take 3 (write_ops [''journal.json''] [7, 8, 9] False ''42'')) sample_fs)
      [''journal.json''] r} \<subseteq> {Some [7, 8, 9], Some [1, 2]}"
proof -
  have tmp: "temporary_path [''journal.json''] ''42'' = [''journal.42.tmp'']" by code_simp
  have sep: "separate sample_fs (temporary_path [''journal.json''] ''42'') [''journal.json'']"
    by (simp add: separate_def sample_fs_def tmp)
  have old: "may_read sample_fs [''journal.json''] r \<longleftrightarrow> r = Some [1, 2]" for r
    by (auto simp: may_read_def sample_fs_def)
  show ?thesis
    using atomic_write_crash_safe [OF _ sep, of "[7, 8, 9]" False] tmp old by auto
qed

end
