(* ===== verification/Axe_Io.thy ===== *)
theory Axe_Io
  imports Axe_Prelude
begin

text \<open>
  Code that talks to a chain or to the disk: a computation takes the world, returns a
  result and the world it leaves behind. An error leaves the world as it was when it was
  raised, so what was written or sent before it stays written or sent. Properties are
  Hoare triples with one postcondition for a value and one for an error.
\<close>

type_synonym ('w, 'a) io = "'w \<Rightarrow> 'a result \<times> 'w"

definition io_return :: "'a \<Rightarrow> ('w, 'a) io" where
  "io_return x w = (Inr x, w)"

definition io_raise :: "report \<Rightarrow> ('w, 'a) io" where
  "io_raise e w = (Inl e, w)"

definition io_bind :: "('w, 'a) io \<Rightarrow> ('a \<Rightarrow> ('w, 'b) io) \<Rightarrow> ('w, 'b) io" where
  "io_bind m f w = (case m w of (Inl e, w') \<Rightarrow> (Inl e, w') | (Inr x, w') \<Rightarrow> f x w')"

definition io_lift :: "'a result \<Rightarrow> ('w, 'a) io" where
  "io_lift r w = (r, w)"

definition io_gets :: "('w \<Rightarrow> 'a) \<Rightarrow> ('w, 'a) io" where
  "io_gets f w = (Inr (f w), w)"

definition io_modify :: "('w \<Rightarrow> 'w) \<Rightarrow> ('w, unit) io" where
  "io_modify f w = (Inr (), f w)"

definition io_ensure :: "bool \<Rightarrow> string \<Rightarrow> ('w, unit) io" where
  "io_ensure c msg = io_lift (ensure c msg)"

text \<open>A branch, written so that recursion below it still sees the world it runs in.\<close>

definition io_if :: "bool \<Rightarrow> ('w, 'a) io \<Rightarrow> ('w, 'a) io \<Rightarrow> ('w, 'a) io" where
  "io_if c a b w = (if c then a w else b w)"

fun io_for :: "'a list \<Rightarrow> ('a \<Rightarrow> ('w, unit) io) \<Rightarrow> ('w, unit) io" where
  "io_for [] f = io_return ()"
| "io_for (x # xs) f = io_bind (f x) (\<lambda>_. io_for xs f)"

fun io_map :: "('a \<Rightarrow> ('w, 'b) io) \<Rightarrow> 'a list \<Rightarrow> ('w, 'b list) io" where
  "io_map f [] = io_return []"
| "io_map f (x # xs) = io_bind (f x) (\<lambda>y. io_bind (io_map f xs) (\<lambda>ys. io_return (y # ys)))"

text \<open>The error of a computation as a value, and an error replaced by the context it is given.\<close>

definition io_try :: "('w, 'a) io \<Rightarrow> ('w, 'a result) io" where
  "io_try m w = (case m w of (r, w') \<Rightarrow> (Inr r, w'))"

definition io_wrap :: "string \<Rightarrow> ('w, 'a) io \<Rightarrow> ('w, 'a) io" where
  "io_wrap msg m w = (case m w of (Inl _, w') \<Rightarrow> (Inl (Report msg), w') | (Inr x, w') \<Rightarrow> (Inr x, w'))"

lemma io_apply [simp]:
  "io_return x w = (Inr x, w)"
  "io_raise e w = (Inl e, w)"
  "io_lift r w = (r, w)"
  "io_gets f w = (Inr (f w), w)"
  "io_modify g w = (Inr (), g w)"
  "io_ensure c msg w = (ensure c msg, w)"
  by (simp_all add: io_return_def io_raise_def io_lift_def io_gets_def io_modify_def io_ensure_def)

lemma io_bind_Inr: "m w = (Inr x, w') \<Longrightarrow> io_bind m f w = f x w'"
  by (simp add: io_bind_def)

lemma io_bind_Inl: "m w = (Inl e, w') \<Longrightarrow> io_bind m f w = (Inl e, w')"
  by (simp add: io_bind_def)

lemma io_bind_apply: "io_bind m f w = (case fst (m w) of Inl e \<Rightarrow> (Inl e, snd (m w)) | Inr x \<Rightarrow> f x (snd (m w)))"
  by (auto simp: io_bind_def split: prod.splits sum.splits)

lemma io_bind_cong [fundef_cong]:
  "m = m' \<Longrightarrow> w = w' \<Longrightarrow> (\<And>x v. m' w' = (Inr x, v) \<Longrightarrow> f x v = f' x v) \<Longrightarrow> io_bind m f w = io_bind m' f' w'"
  by (auto simp: io_bind_def split: prod.splits sum.splits)

lemma io_if_cong [fundef_cong]:
  "c = c' \<Longrightarrow> w = w' \<Longrightarrow> (c' \<Longrightarrow> a w' = a' w') \<Longrightarrow> (\<not> c' \<Longrightarrow> b w' = b' w') \<Longrightarrow>
   io_if c a b w = io_if c' a' b' w'"
  by (simp add: io_if_def)

lemma io_if_simps [simp]: "io_if True a b = a" "io_if False a b = b"
  by (rule ext, simp add: io_if_def)+

lemma io_bind_eq_Inr:
  "(io_bind m f w = (Inr y, w'')) = (\<exists>x w'. m w = (Inr x, w') \<and> f x w' = (Inr y, w''))"
  by (auto simp: io_bind_def split: prod.splits sum.splits)

lemma io_bind_eq_Inl:
  "(io_bind m f w = (Inl e, w'')) =
     (m w = (Inl e, w'') \<or> (\<exists>x w'. m w = (Inr x, w') \<and> f x w' = (Inl e, w'')))"
  by (auto simp: io_bind_def split: prod.splits sum.splits)

lemmas io_runs = io_bind_eq_Inr io_bind_eq_Inl

section \<open>Hoare triples\<close>

definition triple ::
  "('w \<Rightarrow> bool) \<Rightarrow> ('w, 'a) io \<Rightarrow> ('a \<Rightarrow> 'w \<Rightarrow> bool) \<Rightarrow> (report \<Rightarrow> 'w \<Rightarrow> bool) \<Rightarrow> bool" where
  "triple P m Q E =
     (\<forall>w. P w \<longrightarrow> (case m w of (Inl e, w') \<Rightarrow> E e w' | (Inr x, w') \<Rightarrow> Q x w'))"

lemma triple_intro:
  assumes "\<And>w x w'. P w \<Longrightarrow> m w = (Inr x, w') \<Longrightarrow> Q x w'"
    and "\<And>w e w'. P w \<Longrightarrow> m w = (Inl e, w') \<Longrightarrow> E e w'"
  shows "triple P m Q E"
  using assms by (auto simp: triple_def split: prod.splits sum.splits)

lemma triple_Inr: "triple P m Q E \<Longrightarrow> P w \<Longrightarrow> m w = (Inr x, w') \<Longrightarrow> Q x w'"
  by (fastforce simp: triple_def)

lemma triple_Inl: "triple P m Q E \<Longrightarrow> P w \<Longrightarrow> m w = (Inl e, w') \<Longrightarrow> E e w'"
  by (fastforce simp: triple_def)

lemma triple_conseq:
  assumes "triple P' m Q' E'"
    and "\<And>w. P w \<Longrightarrow> P' w" and "\<And>x w. Q' x w \<Longrightarrow> Q x w" and "\<And>e w. E' e w \<Longrightarrow> E e w"
  shows "triple P m Q E"
proof (rule triple_intro)
  show "Q x w'" if "P w" "m w = (Inr x, w')" for w x w'
    using assms(3) triple_Inr [OF assms(1) assms(2) [OF that(1)] that(2)] by blast
  show "E e w'" if "P w" "m w = (Inl e, w')" for w e w'
    using assms(4) triple_Inl [OF assms(1) assms(2) [OF that(1)] that(2)] by blast
qed

lemma triple_bind [hoare_rules]:
  assumes "triple P m R E" and "\<And>x. triple (R x) (f x) Q E"
  shows "triple P (io_bind m f) Q E"
proof (rule triple_intro)
  fix w y w'' assume "P w" and "io_bind m f w = (Inr y, w'')"
  then obtain x w' where "m w = (Inr x, w')" "f x w' = (Inr y, w'')"
    by (auto simp: io_runs)
  with assms \<open>P w\<close> show "Q y w''" by (blast dest: triple_Inr)
next
  fix w e w'' assume "P w" and "io_bind m f w = (Inl e, w'')"
  then consider "m w = (Inl e, w'')" | x w' where "m w = (Inr x, w')" "f x w' = (Inl e, w'')"
    by (auto simp: io_runs)
  then show "E e w''"
    using assms \<open>P w\<close> by cases (blast dest: triple_Inr triple_Inl)+
qed

lemma triple_return: "(\<And>w. P w \<Longrightarrow> Q x w) \<Longrightarrow> triple P (io_return x) Q E"
  by (simp add: triple_def)

lemma triple_raise: "(\<And>w. P w \<Longrightarrow> E e w) \<Longrightarrow> triple P (io_raise e) Q E"
  by (simp add: triple_def)

lemma triple_lift:
  "(\<And>w x. P w \<Longrightarrow> r = Inr x \<Longrightarrow> Q x w) \<Longrightarrow> (\<And>w e. P w \<Longrightarrow> r = Inl e \<Longrightarrow> E e w) \<Longrightarrow>
   triple P (io_lift r) Q E"
  by (auto simp: triple_def split: sum.splits)

text \<open>An invariant of the world that a computation keeps, whether it fails or not.\<close>

definition keeps :: "('w \<Rightarrow> bool) \<Rightarrow> ('w, 'a) io \<Rightarrow> bool" where
  "keeps I m = (\<forall>w. I w \<longrightarrow> I (snd (m w)))"

lemma keepsD: "keeps I m \<Longrightarrow> I w \<Longrightarrow> m w = (r, w') \<Longrightarrow> I w'"
  by (auto simp: keeps_def dest: spec [of _ w])

lemma keepsI: "(\<And>w r w'. I w \<Longrightarrow> m w = (r, w') \<Longrightarrow> I w') \<Longrightarrow> keeps I m"
  by (auto simp: keeps_def intro: prod.collapse [symmetric])

lemma keeps_bind [hoare_rules, intro]:
  assumes "keeps I m" and "\<And>x. keeps I (f x)"
  shows "keeps I (io_bind m f)"
proof (rule keepsI)
  fix w r w' assume I: "I w" and run: "io_bind m f w = (r, w')"
  obtain r0 w0 where m: "m w = (r0, w0)" by (cases "m w")
  with assms(1) I have "I w0" by (blast dest: keepsD)
  then show "I w'"
    using run m assms(2) by (cases r0) (auto simp: io_bind_def dest: keepsD)
qed

lemma keeps_basic [hoare_rules, simp]:
  "keeps I (io_return x)" "keeps I (io_raise e)" "keeps I (io_lift r)" "keeps I (io_gets f)"
  "keeps I (io_ensure c msg)" "keeps I (Pair q)"
  by (simp_all add: keeps_def)

lemma keeps_modify [hoare_rules]: "(\<And>w. I w \<Longrightarrow> I (g w)) \<Longrightarrow> keeps I (io_modify g)"
  by (simp add: keeps_def)

lemma keeps_if [hoare_rules, intro]:
  "(c \<Longrightarrow> keeps I a) \<Longrightarrow> (\<not> c \<Longrightarrow> keeps I b) \<Longrightarrow> keeps I (if c then a else b)"
  by simp

lemma keeps_io_if [hoare_rules, intro]:
  "(c \<Longrightarrow> keeps I a) \<Longrightarrow> (\<not> c \<Longrightarrow> keeps I b) \<Longrightarrow> keeps I (io_if c a b)"
  by (cases c) simp_all

lemma keeps_option [hoare_rules, intro]:
  "keeps I a \<Longrightarrow> (\<And>x. keeps I (b x)) \<Longrightarrow> keeps I (case r of None \<Rightarrow> a | Some x \<Rightarrow> b x)"
  by (cases r) auto

lemma keeps_sum [hoare_rules, intro]:
  "(\<And>e. keeps I (a e)) \<Longrightarrow> (\<And>x. keeps I (b x)) \<Longrightarrow> keeps I (case r of Inl e \<Rightarrow> a e | Inr x \<Rightarrow> b x)"
  by (cases r) auto

lemma keeps_prod [hoare_rules]:
  "(\<And>a b. keeps I (f a b)) \<Longrightarrow> keeps I (case p of (a, b) \<Rightarrow> f a b)"
  by (cases p) simp

lemma keeps_for [hoare_rules]:
  "(\<And>x. x \<in> set xs \<Longrightarrow> keeps I (f x)) \<Longrightarrow> keeps I (io_for xs f)"
  by (induction xs) auto

lemma keeps_try [hoare_rules]: "keeps I m \<Longrightarrow> keeps I (io_try m)"
  by (rule keepsI) (auto simp: io_try_def split: prod.splits dest: keepsD)

lemma keeps_wrap [hoare_rules]: "keeps I m \<Longrightarrow> keeps I (io_wrap msg m)"
  by (rule keepsI) (auto simp: io_wrap_def split: prod.splits sum.splits dest: keepsD)

lemma keeps_map [hoare_rules]:
  "(\<And>x. x \<in> set xs \<Longrightarrow> keeps I (f x)) \<Longrightarrow> keeps I (io_map f xs)"
  by (induction xs) (auto intro!: keeps_bind)

text \<open>What is true of every value a computation can return, from whatever world.\<close>

definition outputs :: "('w, 'a) io \<Rightarrow> ('a \<Rightarrow> bool) \<Rightarrow> bool" where
  "outputs m P = (\<forall>w x w'. m w = (Inr x, w') \<longrightarrow> P x)"

lemma outputsD: "outputs m P \<Longrightarrow> m w = (Inr x, w') \<Longrightarrow> P x"
  by (auto simp: outputs_def)

lemma outputs_bind:
  "outputs m P \<Longrightarrow> (\<And>x. P x \<Longrightarrow> outputs (f x) Q) \<Longrightarrow> outputs (io_bind m f) Q"
  unfolding outputs_def io_bind_eq_Inr by blast

lemma outputs_basic:
  "outputs (io_return x) P = P x" "outputs (io_raise e) P" "outputs (Pair (Inr x)) P = P x"
  "outputs (Pair (Inl e)) P"
  by (auto simp: outputs_def)

lemma outputs_ensure: "outputs (io_ensure c msg) (\<lambda>_. c)"
  by (simp add: outputs_def result_simps)

lemma outputs_any: "outputs m (\<lambda>_. True)"
  by (simp add: outputs_def)

lemma outputs_lift: "outputs (io_lift r) (\<lambda>x. r = Inr x)"
  by (simp add: outputs_def)

lemma outputs_try: "outputs m P \<Longrightarrow> outputs (io_try m) (\<lambda>r. \<forall>x. r = Inr x \<longrightarrow> P x)"
  by (auto simp: outputs_def io_try_def split: prod.splits)

end
