(* ===== verification/Deploy_Journal.thy ===== *)
theory Deploy_Journal
  imports Deploy_State Axe_Io
begin

text \<open>
  The deployment journal (\<open>hardened/session.rs\<close>, \<open>hardened/journal.rs\<close>, the journal updates of
  \<open>hardened/recovery.rs\<close>, \<open>hardened/confirmations.rs\<close> and \<open>hardened/verifier_set.rs\<close>).  Each
  operation acts on the in-memory journal, as a computation that returns the journal it leaves
  in memory also when it fails; the write of the new journal to disk that follows a
  successful one is \<open>atomic_write\<close> of \<open>Deploy_Storage\<close>.
\<close>

definition new_journal :: "b256 \<Rightarrow> journal" where
  "new_journal fingerprint =
     \<lparr> jn_version = 2, jn_fingerprint = fingerprint, jn_cosmos_deployment = None,
       jn_inputs_hash = None, jn_evm_confirmations = policy_default, jn_actions = bt_empty,
       jn_evidence = bt_empty, jn_confirmations = bt_empty, jn_attempts = bt_empty,
       jn_retry_gas_limits = bt_empty, jn_protocols = bt_empty, jn_protocol_history = [],
       jn_initial_signers = None, jn_rotations = bt_empty \<rparr>"

definition session_load :: "journal option \<Rightarrow> b256 \<Rightarrow> journal result" where
  "session_load saved fingerprint =
     (case saved of
        Some j \<Rightarrow>
          and_then (ensure (jn_version j = 2) ''unsupported deployment journal version'') (\<lambda>_.
          and_then (ensure (jn_fingerprint j = fingerprint) ''deployment inputs changed'') (\<lambda>_.
          Inr j))
      | None \<Rightarrow> Inr (new_journal fingerprint))"

definition validate_context :: "bool \<Rightarrow> bool \<Rightarrow> unit result" where
  "validate_context required present =
     ensure (\<not> required \<or> present)
       ''hardened session missing; refusing an unjournaled transaction''"

definition action_key :: "string \<Rightarrow> string \<Rightarrow> string" where
  "action_key step label = step @ ''/'' @ label"

definition session_get :: "journal \<Rightarrow> string \<Rightarrow> transaction option" where
  "session_get j key = bt_get (jn_actions j) key"

definition session_record :: "string \<Rightarrow> transaction \<Rightarrow> (journal, unit) io" where
  "session_record key t =
     io_bind (io_gets (\<lambda>j. bt_contains (jn_actions j) key)) (\<lambda>present.
     io_bind (io_ensure (\<not> present) ''transaction already recorded'') (\<lambda>_.
     io_modify (\<lambda>j. j\<lparr> jn_actions := bt_insert key t (jn_actions j) \<rparr>)))"

definition journal_confirmation :: "journal \<Rightarrow> string \<Rightarrow> confirmation option" where
  "journal_confirmation j h = bt_get (jn_confirmations j) h"

definition journal_confirm :: "string \<Rightarrow> confirmation \<Rightarrow> (journal, unit) io" where
  "journal_confirm h c =
     io_modify (\<lambda>j. j\<lparr> jn_confirmations := bt_insert h c (jn_confirmations j) \<rparr>)"

definition past_attempts :: "journal \<Rightarrow> string \<Rightarrow> transaction list" where
  "past_attempts j key = (case bt_get (jn_attempts j) key of Some ts \<Rightarrow> ts | None \<Rightarrow> [])"

definition push_attempt :: "string \<Rightarrow> transaction \<Rightarrow> journal \<Rightarrow> journal" where
  "push_attempt key previous j =
     j\<lparr> jn_attempts := bt_insert key (past_attempts j key @ [previous]) (jn_attempts j) \<rparr>"

text \<open>The map takes the replacement before the missing action is noticed.\<close>

definition journal_replace :: "string \<Rightarrow> transaction \<Rightarrow> (journal, unit) io" where
  "journal_replace key replacement =
     io_bind (io_gets (\<lambda>j. bt_get (jn_actions j) key)) (\<lambda>found.
     io_bind (io_modify (\<lambda>j. j\<lparr> jn_actions := bt_insert key replacement (jn_actions j) \<rparr>)) (\<lambda>_.
     io_bind (io_lift (ok_or found ''missing action'')) (\<lambda>previous.
     io_modify (push_attempt key previous))))"

definition journal_attempts :: "journal \<Rightarrow> string \<Rightarrow> transaction \<Rightarrow> transaction list" where
  "journal_attempts j key latest = past_attempts j key @ [latest]"

definition retire :: "string \<Rightarrow> u64 option \<Rightarrow> (journal, unit) io" where
  "retire key gas_limit =
     io_bind (io_gets (\<lambda>j. bt_get (jn_actions j) key)) (\<lambda>found.
     io_bind (io_modify (\<lambda>j. j\<lparr> jn_actions := bt_remove key (jn_actions j) \<rparr>)) (\<lambda>_.
     io_bind (io_lift (ok_or found ''missing failed action'')) (\<lambda>previous.
     io_bind (io_modify (push_attempt key previous)) (\<lambda>_.
     case gas_limit of
       Some limit \<Rightarrow>
         io_modify (\<lambda>j. j\<lparr> jn_retry_gas_limits := bt_insert key limit (jn_retry_gas_limits j) \<rparr>)
     | None \<Rightarrow> io_return ()))))"

definition persist_policy :: "evm_confirmation_policy \<Rightarrow> (journal, unit) io" where
  "persist_policy policy = io_modify (\<lambda>j. j\<lparr> jn_evm_confirmations := policy \<rparr>)"

definition save_decision :: "initial_signers \<Rightarrow> bool \<Rightarrow> (journal, unit) io" where
  "save_decision initial approved =
     (if \<not> approved then io_raise (Paused ''Initial verifier set declined'')
      else
        io_bind (io_gets (\<lambda>j. bt_contains (jn_actions j) ''AxelarGateway/gateway proxy'')) (\<lambda>deployed.
        io_bind (io_ensure (\<not> deployed)
          ''gateway proxy already journaled; its initial signer set cannot be replaced'') (\<lambda>_.
        io_modify (\<lambda>j. j\<lparr> jn_initial_signers := Some initial \<rparr>))))"

definition resolve_policy :: "options \<Rightarrow> journal option \<Rightarrow> evm_confirmation_policy" where
  "resolve_policy opts saved =
     (case op_evm_confirmations opts of
        Some policy \<Rightarrow> policy
      | None \<Rightarrow> (case saved of Some j \<Rightarrow> jn_evm_confirmations j | None \<Rightarrow> policy_default))"

definition required_height :: "evm_confirmation_policy \<Rightarrow> u64 \<Rightarrow> u64 result" where
  "required_height policy inclusion =
     (let extra = (case policy of Confirmations n \<Rightarrow> n - 1 | Finalized \<Rightarrow> 0) in
      ok_or (checked_add inclusion extra) ''confirmation height overflow'')"

definition validate_journal_presence :: "state \<Rightarrow> journal option \<Rightarrow> unit result" where
  "validate_journal_presence st saved =
     ensure (saved \<noteq> None \<or>
       (st_hardened_fingerprint st = None \<and>
        list_all (\<lambda>s. step_status_of s = Pending) (st_steps st)))
       ''deployment journal is missing; restore it from backup before continuing''"

datatype journal_op =
    Record string transaction
  | Replace string transaction
  | Retire string "u64 option"
  | Confirm string confirmation
  | Persist evm_confirmation_policy
  | Decide initial_signers bool

fun journal_step :: "journal_op \<Rightarrow> (journal, unit) io" where
  "journal_step (Record key t) = session_record key t"
| "journal_step (Replace key t) = journal_replace key t"
| "journal_step (Retire key limit) = retire key limit"
| "journal_step (Confirm h c) = journal_confirm h c"
| "journal_step (Persist policy) = persist_policy policy"
| "journal_step (Decide initial approved) = save_decision initial approved"

text \<open>A sequence of operations, each of which may succeed or fail.\<close>

definition play :: "('o \<Rightarrow> ('s, unit) io) \<Rightarrow> 'o list \<Rightarrow> 's \<Rightarrow> 's" where
  "play step fs s = fold (\<lambda>f. snd \<circ> step f) fs s"

text \<open>Everything the journal has ever signed: the live actions and the attempts they replaced.\<close>

definition known :: "journal \<Rightarrow> (string \<times> transaction) set" where
  "known j = {(key, t). bt_get (jn_actions j) key = Some t \<or> t \<in> set (past_attempts j key)}"

definition journal_wf :: "journal \<Rightarrow> bool" where
  "journal_wf j =
     (bt_wf (jn_actions j) \<and> bt_wf (jn_attempts j) \<and> bt_wf (jn_confirmations j) \<and>
      bt_wf (jn_retry_gas_limits j))"

subsection \<open>An append-only store\<close>

text \<open>
  The contract a deployment relies on: the operations that can change the store never drop what
  it holds.  Every sequence of them then keeps it, whether or not some of them fail.
\<close>

locale append_only =
  fixes contents :: "'s \<Rightarrow> 'a set"
    and inv :: "'s \<Rightarrow> bool"
    and step :: "'o \<Rightarrow> ('s, unit) io"
  assumes step_inv: "inv s \<Longrightarrow> inv (snd (step f s))"
    and step_keeps: "inv s \<Longrightarrow> contents s \<subseteq> contents (snd (step f s))"
begin

lemma play_inv: "inv s \<Longrightarrow> inv (play step fs s)"
  by (induction fs arbitrary: s) (simp_all add: play_def step_inv)

lemma play_keeps: "inv s \<Longrightarrow> contents s \<subseteq> contents (play step fs s)"
proof (induction fs arbitrary: s)
  case (Cons f fs)
  then have "contents s \<subseteq> contents (snd (step f s))" and "inv (snd (step f s))"
    by (simp_all add: step_keeps step_inv)
  with Cons.IH show ?case by (fastforce simp: play_def)
qed (simp add: play_def)

end

lemmas journal_defs =
  session_record_def journal_replace_def retire_def journal_confirm_def persist_policy_def
  save_decision_def push_attempt_def io_bind_def

lemma past_attempts_push:
  "past_attempts (push_attempt key t j) k =
     (if k = key then past_attempts j k @ [t] else past_attempts j k)"
  by (simp add: push_attempt_def past_attempts_def bt_get_insert)

lemma past_attempts_cong: "jn_attempts j = jn_attempts j' \<Longrightarrow> past_attempts j k = past_attempts j' k"
  by (simp add: past_attempts_def)

lemma journal_step_wf: "journal_wf j \<Longrightarrow> journal_wf (snd (journal_step f j))"
  by (cases f)
    (auto simp: journal_wf_def journal_defs ensure_def ok_or_def bt_wf_insert bt_wf_remove
      split: option.splits)

lemma journal_step_known:
  assumes "journal_wf j"
  shows "known j \<subseteq> known (snd (journal_step f j))"
proof -
  have "bt_wf (jn_actions j)" using assms by (simp add: journal_wf_def)
  then show ?thesis
    by (cases f)
      (auto simp: known_def journal_defs past_attempts_def ensure_def ok_or_def bt_get_insert
        bt_get_remove bt_contains_def split: option.splits if_splits)
qed

interpretation jl: append_only known journal_wf journal_step
  by unfold_locales (rule journal_step_wf journal_step_known, assumption)+

text \<open>
  C9: No signed transaction is ever forgotten.  Whatever sequence of journal operations runs
  (recording, fee replacement, retirement of a failed attempt, confirmations, decisions), and
  whichever of them fail, every transaction the journal knew for an action is still known for
  that action, either as its live transaction or among its past attempts.
\<close>

theorem journal_never_forgets:
  assumes "journal_wf j" and "(key, t) \<in> known j"
  shows "(key, t) \<in> known (play journal_step fs j)"
  using jl.play_keeps [OF assms(1)] assms(2) by blast

definition sample_tx :: "u64 \<Rightarrow> transaction" where
  "sample_tx n = EvmTx 1 [2, 3] 4 5 n ''100''"

theorem journal_never_forgets_witness:
  "(''Operators/deploy'', sample_tx 7) \<in> known (play journal_step
     [Record ''Operators/deploy'' (sample_tx 8), Retire ''Operators/deploy'' (Some 21000),
      Record ''Operators/deploy'' (sample_tx 8)]
     ((new_journal 9)\<lparr> jn_actions := [(''Operators/deploy'', sample_tx 7)] \<rparr>))"
  by (rule journal_never_forgets)
    (simp_all add: journal_wf_def new_journal_def known_def bt_wf_def bt_get_def bt_empty_def)

subsection \<open>What single operations do\<close>

lemma required_height_spec:
  assumes "required_height policy inclusion = Inr h" and "policy_wf policy"
  shows "case policy of
      Confirmations n \<Rightarrow> unat h + 1 = unat inclusion + unat n
    | Finalized \<Rightarrow> h = inclusion"
proof (cases policy)
  case (Confirmations n)
  then have "unat h = unat inclusion + unat (n - 1)" and "n \<noteq> 0"
    using assms by (auto simp: required_height_def policy_wf_def result_simps checked_simps)
  moreover from this have "unat (n - 1) + 1 = unat n" by (simp add: unat_minus_one unat_gt_0)
  ultimately show ?thesis using Confirmations by simp
qed (use assms in \<open>auto simp: required_height_def result_simps checked_simps word_unat_eq_iff\<close>)

lemma session_record_run:
  "session_record key t j =
     (if bt_contains (jn_actions j) key then (Inl (Report ''transaction already recorded''), j)
      else (Inr (), j\<lparr> jn_actions := bt_insert key t (jn_actions j) \<rparr>))"
  by (simp add: journal_defs ensure_def)

lemma session_record_known:
  "session_record key t j = (Inr (), j') \<Longrightarrow> known j' = insert (key, t) (known j)"
  by (auto simp: session_record_run known_def past_attempts_def bt_get_insert bt_contains_def
      split: if_splits)

lemma journal_replace_run:
  "bt_get (jn_actions j) key = Some previous \<Longrightarrow>
     journal_replace key t j =
       (Inr (), push_attempt key previous (j\<lparr> jn_actions := bt_insert key t (jn_actions j) \<rparr>))"
  by (simp add: journal_defs)

lemma journal_replace_known:
  assumes "journal_replace key t j = (Inr (), j')"
  shows "known j' = insert (key, t) (known j)"
proof -
  obtain previous where p: "bt_get (jn_actions j) key = Some previous"
    using assms by (auto simp: journal_defs ok_or_def split: option.splits)
  then have "j' = push_attempt key previous (j\<lparr> jn_actions := bt_insert key t (jn_actions j) \<rparr>)"
    using assms by (simp add: journal_replace_run)
  moreover have "past_attempts (j\<lparr> jn_actions := a \<rparr>) = past_attempts j" for a
    by (rule ext) (simp add: past_attempts_def)
  moreover have "jn_actions (push_attempt key previous x) = jn_actions x" for x
    by (simp add: push_attempt_def)
  ultimately show ?thesis
    using p by (auto simp: known_def past_attempts_push bt_get_insert split: if_splits)
qed

lemma retire_known:
  assumes "journal_wf j" and "retire key limit j = (Inr (), j')"
  shows "known j' = known j"
proof -
  have "bt_wf (jn_actions j)" using assms(1) by (simp add: journal_wf_def)
  then show ?thesis
    using assms(2)
    by (auto simp: known_def journal_defs past_attempts_def ok_or_def bt_get_insert bt_get_remove
        split: option.splits if_splits)
qed

lemma confirm_known [simp]: "known (snd (journal_confirm h c j)) = known j"
  by (simp add: known_def journal_defs past_attempts_def)

text \<open>All transactions of the journal, in the order the accounting visits them.\<close>

definition journal_transactions :: "journal \<Rightarrow> transaction list" where
  "journal_transactions j = bt_values (jn_actions j) @ concat (bt_values (jn_attempts j))"

lemma journal_transactions_known:
  assumes "journal_wf j"
  shows "set (journal_transactions j) = snd ` known j"
proof -
  have wf: "bt_wf (jn_actions j)" "bt_wf (jn_attempts j)" using assms by (simp_all add: journal_wf_def)
  have "(\<exists>ts \<in> set (bt_values (jn_attempts j)). t \<in> set ts) \<longleftrightarrow> (\<exists>key. t \<in> set (past_attempts j key))"
    for t
  proof
    assume "\<exists>ts \<in> set (bt_values (jn_attempts j)). t \<in> set ts"
    then obtain ts key where "bt_get (jn_attempts j) key = Some ts" "t \<in> set ts"
      by (auto simp: bt_values_mem [OF wf(2)])
    then show "\<exists>key. t \<in> set (past_attempts j key)" by (auto simp: past_attempts_def intro: exI [of _ key])
  next
    assume "\<exists>key. t \<in> set (past_attempts j key)"
    then obtain ts key where "bt_get (jn_attempts j) key = Some ts" "t \<in> set ts"
      by (auto simp: past_attempts_def split: option.splits) (metis)
    then show "\<exists>ts \<in> set (bt_values (jn_attempts j)). t \<in> set ts"
      using bt_values_mem [OF wf(2)] by blast
  qed
  then have "t \<in> set (journal_transactions j) \<longleftrightarrow> (\<exists>key. (key, t) \<in> known j)" for t
    by (auto simp: journal_transactions_def known_def bt_values_mem [OF wf(1)])
  then show ?thesis by force
qed

end
