(* ===== verification/Deploy_Funding.thy ===== *)
theory Deploy_Funding
  imports Deploy_Journal
begin

text \<open>
  Spending limits of a deployment (\<open>hardened/evm_funding.rs\<close>, \<open>hardened/cosmos_funding.rs\<close> and
  \<open>check_budget\<close> of \<open>hardened/evm.rs\<close>).  Transactions at one nonce (or one account sequence)
  compete, so an account's liability is the sum over its nonces of the dearest transaction
  at each.  \<open>parse_u256\<close> stands for the big-integer library's parser, of which the code
  needs that it reads back a printed number.
\<close>

definition raise_max :: "'k::linorder \<Rightarrow> 'w::len word \<Rightarrow> ('k, 'w word) btree \<Rightarrow> ('k, 'w word) btree"
where
  "raise_max k v m =
     bt_insert k (max (case bt_get m k of Some x \<Rightarrow> x | None \<Rightarrow> 0) v) m"

fun try_sum :: "string \<Rightarrow> 'w::len word \<Rightarrow> 'w word list \<Rightarrow> 'w word result" where
  "try_sum msg acc [] = Inr acc"
| "try_sum msg acc (v # vs) = and_then (ok_or (checked_add acc v) msg) (\<lambda>acc'. try_sum msg acc' vs)"

fun evm_charges ::
  "(string \<Rightarrow> u256 option) \<Rightarrow> address \<Rightarrow> transaction list \<Rightarrow> (u64, u256) btree \<Rightarrow> (u64, u256) btree result"
where
  "evm_charges parse_u256 sender [] m = Inr m"
| "evm_charges parse_u256 sender (EvmTx _ _ _ from nonce gas_cost # ts) m =
     (if from = sender
      then and_then (ok_or (parse_u256 gas_cost) ''invalid digit'') (\<lambda>cost.
           evm_charges parse_u256 sender ts (raise_max nonce cost m))
      else evm_charges parse_u256 sender ts m)"
| "evm_charges parse_u256 sender (CosmosTxn _ _ _ _ _ _ # ts) m = evm_charges parse_u256 sender ts m"

definition evm_liability ::
  "(string \<Rightarrow> u256 option) \<Rightarrow> journal \<Rightarrow> address \<Rightarrow> (u64 \<times> u256) option \<Rightarrow> u256 result" where
  "evm_liability parse_u256 j sender candidate =
     and_then (evm_charges parse_u256 sender (journal_transactions j) bt_empty) (\<lambda>nonces.
     try_sum ''gas budget overflow'' 0
       (bt_values (case candidate of Some (nonce, cost) \<Rightarrow> raise_max nonce cost nonces
                   | None \<Rightarrow> nonces)))"

definition check_budget ::
  "(string \<Rightarrow> u256 option) \<Rightarrow> plan \<Rightarrow> journal \<Rightarrow> address \<Rightarrow> u256 \<Rightarrow> string option \<Rightarrow> unit result" where
  "check_budget parse_u256 p j sender cost replacing =
     (let candidate_nonce =
            (case replacing of
               None \<Rightarrow> None
             | Some key \<Rightarrow>
                 (case bt_get (jn_actions j) key of
                    Some (EvmTx _ _ _ _ nonce _) \<Rightarrow> Some nonce
                  | _ \<Rightarrow> None)) in
      and_then (evm_liability parse_u256 j sender (map_option (\<lambda>n. (n, cost)) candidate_nonce)) (\<lambda>spent.
      and_then (if candidate_nonce \<noteq> None then Inr spent
                else ok_or (checked_add spent cost) ''gas budget overflow'') (\<lambda>total.
      and_then (ok_or (parse_u256 (pl_evm_gas_budget p)) ''invalid digit'') (\<lambda>budget.
      ensure (total \<le> budget) ''transaction exceeds approved EVM gas budget''))))"

text \<open>
  The funds a Cosmos message commits: the deposit of a governance proposal or the funds of a
  contract call.  Protobuf decoding belongs to the Cosmos library; \<open>decode_deposit\<close> and
  \<open>decode_funds\<close> give the coins (denomination and amount text) of a well-formed message.
\<close>

record any =
  any_type_url :: string
  any_value :: bytes

type_synonym coin = "string \<times> string"

definition message_coins ::
  "(bytes \<Rightarrow> coin list option) \<Rightarrow> (bytes \<Rightarrow> coin list option) \<Rightarrow> any \<Rightarrow> coin list result" where
  "message_coins decode_deposit decode_funds m =
     (if any_type_url m = ''/cosmos.gov.v1.MsgSubmitProposal''
      then ok_or (decode_deposit (any_value m)) ''failed to decode Protobuf message''
      else if any_type_url m = ''/cosmwasm.wasm.v1.MsgExecuteContract''
      then ok_or (decode_funds (any_value m)) ''failed to decode Protobuf message''
      else Inl (Report ''unsupported deployment message''))"

fun add_coins :: "string \<Rightarrow> u128 \<Rightarrow> coin list \<Rightarrow> u128 result" where
  "add_coins denom amount [] = Inr amount"
| "add_coins denom amount ((d, a) # cs) =
     and_then (ensure (d = denom) ''unsupported deployment payment denomination'') (\<lambda>_.
     and_then (ok_or (parse_word a) ''invalid digit found in string'') (\<lambda>n.
     and_then (ok_or (checked_add amount n) ''submission funding overflow'') (\<lambda>amount'.
     add_coins denom amount' cs)))"

fun required_from ::
  "(bytes \<Rightarrow> coin list option) \<Rightarrow> (bytes \<Rightarrow> coin list option) \<Rightarrow> string \<Rightarrow> u128 \<Rightarrow> any list \<Rightarrow> u128 result"
where
  "required_from decode_deposit decode_funds denom amount [] = Inr amount"
| "required_from decode_deposit decode_funds denom amount (m # ms) =
     and_then (message_coins decode_deposit decode_funds m) (\<lambda>coins.
     and_then (add_coins denom amount coins) (\<lambda>amount'.
     required_from decode_deposit decode_funds denom amount' ms))"

definition required ::
  "(bytes \<Rightarrow> coin list option) \<Rightarrow> (bytes \<Rightarrow> coin list option) \<Rightarrow> any list \<Rightarrow> string \<Rightarrow> u128 result" where
  "required decode_deposit decode_funds messages denom =
     required_from decode_deposit decode_funds denom 0 messages"

fun fee_charges ::
  "string \<Rightarrow> transaction list \<Rightarrow> (u64, u128) btree \<Rightarrow> (u64, u128) btree result" where
  "fee_charges sender [] m = Inr m"
| "fee_charges sender (CosmosTxn _ _ _ from fee sequence # ts) m =
     (if from = sender
      then and_then (ok_or (parse_word fee) ''invalid digit found in string'') (\<lambda>amount.
           fee_charges sender ts (raise_max sequence amount m))
      else fee_charges sender ts m)"
| "fee_charges sender (EvmTx _ _ _ _ _ _ # ts) m = fee_charges sender ts m"

definition fee_liability :: "journal \<Rightarrow> string \<Rightarrow> (u64 \<times> u128) option \<Rightarrow> u128 result" where
  "fee_liability j sender candidate =
     and_then (fee_charges sender (journal_transactions j) bt_empty) (\<lambda>sequences.
     try_sum ''fee budget overflow'' 0
       (bt_values (case candidate of Some (sequence, fee) \<Rightarrow> raise_max sequence fee sequences
                   | None \<Rightarrow> sequences)))"

definition check_fee_budget :: "plan \<Rightarrow> journal \<Rightarrow> string \<Rightarrow> u64 \<Rightarrow> u128 \<Rightarrow> unit result" where
  "check_fee_budget p j sender sequence fee =
     and_then (fee_liability j sender (Some (sequence, fee))) (\<lambda>total.
     and_then (ok_or (parse_word (pl_cosmos_fee_budget p)) ''invalid digit found in string'') (\<lambda>budget.
     ensure (total \<le> budget) ''Cosmos fee budget exceeded''))"

subsection \<open>The reference: dearest competitor per nonce\<close>

definition peak :: "('k \<times> 'w::len word) set \<Rightarrow> 'k \<Rightarrow> nat" where
  "peak C k = Max (insert 0 {unat c |c. (k, c) \<in> C})"

definition liability_of :: "('k \<times> 'w::len word) set \<Rightarrow> nat" where
  "liability_of C = (\<Sum>k \<in> fst ` C. peak C k)"

lemma peak_insert:
  assumes "finite C"
  shows "peak (insert (k, c) C) n = (if n = k then max (peak C n) (unat c) else peak C n)"
proof -
  have fin: "finite {unat c |c. (n, c) \<in> C}"
    by (rule finite_subset [OF _ finite_imageI [OF assms, of "unat \<circ> snd"]]) force
  show ?thesis
  proof (cases "n = k")
    case True
    then have "{unat c' |c'. (n, c') \<in> insert (k, c) C} = insert (unat c) {unat c |c. (n, c) \<in> C}"
      by auto
    with True fin show ?thesis by (simp add: peak_def insert_commute [of 0] max.commute)
  qed (simp add: peak_def)
qed

lemma peak_outside: "k \<notin> fst ` C \<Longrightarrow> peak C k = 0"
proof -
  assume "k \<notin> fst ` C"
  then have "{unat c |c. (k, c) \<in> C} = {}" by force
  then show ?thesis by (simp only: peak_def) simp
qed

lemma total_split:
  assumes "finite C"
  shows "liability_of C = (\<Sum>n \<in> fst ` C - {k}. peak C n) + peak C k"
proof (cases "k \<in> fst ` C")
  case True
  with assms show ?thesis by (simp add: liability_of_def sum.remove add.commute)
qed (simp add: liability_of_def peak_outside)

lemma total_insert:
  assumes "finite C"
  shows "liability_of (insert (k, c) C) + peak C k = liability_of C + max (peak C k) (unat c)"
proof -
  have "liability_of (insert (k, c) C) =
      (\<Sum>n \<in> fst ` C - {k}. peak (insert (k, c) C) n) + peak (insert (k, c) C) k"
    using total_split [of "insert (k, c) C" k] assms by simp
  also have "(\<Sum>n \<in> fst ` C - {k}. peak (insert (k, c) C) n) = (\<Sum>n \<in> fst ` C - {k}. peak C n)"
    by (rule sum.cong) (simp_all add: peak_insert [OF assms])
  finally show ?thesis using total_split [OF assms, of k] by (simp add: peak_insert [OF assms])
qed

lemma total_insert_le: "finite C \<Longrightarrow> liability_of (insert (k, c) C) \<le> liability_of C + unat c"
  using total_insert [of C k c] by linarith

lemma total_empty [simp]: "liability_of {} = 0"
  by (simp add: liability_of_def)

subsection \<open>The accounting computes the reference\<close>

lemma try_sum_Inr:
  fixes a :: "'w::len word"
  shows "try_sum msg a vs = Inr t \<longleftrightarrow> unat t = unat a + sum_list (map unat vs)"
proof (induction vs arbitrary: a)
  case Nil
  then show ?case by (auto simp: word_unat_eq_iff)
next
  case (Cons v vs)
  show ?case
  proof
    assume "try_sum msg a (v # vs) = Inr t"
    then show "unat t = unat a + sum_list (map unat (v # vs))"
      by (auto simp: result_simps checked_simps Cons.IH)
  next
    assume t: "unat t = unat a + sum_list (map unat (v # vs))"
    then have "unat a + unat v < 2 ^ LENGTH('w)"
      using unsigned_less [of t, where 'a = nat] by simp
    then have "checked_add a v = Some (a + v)" "unat (a + v) = unat a + unat v"
      by (simp_all add: checked_add_def unat_word_ariths(1))
    with t show "try_sum msg a (v # vs) = Inr t" by (simp add: Cons.IH)
  qed
qed

definition covers :: "('k::linorder, 'w::len word) btree \<Rightarrow> ('k \<times> 'w word) set \<Rightarrow> bool" where
  "covers m C = (bt_wf m \<and> finite C \<and>
     (\<forall>k. case bt_get m k of None \<Rightarrow> k \<notin> fst ` C | Some v \<Rightarrow> k \<in> fst ` C \<and> unat v = peak C k))"

lemma covers_empty [simp]: "covers bt_empty {}"
  by (simp add: covers_def)

lemma unat_max: "unat (max a b) = max (unat a) (unat b)"
  by (simp add: max_def word_le_nat_alt)

lemma covers_raise_max:
  assumes "covers m C"
  shows "covers (raise_max k c m) (insert (k, c) C)"
proof -
  have wf: "bt_wf m" and fin: "finite C"
    and get: "case bt_get m n of None \<Rightarrow> n \<notin> fst ` C | Some v \<Rightarrow> n \<in> fst ` C \<and> unat v = peak C n"
    for n using assms by (auto simp: covers_def)
  let ?old = "case bt_get m k of Some x \<Rightarrow> x | None \<Rightarrow> 0"
  have old: "unat ?old = peak C k"
    using get [of k] by (cases "bt_get m k") (simp_all add: peak_outside)
  have "case bt_get (raise_max k c m) n of None \<Rightarrow> n \<notin> fst ` insert (k, c) C
      | Some v \<Rightarrow> n \<in> fst ` insert (k, c) C \<and> unat v = peak (insert (k, c) C) n" for n
  proof (cases "n = k")
    case True
    then have "bt_get (raise_max k c m) n = Some (max ?old c)"
      by (simp add: raise_max_def bt_get_insert)
    then show ?thesis using True old by (simp add: peak_insert [OF fin] unat_max)
  next
    case False
    then show ?thesis
      using get [of n] by (simp add: raise_max_def bt_get_insert peak_insert [OF fin] split: option.splits)
  qed
  with wf fin show ?thesis by (simp add: covers_def raise_max_def bt_wf_insert)
qed

lemma covers_total:
  assumes "covers m C"
  shows "sum_list (map unat (bt_values m)) = liability_of C"
proof -
  have wf: "bt_wf m" and get: "\<And>n. case bt_get m n of None \<Rightarrow> n \<notin> fst ` C | Some v \<Rightarrow> n \<in> fst ` C \<and> unat v = peak C n"
    using assms by (auto simp: covers_def)
  have dist: "distinct (map fst m)" by (rule bt_wf_distinct [OF wf])
  have mem: "(k, v) \<in> set m \<longleftrightarrow> bt_get m k = Some v" for k v
    using dist by (simp add: bt_get_def)
  have "sum_list (map unat (bt_values m)) = sum_list (map (\<lambda>(k, v). unat v) m)"
    by (simp add: bt_values_def comp_def case_prod_unfold)
  also have "\<dots> = (\<Sum>(k, v) \<in> set m. unat v)"
    using dist by (simp add: sum_list_distinct_conv_sum_set distinct_map)
  also have "\<dots> = (\<Sum>(k, v) \<in> set m. peak C k)"
    by (rule sum.cong) (use get mem in \<open>fastforce split: option.splits\<close>)+
  also have "\<dots> = (\<Sum>k \<in> fst ` set m. peak C k)"
    using dist by (simp add: sum.reindex distinct_map case_prod_beta comp_def)
  also have "fst ` set m = fst ` C"
  proof (rule set_eqI)
    fix k
    have "k \<in> fst ` set m \<longleftrightarrow> bt_get m k \<noteq> None"
      by (simp add: bt_get_def map_of_eq_None_iff)
    also have "\<dots> \<longleftrightarrow> k \<in> fst ` C" using get [of k] by (cases "bt_get m k") auto
    finally show "k \<in> fst ` set m \<longleftrightarrow> k \<in> fst ` C" .
  qed
  finally show ?thesis by (simp add: liability_of_def)
qed

text \<open>The nonce and cost of every transaction of a sender.\<close>

definition evm_costs :: "(string \<Rightarrow> u256 option) \<Rightarrow> address \<Rightarrow> transaction set \<Rightarrow> (u64 \<times> u256) set" where
  "evm_costs parse_u256 sender T =
     {(n, c). \<exists>i r h g. EvmTx i r h sender n g \<in> T \<and> parse_u256 g = Some c}"

definition evm_readable :: "(string \<Rightarrow> u256 option) \<Rightarrow> address \<Rightarrow> transaction set \<Rightarrow> bool" where
  "evm_readable parse_u256 sender T =
     (\<forall>i r h n g. EvmTx i r h sender n g \<in> T \<longrightarrow> parse_u256 g \<noteq> None)"

definition fee_costs :: "string \<Rightarrow> transaction set \<Rightarrow> (u64 \<times> u128) set" where
  "fee_costs sender T =
     {(n, c). \<exists>i r h g. CosmosTxn i r h sender g n \<in> T \<and> parse_word g = Some c}"

definition fee_readable :: "string \<Rightarrow> transaction set \<Rightarrow> bool" where
  "fee_readable sender T =
     (\<forall>i r h n g. CosmosTxn i r h sender g n \<in> T \<longrightarrow> (parse_word g :: u128 option) \<noteq> None)"

lemma evm_costs_insert:
  "evm_costs parse_u256 sender (insert (EvmTx i r h from n g) T) =
     (case parse_u256 g of
        Some c \<Rightarrow> if from = sender then insert (n, c) (evm_costs parse_u256 sender T)
                  else evm_costs parse_u256 sender T
      | None \<Rightarrow> evm_costs parse_u256 sender T)"
  "evm_costs parse_u256 sender (insert (CosmosTxn i r h' s f q) T) = evm_costs parse_u256 sender T"
  by (auto simp: evm_costs_def split: option.splits)

lemma fee_costs_insert:
  "fee_costs sender (insert (CosmosTxn i r h from g n) T) =
     (case parse_word g of
        Some c \<Rightarrow> if from = sender then insert (n, c) (fee_costs sender T) else fee_costs sender T
      | None \<Rightarrow> fee_costs sender T)"
  "fee_costs sender (insert (EvmTx i r h' s q c) T) = fee_costs sender T"
  by (auto simp: fee_costs_def split: option.splits)

lemma evm_costs_empty [simp]: "evm_costs parse_u256 sender {} = {}"
  by (simp add: evm_costs_def)

lemma fee_costs_empty [simp]: "fee_costs sender {} = {}"
  by (simp add: fee_costs_def)

lemma evm_charges_covers:
  "evm_charges parse_u256 sender ts m = Inr m' \<Longrightarrow> covers m C \<Longrightarrow>
     evm_readable parse_u256 sender (set ts) \<and> covers m' (evm_costs parse_u256 sender (set ts) \<union> C)"
proof (induction ts arbitrary: m C)
  case (Cons t ts)
  show ?case
  proof (cases "\<exists>i r h n g. t = EvmTx i r h sender n g")
    case True
    then obtain i r h n g where t: "t = EvmTx i r h sender n g" by blast
    with Cons.prems obtain c where c: "parse_u256 g = Some c"
      and run: "evm_charges parse_u256 sender ts (raise_max n c m) = Inr m'"
      by (auto simp: result_simps)
    from Cons.IH [OF run covers_raise_max [OF Cons.prems(2)]] c t show ?thesis
      by (auto simp: evm_costs_insert evm_readable_def)
  next
    case False
    then have "evm_charges parse_u256 sender ts m = Inr m'"
      using Cons.prems(1) by (cases t) auto
    from Cons.IH [OF this Cons.prems(2)] False show ?thesis
      by (cases t) (auto simp: evm_costs_insert evm_readable_def split: option.splits)
  qed
qed (simp add: evm_readable_def)

lemma fee_charges_covers:
  "fee_charges sender ts m = Inr m' \<Longrightarrow> covers m C \<Longrightarrow>
     fee_readable sender (set ts) \<and> covers m' (fee_costs sender (set ts) \<union> C)"
proof (induction ts arbitrary: m C)
  case (Cons t ts)
  show ?case
  proof (cases "\<exists>i r h n g. t = CosmosTxn i r h sender g n")
    case True
    then obtain i r h n g where t: "t = CosmosTxn i r h sender g n" by blast
    with Cons.prems obtain c where c: "parse_word g = Some c"
      and run: "fee_charges sender ts (raise_max n c m) = Inr m'"
      by (auto simp: result_simps)
    from Cons.IH [OF run covers_raise_max [OF Cons.prems(2)]] c t show ?thesis
      by (auto simp: fee_costs_insert fee_readable_def)
  next
    case False
    then have "fee_charges sender ts m = Inr m'"
      using Cons.prems(1) by (cases t) auto
    from Cons.IH [OF this Cons.prems(2)] False show ?thesis
      by (cases t) (auto simp: fee_costs_insert fee_readable_def split: option.splits)
  qed
qed (simp add: fee_readable_def)

lemma evm_charges_total:
  "evm_readable parse_u256 sender (set ts) \<Longrightarrow> is_ok (evm_charges parse_u256 sender ts m)"
proof (induction ts arbitrary: m)
  case (Cons t ts)
  have "evm_readable parse_u256 sender (set ts)"
    using Cons.prems by (auto simp: evm_readable_def)
  with Cons show ?case by (cases t) (auto simp: evm_readable_def result_simps)
qed simp

lemma evm_liability_spec:
  assumes "journal_wf j"
  shows "evm_liability parse_u256 j sender candidate = Inr t \<longleftrightarrow>
    evm_readable parse_u256 sender (snd ` known j) \<and>
    unat t = liability_of (set_option candidate \<union> evm_costs parse_u256 sender (snd ` known j))"
proof -
  let ?ts = "journal_transactions j"
  have ts: "set ?ts = snd ` known j" by (rule journal_transactions_known [OF assms])
  have cov: "covers (case candidate of Some (n, c) \<Rightarrow> raise_max n c m | None \<Rightarrow> m)
      (set_option candidate \<union> evm_costs parse_u256 sender (snd ` known j))"
    and read: "evm_readable parse_u256 sender (snd ` known j)"
    if "evm_charges parse_u256 sender ?ts bt_empty = Inr m" for m
    using evm_charges_covers [OF that covers_empty] covers_raise_max
    by (cases candidate; fastforce simp: ts)+
  show ?thesis
  proof
    assume "evm_liability parse_u256 j sender candidate = Inr t"
    then show "evm_readable parse_u256 sender (snd ` known j) \<and>
        unat t = liability_of (set_option candidate \<union> evm_costs parse_u256 sender (snd ` known j))"
      using read cov by (auto simp: evm_liability_def result_simps try_sum_Inr covers_total)
  next
    assume r: "evm_readable parse_u256 sender (snd ` known j) \<and>
      unat t = liability_of (set_option candidate \<union> evm_costs parse_u256 sender (snd ` known j))"
    then obtain m where "evm_charges parse_u256 sender ?ts bt_empty = Inr m"
      using evm_charges_total [of parse_u256 sender ?ts bt_empty] by (auto simp: ts is_ok_iff)
    with r show "evm_liability parse_u256 j sender candidate = Inr t"
      using cov by (simp add: evm_liability_def try_sum_Inr covers_total)
  qed
qed

lemma fee_liability_spec:
  assumes "journal_wf j" and "fee_liability j sender candidate = Inr t"
  shows "unat t = liability_of (set_option candidate \<union> fee_costs sender (snd ` known j))"
proof -
  obtain m where m: "fee_charges sender (journal_transactions j) bt_empty = Inr m"
    and t: "try_sum ''fee budget overflow'' 0 (bt_values
      (case candidate of Some (n, c) \<Rightarrow> raise_max n c m | None \<Rightarrow> m)) = Inr t"
    using assms(2) by (auto simp: fee_liability_def result_simps)
  have "covers m (fee_costs sender (snd ` known j))"
    using fee_charges_covers [OF m covers_empty] journal_transactions_known [OF assms(1)] by simp
  then have "covers (case candidate of Some (n, c) \<Rightarrow> raise_max n c m | None \<Rightarrow> m)
      (set_option candidate \<union> fee_costs sender (snd ` known j))"
    by (cases candidate) (auto dest: covers_raise_max)
  with t show ?thesis by (simp add: try_sum_Inr covers_total)
qed

lemma evm_costs_finite:
  assumes "journal_wf j"
  shows "finite (evm_costs parse_u256 sender (snd ` known j))"
proof -
  have "evm_costs parse_u256 sender T \<subseteq>
      (\<lambda>t. (tx_nonce t, the (parse_u256 (tx_gas_cost t)))) ` T" for T
    by (force simp: evm_costs_def)
  moreover have "finite (snd ` known j)"
    using journal_transactions_known [OF assms] by (metis List.finite_set)
  ultimately show ?thesis by (meson finite_imageI finite_subset)
qed

subsection \<open>Approved budgets bound what the journal can spend\<close>

text \<open>
  The journal changes that a deployment makes around its transactions: a new transaction or a fee
  replacement is recorded only after its budget check passed, a failed attempt is retired, a
  confirmation is stored.
\<close>

inductive spend :: "(string \<Rightarrow> u256 option) \<Rightarrow> plan \<Rightarrow> journal \<Rightarrow> journal \<Rightarrow> bool"
  for parse_u256 p where
  spend_evm_send:
    "check_budget parse_u256 p j sender cost None = Inr () \<Longrightarrow>
     session_record key (EvmTx i r h sender n (show_word cost)) j = (Inr (), j') \<Longrightarrow>
     spend parse_u256 p j j'"
| spend_evm_bump:
    "bt_get (jn_actions j) key = Some (EvmTx i0 r0 h0 sender n g0) \<Longrightarrow>
     check_budget parse_u256 p j sender cost (Some key) = Inr () \<Longrightarrow>
     journal_replace key (EvmTx i r h sender n (show_word cost)) j = (Inr (), j') \<Longrightarrow>
     spend parse_u256 p j j'"
| spend_cosmos_send:
    "check_fee_budget p j csender sequence fee = Inr () \<Longrightarrow>
     session_record key (CosmosTxn i r ch csender (show_word fee) sequence) j = (Inr (), j') \<Longrightarrow>
     spend parse_u256 p j j'"
| spend_cosmos_bump:
    "check_fee_budget p j csender sequence fee = Inr () \<Longrightarrow>
     journal_replace key (CosmosTxn i r ch csender (show_word fee) sequence) j = (Inr (), j') \<Longrightarrow>
     spend parse_u256 p j j'"
| spend_retire: "retire key limit j = (Inr (), j') \<Longrightarrow> spend parse_u256 p j j'"
| spend_confirm: "journal_confirm ch conf j = (Inr (), j') \<Longrightarrow> spend parse_u256 p j j'"

definition within_budgets :: "(string \<Rightarrow> u256 option) \<Rightarrow> plan \<Rightarrow> journal \<Rightarrow> bool" where
  "within_budgets parse_u256 p j =
     ((\<forall>sender B. parse_u256 (pl_evm_gas_budget p) = Some B
         \<longrightarrow> liability_of (evm_costs parse_u256 sender (snd ` known j)) \<le> unat B) \<and>
      (\<forall>sender B. parse_word (pl_cosmos_fee_budget p) = Some (B :: u128)
         \<longrightarrow> liability_of (fee_costs sender (snd ` known j)) \<le> unat B))"

lemma spend_wf: "spend parse_u256 p j j' \<Longrightarrow> journal_wf j \<Longrightarrow> journal_wf j'"
proof (induction rule: spend.induct)
  case (spend_evm_send j sender cost key i r h n j')
  then show ?case using journal_step_wf [of j "Record key (EvmTx i r h sender n (show_word cost))"] by simp
next
  case (spend_evm_bump j key i0 r0 h0 sender n g0 cost i r h j')
  then show ?case using journal_step_wf [of j "Replace key (EvmTx i r h sender n (show_word cost))"] by simp
next
  case (spend_cosmos_send j csender sequence fee key i r ch j')
  then show ?case
    using journal_step_wf [of j "Record key (CosmosTxn i r ch csender (show_word fee) sequence)"] by simp
next
  case (spend_cosmos_bump j csender sequence fee key i r ch j')
  then show ?case
    using journal_step_wf [of j "Replace key (CosmosTxn i r ch csender (show_word fee) sequence)"] by simp
next
  case (spend_retire key limit j j')
  then show ?case using journal_step_wf [of j "Retire key limit"] by simp
next
  case (spend_confirm ch conf j j')
  then show ?case using journal_step_wf [of j "Confirm ch conf"] by simp
qed

lemma check_budget_new:
  assumes "journal_wf j" and "check_budget parse_u256 p j sender cost None = Inr ()"
    and "parse_u256 (pl_evm_gas_budget p) = Some B"
  shows "liability_of (insert (n, cost) (evm_costs parse_u256 sender (snd ` known j))) \<le> unat B"
proof -
  obtain spent t where "evm_liability parse_u256 j sender None = Inr spent"
    "checked_add spent cost = Some t" "t \<le> B"
    using assms(2,3) by (auto simp: check_budget_def result_simps)
  then have "liability_of (evm_costs parse_u256 sender (snd ` known j)) + unat cost \<le> unat B"
    by (auto simp: evm_liability_spec [OF assms(1)] checked_simps word_le_nat_alt)
  then show ?thesis
    using total_insert_le [OF evm_costs_finite [OF assms(1)]] by (meson order_trans)
qed

lemma check_budget_replacing:
  assumes "journal_wf j" and "check_budget parse_u256 p j sender cost (Some key) = Inr ()"
    and "bt_get (jn_actions j) key = Some (EvmTx i0 r0 h0 from0 n g0)"
    and "parse_u256 (pl_evm_gas_budget p) = Some B"
  shows "liability_of (insert (n, cost) (evm_costs parse_u256 sender (snd ` known j))) \<le> unat B"
  using assms
  by (auto simp: check_budget_def result_simps evm_liability_spec word_le_nat_alt)

lemma check_fee_budget_bound:
  assumes "journal_wf j" and "check_fee_budget p j sender sequence fee = Inr ()"
    and "parse_word (pl_cosmos_fee_budget p) = Some (B :: u128)"
  shows "liability_of (insert (sequence, fee) (fee_costs sender (snd ` known j))) \<le> unat B"
proof -
  obtain t where "fee_liability j sender (Some (sequence, fee)) = Inr t" "t \<le> B"
    using assms(2,3) by (auto simp: check_fee_budget_def result_simps)
  then show ?thesis using fee_liability_spec [OF assms(1)] by (fastforce simp: word_le_nat_alt)
qed

lemma spend_within_budgets:
  assumes prints: "\<And>c. parse_u256 (show_word c) = Some c"
    and "spend parse_u256 p j j'" and "journal_wf j" and "within_budgets parse_u256 p j"
  shows "within_budgets parse_u256 p j'"
  using assms(2-)
proof (induction rule: spend.induct)
  case (spend_evm_send j sender cost key i r h n j')
  have known: "snd ` known j' = insert (EvmTx i r h sender n (show_word cost)) (snd ` known j)"
    using session_record_known [OF spend_evm_send(2)] by simp
  show ?case
    using spend_evm_send check_budget_new [OF spend_evm_send(3) spend_evm_send(1)]
    by (auto simp: within_budgets_def known evm_costs_insert fee_costs_insert prints)
next
  case (spend_evm_bump j key i0 r0 h0 sender n g0 cost i r h j')
  have known: "snd ` known j' = insert (EvmTx i r h sender n (show_word cost)) (snd ` known j)"
    using journal_replace_known [OF spend_evm_bump(3)] by simp
  show ?case
    using spend_evm_bump check_budget_replacing [OF spend_evm_bump(4,2,1)]
    by (auto simp: within_budgets_def known evm_costs_insert fee_costs_insert prints)
next
  case (spend_cosmos_send j csender sequence fee key i r ch j')
  have known: "snd ` known j' = insert (CosmosTxn i r ch csender (show_word fee) sequence) (snd ` known j)"
    using session_record_known [OF spend_cosmos_send(2)] by simp
  show ?case
    using spend_cosmos_send check_fee_budget_bound [OF spend_cosmos_send(3) spend_cosmos_send(1)]
    by (auto simp: within_budgets_def known evm_costs_insert fee_costs_insert)
next
  case (spend_cosmos_bump j csender sequence fee key i r ch j')
  have known: "snd ` known j' = insert (CosmosTxn i r ch csender (show_word fee) sequence) (snd ` known j)"
    using journal_replace_known [OF spend_cosmos_bump(2)] by simp
  show ?case
    using spend_cosmos_bump check_fee_budget_bound [OF spend_cosmos_bump(3) spend_cosmos_bump(1)]
    by (auto simp: within_budgets_def known evm_costs_insert fee_costs_insert)
next
  case (spend_retire key limit j j')
  then show ?case using retire_known [OF spend_retire(2,1)] by (simp add: within_budgets_def)
next
  case (spend_confirm ch conf j j')
  then show ?case using confirm_known [of ch conf j] by (simp add: within_budgets_def)
qed



text \<open>
  C12: The EVM liability is exactly the reference sum.  On a well-formed journal the computation
  succeeds with \<open>t\<close> precisely when every gas cost of the signer parses and \<open>t\<close> is, without
  overflow, the sum over the signer's nonces (the candidate's included) of the dearest
  transaction at that nonce.
\<close>

theorem evm_liability_counts_dearest:
  assumes "journal_wf j"
  shows "evm_liability parse_u256 j sender candidate = Inr t \<longleftrightarrow>
    evm_readable parse_u256 sender (snd ` known j) \<and>
    unat t = liability_of (set_option candidate \<union> evm_costs parse_u256 sender (snd ` known j))"
  by (rule evm_liability_spec [OF assms])

definition sample_competing :: journal where
  "sample_competing =
     (new_journal 9)\<lparr> jn_actions := [(''a'', EvmTx 1 [2] 3 4 7 ''250''), (''b'', EvmTx 1 [2] 5 4 8 ''40'')],
       jn_attempts := [(''a'', [EvmTx 1 [2] 6 4 7 ''100''])] \<rparr>"

theorem evm_liability_counts_dearest_witness:
  "liability_of (evm_costs parse_word 4 (snd ` known sample_competing)) = 290"
proof -
  have wf: "journal_wf sample_competing"
    by (simp add: sample_competing_def journal_wf_def new_journal_def bt_wf_def bt_empty_def)
  have "evm_liability parse_word sample_competing 4 None = Inr 290"
    by (simp add: evm_liability_def journal_transactions_def sample_competing_def new_journal_def
        bt_values_def bt_empty_def bt_get_def raise_max_def checked_add_def parse_eval max_def)
  then show ?thesis
    using evm_liability_counts_dearest [OF wf, of parse_word 4 None 290] by simp
qed

end
