(* ===== verification/Rpc_Retry.thy ===== *)
theory Rpc_Retry
  imports Axe_Io Axe_Text
begin

text \<open>
  The shared retry helpers (\<open>src/retry.rs\<close>): geometric backoff, retry of one operation, retry
  across an ordered list of endpoints, and the default classification of transient errors.
  The operation and the sleep are arguments; a sleep takes the nominal backoff in milliseconds
  and leaves the random spread of plus or minus a fifth to the world it runs in.  Error text
  is ASCII.
\<close>

definition DEFAULT_ATTEMPTS :: nat where "DEFAULT_ATTEMPTS = 6"
definition FALLBACK_ATTEMPTS :: nat where "FALLBACK_ATTEMPTS = 6"
definition BASE_BACKOFF_MS :: u64 where "BASE_BACKOFF_MS = 4000"
definition MAX_BACKOFF_MS :: u64 where "MAX_BACKOFF_MS = 64000"

definition backoff_for_attempt :: "nat \<Rightarrow> u64" where
  "backoff_for_attempt attempt = min (push_bit (min attempt 31) BASE_BACKOFF_MS) MAX_BACKOFF_MS"

fun report_text :: "report \<Rightarrow> string" where
  "report_text (Report s) = s"
| "report_text (Paused s) = s"

text \<open>\<open>tries_left\<close> counts the attempts after this one: \<open>attempts - attempt - 1\<close>.\<close>

fun retry_from ::
  "nat \<Rightarrow> (u64 \<Rightarrow> 'w \<Rightarrow> 'w) \<Rightarrow> (report \<Rightarrow> bool) \<Rightarrow> ('w, 'a) io \<Rightarrow> nat \<Rightarrow> ('w, 'a) io" where
  "retry_from tries_left sleep is_transient op attempt w =
     (case op w of
        (Inr t, w') \<Rightarrow> (Inr t, w')
      | (Inl e, w') \<Rightarrow>
          (case tries_left of
             Suc n \<Rightarrow>
               if is_transient e
               then retry_from n sleep is_transient op (attempt + 1)
                      (sleep (backoff_for_attempt attempt) w')
               else (Inl e, w')
           | 0 \<Rightarrow> (Inl e, w')))"

definition retry_async ::
  "nat \<Rightarrow> (u64 \<Rightarrow> 'w \<Rightarrow> 'w) \<Rightarrow> (report \<Rightarrow> bool) \<Rightarrow> ('w, 'a) io \<Rightarrow> ('w, 'a) io" where
  "retry_async attempts sleep is_transient op = retry_from (attempts - 1) sleep is_transient op 0"

definition retry_all :: "(u64 \<Rightarrow> 'w \<Rightarrow> 'w) \<Rightarrow> ('w, 'a) io \<Rightarrow> ('w, 'a) io" where
  "retry_all sleep op = retry_async DEFAULT_ATTEMPTS sleep (\<lambda>_. True) op"

text \<open>
  The fallback helper leaves an endpoint only on success, on a permanent error, or after its
  last attempt; then it moves on with the error kept for the end.
\<close>

fun fallback_from ::
  "(u64 \<Rightarrow> 'w \<Rightarrow> 'w) \<Rightarrow> (report \<Rightarrow> bool) \<Rightarrow> ('c \<Rightarrow> ('w, 'a) io) \<Rightarrow> 'c list \<Rightarrow> report option
   \<Rightarrow> ('w, 'a) io" where
  "fallback_from sleep is_transient op [] final_err w =
     (case final_err of
        Some e \<Rightarrow> (Inl e, w)
      | None \<Rightarrow> (Inl (Report ''retry_with_fallback called with no endpoints''), w))"
| "fallback_from sleep is_transient op (c # cs) final_err w =
     (case retry_from (FALLBACK_ATTEMPTS - 1) sleep is_transient (op c) 0 w of
        (Inr t, w') \<Rightarrow> (Inr t, w')
      | (Inl e, w') \<Rightarrow>
          if \<not> is_transient e then (Inl e, w')
          else fallback_from sleep is_transient op cs (Some e) w')"

definition retry_with_fallback ::
  "(u64 \<Rightarrow> 'w \<Rightarrow> 'w) \<Rightarrow> (report \<Rightarrow> bool) \<Rightarrow> ('c \<Rightarrow> ('w, 'a) io) \<Rightarrow> 'c list \<Rightarrow> ('w, 'a) io" where
  "retry_with_fallback sleep is_transient op endpoints =
     fallback_from sleep is_transient op endpoints None"

definition retry_with_fallback_all ::
  "(u64 \<Rightarrow> 'w \<Rightarrow> 'w) \<Rightarrow> ('c \<Rightarrow> ('w, 'a) io) \<Rightarrow> 'c list \<Rightarrow> ('w, 'a) io" where
  "retry_with_fallback_all sleep op endpoints =
     retry_with_fallback sleep (\<lambda>_. True) op endpoints"

definition is_transient_default :: "report \<Rightarrow> bool" where
  "is_transient_default e =
     list_ex (\<lambda>p. contains p (map to_lower (report_text e)))
       [''timeout'', ''timed out'', ''connection'', ''network'', ''502'', ''503'', ''504'',
        ''429'', ''too many requests'', ''bad gateway'', ''service unavailable'',
        ''gateway timeout'', ''server error'', ''state not available for pending block'']"


subsection \<open>What a retried call can do\<close>

text \<open>
  \<open>tried sleep is_transient op a w n r w'\<close>: starting with attempt index \<open>a\<close> in world \<open>w\<close>, the
  operation ran exactly \<open>n\<close> times, every run but the last failed with a transient error and was
  followed by the backoff of its attempt, and the last run gave \<open>r\<close> and the world \<open>w'\<close>.
\<close>

inductive tried ::
  "(u64 \<Rightarrow> 'w \<Rightarrow> 'w) \<Rightarrow> (report \<Rightarrow> bool) \<Rightarrow> ('w, 'a) io \<Rightarrow> nat \<Rightarrow> 'w \<Rightarrow> nat \<Rightarrow> 'a result \<Rightarrow> 'w \<Rightarrow> bool"
  for sleep is_transient op where
  tried_last: "op w = (r, w') \<Longrightarrow> tried sleep is_transient op a w (Suc 0) r w'"
| tried_more:
    "op w = (Inl e, w1) \<Longrightarrow> is_transient e \<Longrightarrow>
     tried sleep is_transient op (a + 1) (sleep (backoff_for_attempt a) w1) n r w' \<Longrightarrow>
     tried sleep is_transient op a w (Suc n) r w'"

definition gave_up :: "(report \<Rightarrow> bool) \<Rightarrow> nat \<Rightarrow> nat \<Rightarrow> 'a result \<Rightarrow> bool" where
  "gave_up is_transient attempts n r =
     (case r of Inr _ \<Rightarrow> True | Inl e \<Rightarrow> is_transient e \<longrightarrow> n = attempts)"

lemma retry_from_tried:
  "retry_from k sleep is_transient op a w = (r, w') \<Longrightarrow>
     \<exists>n. tried sleep is_transient op a w n r w' \<and> 1 \<le> n \<and> n \<le> Suc k \<and> gave_up is_transient (Suc k) n r"
proof (induction k arbitrary: a w)
  case 0
  then have "op w = (r, w')" by (auto split: prod.splits sum.splits)
  then have "tried sleep is_transient op a w (Suc 0) r w'" by (rule tried_last)
  then show ?case by (intro exI [of _ "Suc 0"]) (simp add: gave_up_def split: sum.splits)
next
  case (Suc k)
  show ?case
  proof (cases "\<exists>e w1. op w = (Inl e, w1) \<and> is_transient e")
    case True
    then obtain e w1 where op: "op w = (Inl e, w1)" "is_transient e" by blast
    then have "retry_from k sleep is_transient op (a + 1) (sleep (backoff_for_attempt a) w1) = (r, w')"
      using Suc.prems by simp
    from Suc.IH [OF this] obtain n where
      n: "tried sleep is_transient op (a + 1) (sleep (backoff_for_attempt a) w1) n r w'"
        "n \<le> Suc k" "gave_up is_transient (Suc k) n r" by blast
    show ?thesis
      using tried_more [of op, OF op n(1)] n(2,3)
      by (intro exI [of _ "Suc n"]) (auto simp: gave_up_def split: sum.splits)
  next
    case False
    then have "op w = (r, w')"
      using Suc.prems by (auto split: prod.splits sum.splits if_splits)
    with False show ?thesis
      by (intro exI [of _ "Suc 0"]) (auto simp: gave_up_def tried_last split: sum.splits)
  qed
qed

lemma retry_async_tried:
  assumes "retry_async attempts sleep is_transient op w = (r, w')"
  shows "\<exists>n. tried sleep is_transient op 0 w n r w' \<and> 1 \<le> n \<and> n \<le> max 1 attempts \<and>
    gave_up is_transient (max 1 attempts) n r"
proof -
  have "Suc (attempts - 1) = max 1 attempts" by simp
  then show ?thesis using retry_from_tried [of "attempts - 1"] assms by (auto simp: retry_async_def)
qed

text \<open>Every endpoint of the list was tried to exhaustion, each time ending in a transient error.\<close>

inductive exhausted ::
  "(u64 \<Rightarrow> 'w \<Rightarrow> 'w) \<Rightarrow> (report \<Rightarrow> bool) \<Rightarrow> ('c \<Rightarrow> ('w, 'a) io) \<Rightarrow> 'c list \<Rightarrow> 'w \<Rightarrow> 'w \<Rightarrow> bool"
  for sleep is_transient op where
  exhausted_Nil: "exhausted sleep is_transient op [] w w"
| exhausted_Cons:
    "tried sleep is_transient (op c) 0 w FALLBACK_ATTEMPTS (Inl e) w1 \<Longrightarrow> is_transient e \<Longrightarrow>
     exhausted sleep is_transient op cs w1 w' \<Longrightarrow> exhausted sleep is_transient op (c # cs) w w'"

lemma fallback_from_tried:
  "fallback_from sleep is_transient op cs err w = (r, w') \<Longrightarrow> cs \<noteq> [] \<Longrightarrow>
     \<exists>pre c post w0 n. cs = pre @ c # post \<and> exhausted sleep is_transient op pre w w0 \<and>
       tried sleep is_transient (op c) 0 w0 n r w' \<and> n \<le> FALLBACK_ATTEMPTS \<and>
       gave_up is_transient FALLBACK_ATTEMPTS n r \<and>
       (case r of Inr _ \<Rightarrow> True | Inl e \<Rightarrow> is_transient e \<longrightarrow> post = [])"
proof (induction cs arbitrary: err w)
  case (Cons c cs)
  obtain r1 w1 where run: "retry_from (FALLBACK_ATTEMPTS - 1) sleep is_transient (op c) 0 w = (r1, w1)"
    by fastforce
  have suc: "Suc (FALLBACK_ATTEMPTS - 1) = FALLBACK_ATTEMPTS" by (simp add: FALLBACK_ATTEMPTS_def)
  obtain n where n: "tried sleep is_transient (op c) 0 w n r1 w1" "n \<le> FALLBACK_ATTEMPTS"
    "gave_up is_transient FALLBACK_ATTEMPTS n r1"
    using retry_from_tried [OF run] unfolding suc by blast
  show ?case
  proof (cases "\<exists>e. r1 = Inl e \<and> is_transient e \<and> cs \<noteq> []")
    case True
    then obtain e where e: "r1 = Inl e" "is_transient e" "cs \<noteq> []" by blast
    with n have "exhausted sleep is_transient op [c] w w1"
      by (auto simp: gave_up_def intro: exhausted_Cons exhausted_Nil)
    moreover have "fallback_from sleep is_transient op cs (Some e) w1 = (r, w')"
      using Cons.prems run e by simp
    from Cons.IH [OF this e(3)] obtain pre c' post w0 m where
      "cs = pre @ c' # post" "exhausted sleep is_transient op pre w1 w0"
      "tried sleep is_transient (op c') 0 w0 m r w'" "m \<le> FALLBACK_ATTEMPTS"
      "gave_up is_transient FALLBACK_ATTEMPTS m r"
      "case r of Inr _ \<Rightarrow> True | Inl e \<Rightarrow> is_transient e \<longrightarrow> post = []" by blast
    moreover have "exhausted sleep is_transient op (c # pre) w w0"
      using n e \<open>exhausted sleep is_transient op pre w1 w0\<close>
      by (auto simp: gave_up_def intro: exhausted_Cons)
    ultimately show ?thesis by (intro exI [of _ "c # pre"]) auto
  next
    case False
    then have "r1 = r" "w1 = w'"
      using Cons.prems run by (auto split: sum.splits if_splits)
    with False n show ?thesis
      by (intro exI [of _ "[]"] exI [of _ c] exI [of _ cs] exI [of _ w] exI [of _ n])
        (auto intro: exhausted_Nil split: sum.splits)
  qed
qed simp

lemma backoff_schedule:
  "map (unat \<circ> backoff_for_attempt) [0..<6] = [4000, 8000, 16000, 32000, 64000, 64000]"
  by (simp add: upt_rec backoff_for_attempt_def BASE_BACKOFF_MS_def MAX_BACKOFF_MS_def push_bit_eq_mult)


lemma backoff_total: "sum_list (map (unat \<circ> backoff_for_attempt) [0..<FALLBACK_ATTEMPTS - 1]) = 124000"
  using arg_cong [OF backoff_schedule, of "\<lambda>xs. sum_list (take 5 xs)"]
  by (simp add: FALLBACK_ATTEMPTS_def upt_rec)

text \<open>
  C13: A call retried with fallback ends at one endpoint.  Every endpoint before it was tried the
  full six times and failed with a transient error each time; the endpoint itself ran at most
  six times, with the scheduled backoff between runs, and its last result is the result of
  the whole call.  If that result is a transient error, six attempts were made on it and it was
  the last endpoint: no endpoint and no attempt is skipped, and a permanent error is returned
  at once.
\<close>

theorem retry_with_fallback_complete:
  assumes "retry_with_fallback sleep is_transient op endpoints w = (r, w')"
    and "endpoints \<noteq> []"
  shows "\<exists>pre c post w0 n. endpoints = pre @ c # post \<and>
    exhausted sleep is_transient op pre w w0 \<and>
    tried sleep is_transient (op c) 0 w0 n r w' \<and> n \<le> FALLBACK_ATTEMPTS \<and>
    gave_up is_transient FALLBACK_ATTEMPTS n r \<and>
    (case r of Inr _ \<Rightarrow> True | Inl e \<Rightarrow> is_transient e \<longrightarrow> post = [])"
  by (rule fallback_from_tried [OF assms [unfolded retry_with_fallback_def]])

theorem retry_with_fallback_complete_witness:
  "\<exists>pre c post w0 n. [0, 1 :: nat] = pre @ c # post \<and>
     exhausted (\<lambda>_ w. w) is_transient_default
       (\<lambda>c w. if c = 0 then (Inl (Report ''request Timeout''), Suc w) else (Inr c, Suc w)) pre 0 w0 \<and>
     tried (\<lambda>_ w. w) is_transient_default
       ((\<lambda>c w. if c = 0 then (Inl (Report ''request Timeout''), Suc w) else (Inr c, Suc w)) c)
       0 w0 n (Inr 1) 7 \<and> n \<le> FALLBACK_ATTEMPTS"
proof -
  let ?op = "\<lambda>c w. if c = 0 then (Inl (Report ''request Timeout''), Suc w) else (Inr c, Suc w)"
  have "retry_with_fallback (\<lambda>_ w. w) is_transient_default ?op [0, 1 :: nat] 0 = (Inr 1, 7)"
    by code_simp
  from retry_with_fallback_complete [OF this] show ?thesis by auto
qed

subsection \<open>Invariants of the world under retries\<close>

lemma keeps_retry_from:
  assumes "keeps I op" and "\<And>ms w. I w \<Longrightarrow> I (sleep ms w)"
  shows "keeps I (retry_from k sleep is_transient op a)"
proof (induction k arbitrary: a)
  case 0
  show ?case
    by (rule keepsI) (use assms(1) in \<open>auto split: prod.splits sum.splits dest: keepsD\<close>)
next
  case (Suc k)
  show ?case
  proof (rule keepsI)
    fix w r w' assume I: "I w" and run: "retry_from (Suc k) sleep is_transient op a w = (r, w')"
    obtain r1 w1 where op: "op w = (r1, w1)" by fastforce
    with assms(1) I have "I w1" by (blast dest: keepsD)
    then show "I w'"
      using run op assms(2) Suc.IH [of "Suc a"]
      by (auto split: sum.splits if_splits dest: keepsD)
  qed
qed

lemma keeps_fallback_from:
  assumes "\<And>c. keeps I (op c)" and "\<And>ms w. I w \<Longrightarrow> I (sleep ms w)"
  shows "keeps I (fallback_from sleep is_transient op cs err)"
proof (induction cs arbitrary: err)
  case Nil
  show ?case by (auto simp: keeps_def split: option.splits)
next
  case (Cons c cs)
  show ?case
  proof (rule keepsI)
    fix w r w' assume I: "I w" and run: "fallback_from sleep is_transient op (c # cs) err w = (r, w')"
    obtain r1 w1 where
      op: "retry_from (FALLBACK_ATTEMPTS - 1) sleep is_transient (op c) 0 w = (r1, w1)" by fastforce
    have "keeps I (retry_from (FALLBACK_ATTEMPTS - 1) sleep is_transient (op c) 0)"
      by (rule keeps_retry_from) (use assms in auto)
    with op I have "I w1" by (blast dest: keepsD)
    then show "I w'"
      using run op Cons.IH by (auto split: sum.splits if_splits dest: keepsD)
  qed
qed

lemma outputs_retry_from: "outputs m P \<Longrightarrow> outputs (retry_from n sleep tr m a) P"
proof (induction n arbitrary: a)
  case (Suc n)
  show ?case unfolding outputs_def
  proof (intro allI impI)
    fix w x w' assume run: "retry_from (Suc n) sleep tr m a w = (Inr x, w')"
    obtain r w1 where m: "m w = (r, w1)" by force
    show "P x"
    proof (cases r)
      case (Inl e)
      then have "retry_from n sleep tr m (a + 1) (sleep (backoff_for_attempt a) w1) = (Inr x, w')"
        using run m by (simp split: if_splits)
      then show ?thesis using outputsD [OF Suc.IH [OF Suc.prems]] by blast
    next
      case (Inr y)
      then show ?thesis using run m outputsD [OF Suc.prems] by auto
    qed
  qed
qed (auto simp: outputs_def split: prod.splits sum.splits)

lemma outputs_retry_all: "outputs m P \<Longrightarrow> outputs (retry_all sleep m) P"
  by (simp add: retry_all_def retry_async_def outputs_retry_from)

lemma outputs_fallback: "(\<And>c. outputs (op c) P) \<Longrightarrow> outputs (fallback_from sleep is_transient op cs err) P"
proof (induction cs arbitrary: err)
  case Nil
  then show ?case by (auto simp: outputs_def split: option.splits)
next
  case (Cons c cs)
  have first: "outputs (retry_from (FALLBACK_ATTEMPTS - 1) sleep is_transient (op c) 0) P"
    by (rule outputs_retry_from) (rule Cons.prems)
  have rest: "outputs (fallback_from sleep is_transient op cs (Some e)) P" for e by (rule Cons.IH) (rule Cons.prems)
  show ?case
    using outputsD [OF first] outputsD [OF rest]
    by (auto simp: outputs_def simp del: retry_from.simps split: prod.splits sum.splits if_splits)
qed

lemma outputs_retry_with_fallback:
  "(\<And>c. outputs (op c) P) \<Longrightarrow> outputs (retry_with_fallback sleep is_transient op cs) P"
  unfolding retry_with_fallback_def by (rule outputs_fallback)

end
