(* ===== verification/Verifier_Set.thy ===== *)
theory Verifier_Set
  imports Deploy_Plan Deploy_Journal "HOL-Library.Multiset"
begin

text \<open>
  The initial verifier set of a gateway (\<open>hardened/verifier_set.rs\<close>,
  \<open>hardened/verifier_types.rs\<close>, \<open>snapshot\<close> of \<open>hardened/verification.rs\<close> and
  \<open>pubkey_to_address\<close> of \<open>evm.rs\<close>).  Account parsing, hexadecimal decoding, SEC1 decoding,
  Keccak-256 and the ABI encoder are parameters.
\<close>

record verifier_env =
  ve_account_prefix :: "string \<Rightarrow> string option"
  ve_hex_decode :: "string \<Rightarrow> bytes option"
  ve_uncompressed :: "bytes \<Rightarrow> bytes option"
  ve_keccak :: "bytes \<Rightarrow> b256"
  ve_abi_encode :: "(address \<times> u128) list \<Rightarrow> u128 \<Rightarrow> b256 \<Rightarrow> bytes"

datatype amount = Text string | Count u64

definition amount_value :: "amount \<Rightarrow> u128 result" where
  "amount_value a =
     (case a of
        Text s \<Rightarrow> ok_or (parse_word s) ''invalid digit found in string''
      | Count n \<Rightarrow> Inr (ucast n))"

record signer =
  sg_address :: string
  sg_ecdsa :: string
  sg_weight :: amount

record signer_set =
  gs_signers :: "(string, signer) btree"
  gs_threshold :: amount
  gs_created_at :: u64

record prover_set =
  ps_id :: string
  ps_verifier_set :: signer_set

definition validate_limits :: "service \<Rightarrow> unit result" where
  "validate_limits sv =
     and_then (ensure (sv_min_num_verifiers sv > 0) ''service minimum must be positive'') (\<lambda>_.
     ensure (case sv_max_num_verifiers sv of
               None \<Rightarrow> True | Some most \<Rightarrow> most \<ge> sv_min_num_verifiers sv)
       ''invalid service verifier limits'')"

definition validate_count :: "u64 \<Rightarrow> service \<Rightarrow> unit result" where
  "validate_count n sv =
     and_then (validate_limits sv) (\<lambda>_.
     ensure (n \<ge> sv_min_num_verifiers sv \<and>
             (case sv_max_num_verifiers sv of None \<Rightarrow> True | Some most \<Rightarrow> n \<le> most))
       ''verifier count is outside service limits'')"

text \<open>\<open>trim_start_matches\<close> removes the prefix as often as it occurs.\<close>

fun trim_0x :: "string \<Rightarrow> string" where
  "trim_0x (c # d # s) = (if c = CHR ''0'' \<and> d = CHR ''x'' then trim_0x s else c # d # s)"
| "trim_0x s = s"

text \<open>The address is the last 20 of the 32 hash bytes.\<close>

definition pubkey_to_address :: "verifier_env \<Rightarrow> bytes \<Rightarrow> address result" where
  "pubkey_to_address E key =
     and_then (ok_or (ve_uncompressed E key) ''invalid pubkey'') (\<lambda>point.
     Inr (ucast (ve_keccak E (drop 1 point))))"

definition signer_hash :: "verifier_env \<Rightarrow> (address \<times> u128) list \<Rightarrow> u128 \<Rightarrow> b256 \<Rightarrow> b256" where
  "signer_hash E signers threshold nonce = ve_keccak E (ve_abi_encode E signers threshold nonce)"

definition snapshot ::
  "verifier_env \<Rightarrow> string list \<Rightarrow> (address \<times> u128) list \<Rightarrow> u128 \<Rightarrow> b256 \<Rightarrow> string \<Rightarrow> initial_signers" where
  "snapshot E identities signers threshold nonce set_id =
     \<lparr> is_identities = identities, is_signers = signers, is_threshold = threshold,
       is_nonce = nonce, is_set_id = set_id, is_hash = signer_hash E signers threshold nonce \<rparr>"

text \<open>The loop over the signers: a member is its key's address, its identity and its weight.\<close>

fun collect_members ::
  "verifier_env \<Rightarrow> (string \<times> signer) list \<Rightarrow> u128 \<Rightarrow> ((address \<times> string \<times> u128) list \<times> u128) result" where
  "collect_members E [] tot = Inr ([], tot)"
| "collect_members E ((identity, sg) # rest) tot =
     and_then (ok_or (ve_account_prefix E identity) ''invalid account'') (\<lambda>prefix.
     and_then (ensure (prefix = ''axelar'' \<and> sg_address sg = identity)
       ''prover signer identity mismatch'') (\<lambda>_.
     and_then (amount_value (sg_weight sg)) (\<lambda>weight.
     and_then (ensure (weight > 0) ''zero signer weight'') (\<lambda>_.
     and_then (ok_or (checked_add tot weight) ''signer weight overflow'') (\<lambda>tot'.
     and_then (ok_or (ve_hex_decode E (trim_0x (sg_ecdsa sg))) ''invalid hex'') (\<lambda>decoded.
     and_then (pubkey_to_address E decoded) (\<lambda>key.
     and_then (collect_members E rest tot') (\<lambda>(members, tot'').
     Inr ((key, identity, weight) # members, tot'')))))))))"

definition validate_set ::
  "verifier_env \<Rightarrow> prover_set \<Rightarrow> service \<Rightarrow> u64 \<times> u64 \<Rightarrow> initial_signers result" where
  "validate_set E ps sv fraction =
     (let vs = ps_verifier_set ps; signers = gs_signers vs in
      and_then (validate_count (of_nat (length signers)) sv) (\<lambda>_.
      and_then (ensure (ps_id ps \<noteq> []) ''missing prover verifier set ID'') (\<lambda>_.
      and_then (collect_members E signers 0) (\<lambda>(unsorted, tot).
      let members = sort_key fst unsorted in
      and_then (ensure (successively (<) (map fst members)) ''duplicate signer keys'') (\<lambda>_.
      and_then (ensure (fst fraction > 0 \<and> fst fraction \<le> snd fraction)
        ''invalid signing threshold'') (\<lambda>_.
      and_then (ok_or (checked_mul tot (ucast (fst fraction))) ''threshold overflow'') (\<lambda>scaled.
      and_then (amount_value (gs_threshold vs)) (\<lambda>threshold.
      and_then (ensure (threshold > 0 \<and> threshold = div_ceil scaled (ucast (snd fraction)))
        ''prover signing threshold differs from deployment plan'') (\<lambda>_.
      Inr (snapshot E (map (fst \<circ> snd) members) (map (\<lambda>(key, _, weight). (key, weight)) members)
        threshold (ucast (gs_created_at vs)) (ps_id ps)))))))))))"

definition same_set :: "initial_signers \<Rightarrow> initial_signers \<Rightarrow> bool" where
  "same_set a b =
     (is_hash a = is_hash b \<and> is_set_id a = is_set_id b \<and>
      set (is_identities a) = set (is_identities b))"

datatype query_error = Http nat "(int \<times> string) option" | OtherQueryError

text \<open>An HTTP failure carries its status and its body, when that parses as a failure object.\<close>

definition insufficient_verifiers :: "query_error \<Rightarrow> bool" where
  "insufficient_verifiers e =
     (case e of
        Http status body \<Rightarrow>
          status = 500 \<and> body = Some (2, ''not enough verifiers: query wasm contract failed'')
      | OtherQueryError \<Rightarrow> False)"

text \<open>The loop over the eligible verifiers, with the addresses already seen.\<close>

fun check_eligible :: "verifier_env \<Rightarrow> string set \<Rightarrow> string list \<Rightarrow> unit result" where
  "check_eligible E seen [] = Inr ()"
| "check_eligible E seen (a # rest) =
     and_then (ok_or (ve_account_prefix E a) ''invalid account'') (\<lambda>prefix.
     and_then (ensure (prefix = ''axelar'' \<and> a \<notin> seen) ''invalid or duplicate eligible identity'') (\<lambda>_.
     check_eligible E (insert a seen) rest))"

definition show_candidates ::
  "verifier_env \<Rightarrow> service \<Rightarrow> query_error + string list \<Rightarrow> unit result" where
  "show_candidates E sv response =
     (case response of
        Inl e \<Rightarrow>
          if insufficient_verifiers e then Inl (Paused ''Waiting for verifier registrations.'')
          else Inl (Report ''Could not read eligible verifiers.'')
      | Inr active \<Rightarrow>
          and_then (check_eligible E {} active) (\<lambda>_. validate_count (of_nat (length active)) sv))"

lemma unat_widen:
  fixes x :: "'a::len word"
  assumes "LENGTH('a) \<le> LENGTH('b::len)"
  shows "unat (ucast x :: 'b word) = unat x"
proof -
  have "unat x < 2 ^ LENGTH('b)"
    using unsigned_less [of x, where 'a = nat] power_increasing [OF assms, of "2 :: nat"] by linarith
  then show ?thesis by (simp add: unsigned_ucast_eq take_bit_nat_eq_self)
qed

subsection \<open>What an accepted set looks like\<close>

definition weight_sum :: "(address \<times> u128) list \<Rightarrow> nat" where
  "weight_sum signers = sum_list (map (unat \<circ> snd) signers)"

fun member_ok :: "verifier_env \<Rightarrow> string \<times> signer \<Rightarrow> address \<times> string \<times> u128 \<Rightarrow> bool" where
  "member_ok E (identity, sg) (key, name, weight) =
     (name = identity \<and> sg_address sg = identity \<and> ve_account_prefix E identity = Some ''axelar'' \<and>
      amount_value (sg_weight sg) = Inr weight \<and> weight > 0 \<and>
      (\<exists>decoded. ve_hex_decode E (trim_0x (sg_ecdsa sg)) = Some decoded \<and>
         pubkey_to_address E decoded = Inr key))"

lemma collect_members_spec:
  "collect_members E entries tot = Inr (members, tot') \<Longrightarrow>
     list_all2 (member_ok E) entries members \<and>
     unat tot' = unat tot + sum_list (map (\<lambda>m. unat (snd (snd m))) members)"
proof (induction E entries tot arbitrary: members tot' rule: collect_members.induct)
  case (2 E identity sg rest tot)
  then obtain prefix weight tot1 decoded key members' where
    step: "ve_account_prefix E identity = Some prefix" "prefix = ''axelar''" "sg_address sg = identity"
      "amount_value (sg_weight sg) = Inr weight" "weight > 0" "checked_add tot weight = Some tot1"
      "ve_hex_decode E (trim_0x (sg_ecdsa sg)) = Some decoded" "pubkey_to_address E decoded = Inr key"
      "collect_members E rest tot1 = Inr (members', tot')" "members = (key, identity, weight) # members'"
    by (auto simp: result_simps)
  then have "list_all2 (member_ok E) rest members'"
    and "unat tot' = unat tot1 + sum_list (map (\<lambda>m. unat (snd (snd m))) members')"
    using 2(1) by (auto simp: result_simps)
  with step show ?case by (auto simp: checked_simps)
qed simp

text \<open>The signers in ascending address order, each once, and the rounded-up share of their weight.\<close>

definition accepted_set :: "u64 \<times> u64 \<Rightarrow> initial_signers \<Rightarrow> bool" where
  "accepted_set fraction s =
     (sorted_wrt (<) (map fst (is_signers s)) \<and>
      length (is_identities s) = length (is_signers s) \<and>
      list_all (\<lambda>(_, weight). weight > 0) (is_signers s) \<and>
      weight_sum (is_signers s) < 2 ^ 128 \<and>
      0 < unat (is_threshold s) \<and>
      0 < unat (snd fraction) \<and>
      unat (is_threshold s) =
        (weight_sum (is_signers s) * unat (fst fraction) + unat (snd fraction) - 1) div unat (snd fraction))"

lemma ceil_le:
  fixes a b :: nat
  assumes "0 < b"
  shows "a \<le> (a + b - 1) div b * b"
proof -
  define q r where "q = (a + b - 1) div b" and "r = (a + b - 1) mod b"
  have "q * b + r = a + b - 1" by (simp add: q_def r_def)
  moreover have "r < b" using assms by (simp add: r_def)
  ultimately show ?thesis unfolding q_def [symmetric] using assms by linarith
qed

lemma validate_set_accepted:
  assumes "validate_set E ps sv fraction = Inr s"
  shows "accepted_set fraction s"
proof -
  obtain unsorted tot members scaled where
    mem: "collect_members E (gs_signers (ps_verifier_set ps)) 0 = Inr (unsorted, tot)"
      "members = sort_key fst unsorted" "successively (<) (map fst members)"
    and fr: "0 < fst fraction" "fst fraction \<le> snd fraction"
      "checked_mul tot (ucast (fst fraction)) = Some scaled"
    and th: "0 < is_threshold s" "is_threshold s = div_ceil scaled (ucast (snd fraction))"
    and s: "is_signers s = map (\<lambda>(key, _, weight). (key, weight)) members"
      "is_identities s = map (fst \<circ> snd) members"
    using assms unfolding validate_set_def Let_def
    by (auto simp: result_simps snapshot_def)
  have pos: "0 < snd fraction" using fr by order
  define b where "b = unat (snd fraction)"
  have b: "0 < b" "unat (ucast (snd fraction) :: u128) = b" "0 < (ucast (snd fraction) :: u128)"
    using pos by (simp_all add: b_def word_less_nat_alt unat_widen)
  have tot: "unat tot = weight_sum (is_signers s)"
  proof -
    have "sum_list (map (\<lambda>m. unat (snd (snd m))) members)
        = sum_list (map (\<lambda>m. unat (snd (snd m))) unsorted)"
      unfolding mem(2) sum_mset_sum_list [symmetric] mset_map mset_sort ..
    then show ?thesis
      using collect_members_spec [OF mem(1)] by (simp add: s weight_sum_def comp_def case_prod_beta)
  qed
  have scaled: "unat scaled = weight_sum (is_signers s) * unat (fst fraction)"
    using fr(3) tot by (simp add: checked_simps unat_widen)
  have threshold: "unat (is_threshold s) = (unat scaled + b - 1) div b"
    using unat_div_ceil [OF b(3), of scaled] th(2) b(2) by simp
  have "list_all (\<lambda>(_, weight). 0 < weight) (is_signers s)"
  proof -
    have "list_all (\<lambda>(_, _, weight). 0 < weight) unsorted"
      using collect_members_spec [OF mem(1)]
      by (fastforce simp: list_all_iff in_set_conv_nth list_all2_conv_all_nth elim!: member_ok.elims)
    then show ?thesis by (auto simp: s mem(2) list_all_iff)
  qed
  moreover have "sorted_wrt (<) (map fst (is_signers s))"
    using mem(3) by (simp add: s successively_iff_sorted_wrt_strong comp_def case_prod_beta)
  moreover have "weight_sum (is_signers s) < 2 ^ 128"
    using tot unsigned_less [of tot, where 'a = nat] by simp
  moreover have "length (is_identities s) = length (is_signers s)" by (simp add: s)
  moreover have "0 < unat (is_threshold s)" using th(1) by (simp add: word_less_nat_alt)
  ultimately show "accepted_set fraction s"
    unfolding accepted_set_def using threshold [unfolded scaled b_def] b(1) [unfolded b_def] by blast
qed

subsection \<open>Quorums\<close>

text \<open>
  Weighted voting: the weight of a group counts each member once, and the weight needed is more
  than half of everybody's.
\<close>

locale weighted_quorum =
  fixes sound :: "'c \<Rightarrow> bool"
    and weight :: "'c \<Rightarrow> 'a set \<Rightarrow> nat"
    and needed :: "'c \<Rightarrow> nat"
  assumes weight_modular: "weight c (P \<union> Q) + weight c (P \<inter> Q) = weight c P + weight c Q"
    and weight_empty: "weight c {} = 0"
    and majority: "sound c \<Longrightarrow> weight c P < 2 * needed c"
begin

lemma overlap:
  assumes "sound c" and "needed c \<le> weight c P" and "needed c \<le> weight c Q"
  shows "0 < weight c (P \<inter> Q)"
  using weight_modular [of c P Q] majority [OF assms(1), of "P \<union> Q"] assms(2,3) by linarith

lemma intersect:
  assumes "sound c" and "needed c \<le> weight c P" and "needed c \<le> weight c Q"
  shows "P \<inter> Q \<noteq> {}"
  using overlap [OF assms] weight_empty [of c] by auto

end

definition signing_weight :: "initial_signers \<Rightarrow> address set \<Rightarrow> nat" where
  "signing_weight s P = weight_sum (filter (\<lambda>(key, _). key \<in> P) (is_signers s))"

definition majority_threshold :: "initial_signers \<Rightarrow> bool" where
  "majority_threshold s = (weight_sum (is_signers s) < 2 * unat (is_threshold s))"

lemma weight_sum_simps [simp]:
  "weight_sum [] = 0" "weight_sum ((key, weight) # signers) = unat weight + weight_sum signers"
  by (simp_all add: weight_sum_def)

lemma weight_sum_filter_modular:
  "weight_sum (filter (\<lambda>(key, _). key \<in> P \<union> Q) signers) +
   weight_sum (filter (\<lambda>(key, _). key \<in> P \<inter> Q) signers) =
   weight_sum (filter (\<lambda>(key, _). key \<in> P) signers) + weight_sum (filter (\<lambda>(key, _). key \<in> Q) signers)"
  by (induction signers) auto

lemma weight_sum_filter_le: "weight_sum (filter f signers) \<le> weight_sum signers"
  by (induction signers) auto

interpretation sq: weighted_quorum majority_threshold signing_weight "\<lambda>s. unat (is_threshold s)"
proof
  fix s :: initial_signers and P Q
  show "signing_weight s (P \<union> Q) + signing_weight s (P \<inter> Q) = signing_weight s P + signing_weight s Q"
    unfolding signing_weight_def by (rule weight_sum_filter_modular)
  show "signing_weight s {} = 0" by (simp add: signing_weight_def case_prod_beta)
  show "signing_weight s P < 2 * unat (is_threshold s)" if "majority_threshold s"
    using that weight_sum_filter_le [of "\<lambda>(key, _). key \<in> P" "is_signers s"]
    by (simp add: signing_weight_def majority_threshold_def)
qed

lemma accepted_majority:
  assumes "accepted_set fraction s" and "valid_threshold fraction"
  shows "majority_threshold s"
proof -
  obtain a b where fr: "fraction = (a, b)" by (cases fraction)
  let ?t = "unat (is_threshold s)" and ?w = "weight_sum (is_signers s)"
  have v: "unat b < 2 * unat a"
    using assms(2) by (simp add: fr valid_threshold_iff)
  have t: "0 < ?t" "0 < unat b" "?t = (?w * unat a + unat b - 1) div unat b"
    using assms(1) by (simp_all add: fr accepted_set_def del: unat_gt_0)
  have "?w * unat a \<le> ?t * unat b" unfolding t(3) by (rule ceil_le) (rule t(2))
  also have "\<dots> < ?t * (2 * unat a)" using v t(1) by (rule mult_strict_left_mono)
  also have "\<dots> = 2 * ?t * unat a" by (simp only: mult.assoc mult.left_commute [of 2])
  finally have "?w < 2 * ?t" by (rule mult_right_less_imp_less) simp
  then show ?thesis by (simp add: majority_threshold_def)
qed

text \<open>
  C17: What the prover's set must satisfy to be offered for approval.  An accepted set lists its
  signers in strictly ascending address order with positive weights whose sum does not overflow,
  carries one identity per signer, and its threshold is exactly the plan's fraction of the total
  weight, rounded up.
\<close>

theorem validate_set_sound:
  assumes "validate_set E ps sv fraction = Inr s"
  shows "sorted_wrt (<) (map fst (is_signers s)) \<and>
    length (is_identities s) = length (is_signers s) \<and>
    list_all (\<lambda>(_, weight). weight > 0) (is_signers s) \<and>
    unat (is_threshold s) =
      (weight_sum (is_signers s) * unat (fst fraction) + unat (snd fraction) - 1) div unat (snd fraction)"
  using validate_set_accepted [OF assms] by (simp add: accepted_set_def)

text \<open>
  C16: Two signer groups that both reach the threshold of an accepted initial set share a signer,
  so no two disjoint groups can approve conflicting messages, whenever the plan's signing
  fraction passes the plan's own validation.
\<close>

theorem accepted_quorums_intersect:
  assumes "validate_plan account_prefix p = Inr ()"
    and "validate_set E ps sv (pl_signing_threshold p) = Inr s"
    and "unat (is_threshold s) \<le> signing_weight s P"
    and "unat (is_threshold s) \<le> signing_weight s Q"
  shows "P \<inter> Q \<noteq> {}"
proof -
  have "majority_threshold s"
    using accepted_majority [OF validate_set_accepted(1) [OF assms(2)]]
      validate_plan_thresholds [OF assms(1)] by blast
  then show ?thesis using assms(3,4) by (rule sq.intersect)
qed

subsection \<open>A sample set\<close>

definition sample_verifier_env :: verifier_env where
  "sample_verifier_env =
     \<lparr> ve_account_prefix = (\<lambda>s. if take 6 s = ''axelar'' then Some ''axelar'' else None),
       ve_hex_decode = (\<lambda>s. Some (map of_char s)), ve_uncompressed = Some,
       ve_keccak = (\<lambda>bs. of_nat (length bs)), ve_abi_encode = (\<lambda>_ _ _. []) \<rparr>"

definition sample_signer :: "string \<Rightarrow> string \<Rightarrow> string \<times> signer" where
  "sample_signer name key = (name, \<lparr> sg_address = name, sg_ecdsa = key, sg_weight = Count 1 \<rparr>)"

definition sample_prover_set :: prover_set where
  "sample_prover_set =
     \<lparr> ps_id = ''set'',
       ps_verifier_set =
         \<lparr> gs_signers = [sample_signer ''axelar1a'' ''0x0444'', sample_signer ''axelar1b'' ''02'',
             sample_signer ''axelar1c'' ''033''],
           gs_threshold = Text ''2'', gs_created_at = 7 \<rparr> \<rparr>"

definition sample_service :: service where
  "sample_service = \<lparr> sv_min_num_verifiers = 2, sv_max_num_verifiers = Some 5 \<rparr>"

definition sample_initial :: initial_signers where
  "sample_initial =
     \<lparr> is_identities = [''axelar1b'', ''axelar1c'', ''axelar1a''],
       is_signers = [(1, 1), (2, 1), (3, 1)], is_threshold = 2, is_nonce = 7, is_set_id = ''set'',
       is_hash = 0 \<rparr>"

lemma sample_validated:
  "validate_set sample_verifier_env sample_prover_set sample_service (2, 3) = Inr sample_initial"
  by (simp add: validate_set_def sample_prover_set_def sample_verifier_env_def sample_signer_def
      sample_service_def sample_initial_def validate_count_def validate_limits_def amount_value_def
      pubkey_to_address_def checked_add_def checked_mul_def div_ceil_def snapshot_def signer_hash_def
      parse_eval Let_def word_le_nat_alt word_less_nat_alt)

theorem validate_set_sound_witness:
  "unat (is_threshold sample_initial) = 2 \<and> sorted_wrt (<) (map fst (is_signers sample_initial))"
  using validate_set_sound [OF sample_validated]
  by (simp add: sample_initial_def)

lemma sample_plan_valid: "validate_plan (ve_account_prefix sample_verifier_env) sample_plan = Inr ()"
  by (simp add: validate_plan_def sample_plan_def sample_verifier_env_def valid_threshold_def parse_eval)

theorem accepted_quorums_intersect_witness:
  "validate_set sample_verifier_env sample_prover_set sample_service (pl_signing_threshold sample_plan)
     = Inr sample_initial \<and>
   {1, 2} \<inter> {2, 3 :: address} \<noteq> {}"
  using accepted_quorums_intersect [OF sample_plan_valid, of sample_verifier_env sample_prover_set
      sample_service sample_initial "{1, 2}" "{2, 3}"] sample_validated
  by (simp add: sample_plan_def sample_initial_def signing_weight_def)

end
