(* ===== verification/Evm_Chain.thy ===== *)
theory Evm_Chain
  imports Deploy_Funding Rpc_Retry
begin

text \<open>
  The world of the EVM deployment code and the endpoint pool of \<open>src/evm.rs\<close>.

  The world holds the session's journal in memory and on disk, a clock in milliseconds, the
  number of outside calls made so far, and the raw transactions broadcast.  What the RPC
  nodes, the disk and the operator answer is an argument of the model: every answer may depend
  on the number of the call, so an answer may be anything at any time.  Alloy's transaction
  types are given by the fields the code reads; hashing, signature recovery, the text form of
  a hash and the decoding of raw transactions are arguments as well.
\<close>

datatype tx_kind = Create | Call address

type_synonym access_list = "(address \<times> b256 list) list"

record tx_request =
  rq_chain_id :: "u64 option"
  rq_from :: "address option"
  rq_to :: "tx_kind option"
  rq_value :: "u256 option"
  rq_nonce :: "u64 option"
  rq_gas :: "u64 option"
  rq_input :: "bytes option"
  rq_gas_price :: "u128 option"
  rq_max_fee_per_gas :: "u128 option"
  rq_max_priority_fee_per_gas :: "u128 option"
  rq_access_list :: "access_list option"
  rq_authorization_list :: "bytes list option"
  rq_blob_versioned_hashes :: "b256 list option"

text \<open>A signed transaction; \<open>en_recovered\<close> is the signer its signature recovers to.\<close>

record envelope =
  en_ty :: byte
  en_chain_id :: "u64 option"
  en_nonce :: u64
  en_gas_limit :: u64
  en_max_fee_per_gas :: u128
  en_gas_price :: "u128 option"
  en_max_priority_fee_per_gas :: "u128 option"
  en_kind :: tx_kind
  en_value :: u256
  en_input :: bytes
  en_access_list :: "access_list option"
  en_authorization_list :: "bytes list option"
  en_blob_versioned_hashes :: "b256 list option"
  en_recovered :: "address option"
  en_raw :: bytes
  en_hash :: b256

record block =
  bl_number :: u64
  bl_hash :: b256

datatype write_outcome = Written | FailedOld | FailedNew

record evm_env =
  ev_keccak :: "bytes \<Rightarrow> b256"
  ev_show_hash :: "b256 \<Rightarrow> string"
  ev_parse_u256 :: "string \<Rightarrow> u256 option"
  ev_decode :: "bytes \<Rightarrow> envelope option"
  ev_request_of :: "envelope \<Rightarrow> address \<Rightarrow> tx_request"
  ev_signer :: "string \<Rightarrow> address option"
  ev_url_ok :: "string \<Rightarrow> bool"
  ev_latency :: "nat \<Rightarrow> nat"
  ev_jitter :: "nat \<Rightarrow> u64 \<Rightarrow> nat"
  ev_chain_id :: "nat \<Rightarrow> u64 result"
  ev_receipt :: "nat \<Rightarrow> b256 \<Rightarrow> receipt option result"
  ev_block :: "nat \<Rightarrow> block_tag \<Rightarrow> block option result"
  ev_count :: "nat \<Rightarrow> address \<Rightarrow> u64 result"
  ev_known_tx :: "nat \<Rightarrow> b256 \<Rightarrow> bool result"
  ev_send_raw :: "nat \<Rightarrow> bytes \<Rightarrow> b256 result"
  ev_call :: "nat \<Rightarrow> tx_request \<Rightarrow> unit result"
  ev_estimate_gas :: "nat \<Rightarrow> tx_request \<Rightarrow> u64 result"
  ev_gas_price :: "nat \<Rightarrow> u128 result"
  ev_balance :: "nat \<Rightarrow> address \<Rightarrow> u256 result"
  ev_fill :: "nat \<Rightarrow> string \<Rightarrow> tx_request \<Rightarrow> envelope result"
  ev_confirm :: "nat \<Rightarrow> bool"
  ev_write :: "nat \<Rightarrow> write_outcome"

record deploy_world =
  dw_journal :: journal
  dw_disk :: journal
  dw_now :: nat
  dw_calls :: nat
  dw_sent :: "bytes list"

record session =
  ss_plan :: plan
  ss_rpc :: string
  ss_options :: options

definition tick :: "nat \<Rightarrow> deploy_world \<Rightarrow> deploy_world" where
  "tick ms w = w\<lparr> dw_now := dw_now w + ms \<rparr>"

definition ask :: "evm_env \<Rightarrow> (nat \<Rightarrow> 'a result) \<Rightarrow> (deploy_world, 'a) io" where
  "ask E f w =
     (f (dw_calls w), (tick (ev_latency E (dw_calls w)) w)\<lparr> dw_calls := Suc (dw_calls w) \<rparr>)"

definition sleep_secs :: "nat \<Rightarrow> (deploy_world, unit) io" where
  "sleep_secs s = io_modify (tick (1000 * s))"

definition backoff_sleep :: "evm_env \<Rightarrow> u64 \<Rightarrow> deploy_world \<Rightarrow> deploy_world" where
  "backoff_sleep E ms w =
     (tick (ev_jitter E (dw_calls w) ms) w)\<lparr> dw_calls := Suc (dw_calls w) \<rparr>"

text \<open>Run a journal operation on the journal in memory, then write the journal to disk.\<close>

definition write_journal :: "evm_env \<Rightarrow> (deploy_world, unit) io" where
  "write_journal E w =
     (let w' = w\<lparr> dw_calls := Suc (dw_calls w) \<rparr> in
      case ev_write E (dw_calls w) of
        Written \<Rightarrow> (Inr (), w'\<lparr> dw_disk := dw_journal w \<rparr>)
      | FailedOld \<Rightarrow> (Inl (Report ''journal write failed''), w')
      | FailedNew \<Rightarrow> (Inl (Report ''journal write failed''), w'\<lparr> dw_disk := dw_journal w \<rparr>))"

definition commit :: "evm_env \<Rightarrow> (journal, unit) io \<Rightarrow> (deploy_world, unit) io" where
  "commit E m w =
     (case m (dw_journal w) of
        (Inl e, j) \<Rightarrow> (Inl e, w\<lparr> dw_journal := j \<rparr>)
      | (Inr _, j) \<Rightarrow> write_journal E (w\<lparr> dw_journal := j \<rparr>))"

subsection \<open>The endpoint pool\<close>

definition endpoints_connect :: "evm_env \<Rightarrow> string list \<Rightarrow> string list result" where
  "endpoints_connect E urls =
     (let unique = rev (remdups (rev urls)) in
      and_then (ensure (unique \<noteq> []) ''EvmEndpoints::connect: no RPC URLs provided'') (\<lambda>_.
      and_then (all_ok (\<lambda>url. ensure (ev_url_ok E url) ''invalid URL'') unique) (\<lambda>_.
      Inr unique)))"

definition AVALANCHE_FUJI_CHAIN_ID :: u64 where "AVALANCHE_FUJI_CHAIN_ID = 43113"

definition is_pending_state_error :: "report \<Rightarrow> bool" where
  "is_pending_state_error e = contains ''state not available for pending block'' (report_text e)"

definition deterministic_view_failure :: "report \<Rightarrow> bool" where
  "deterministic_view_failure e =
     (contains ''returned no data'' (report_text e) \<or> contains ''execution reverted'' (report_text e))"

definition is_missing_base_fee_error :: "report \<Rightarrow> bool" where
  "is_missing_base_fee_error e =
     (contains ''expected a 16 byte hex string'' (report_text e) \<and>
      contains ''invalid type: null'' (report_text e))"

definition should_retry_fill :: "report \<Rightarrow> bool" where
  "should_retry_fill e = (\<not> is_pending_state_error e \<and> is_transient_default e)"

definition fill_and_sign_once ::
  "evm_env \<Rightarrow> string list \<Rightarrow> string \<Rightarrow> tx_request \<Rightarrow> (deploy_world, envelope) io" where
  "fill_and_sign_once E urls signer tx =
     retry_with_fallback (backoff_sleep E) should_retry_fill
       (\<lambda>url. ask E (\<lambda>k. ev_fill E k signer tx)) urls"

definition prefill_from_latest ::
  "evm_env \<Rightarrow> string list \<Rightarrow> tx_request \<Rightarrow> (deploy_world, tx_request) io" where
  "prefill_from_latest E urls tx =
     io_bind (io_lift (ok_or (rq_from tx) ''prefill_from_latest: tx.from not set'')) (\<lambda>sender.
     io_bind (case rq_nonce tx of
                Some _ \<Rightarrow> io_return tx
              | None \<Rightarrow>
                  io_bind (retry_with_fallback_all (backoff_sleep E)
                    (\<lambda>_. ask E (\<lambda>k. ev_count E k sender)) urls) (\<lambda>nonce.
                  io_return (tx\<lparr> rq_nonce := Some nonce \<rparr>))) (\<lambda>tx.
     case rq_gas tx of
       Some _ \<Rightarrow> io_return tx
     | None \<Rightarrow>
         io_bind (retry_with_fallback (backoff_sleep E) (\<lambda>e. \<not> deterministic_view_failure e)
           (\<lambda>_. ask E (\<lambda>k. ev_estimate_gas E k tx)) urls) (\<lambda>estimate.
         io_return (tx\<lparr> rq_gas := Some (saturating_mul estimate 12 div 10) \<rparr>))))"

definition prepare_fill ::
  "evm_env \<Rightarrow> string list \<Rightarrow> tx_request \<Rightarrow> (deploy_world, tx_request) io" where
  "prepare_fill E urls tx =
     (if rq_chain_id tx = Some AVALANCHE_FUJI_CHAIN_ID then prefill_from_latest E urls tx
      else io_return tx)"

definition fill_and_sign ::
  "evm_env \<Rightarrow> string list \<Rightarrow> string \<Rightarrow> tx_request \<Rightarrow> (deploy_world, envelope) io" where
  "fill_and_sign E urls signer tx =
     io_bind (prepare_fill E urls tx) (\<lambda>tx.
     io_bind (io_try (fill_and_sign_once E urls signer tx)) (\<lambda>r.
     case r of
       Inr envelope \<Rightarrow> io_return envelope
     | Inl e \<Rightarrow>
         if is_pending_state_error e then
           io_bind (prefill_from_latest E urls tx) (\<lambda>pinned. fill_and_sign_once E urls signer pinned)
         else if is_missing_base_fee_error e then
           io_bind (ask E (ev_gas_price E)) (\<lambda>gas_price.
           fill_and_sign_once E urls signer (tx\<lparr> rq_gas_price := Some gas_price \<rparr>))
         else io_raise e))"

definition gas_cost_of :: "envelope \<Rightarrow> u256" where
  "gas_cost_of e = ucast (en_gas_limit e) * ucast (en_max_fee_per_gas e)"

subsection \<open>Reads leave the journal and the broadcast log alone\<close>

text \<open>Only the clock and the call counter moved, and only forwards.\<close>

definition quiet :: "deploy_world \<Rightarrow> deploy_world \<Rightarrow> bool" where
  "quiet w w' =
     (dw_journal w' = dw_journal w \<and> dw_disk w' = dw_disk w \<and> dw_sent w' = dw_sent w \<and>
      dw_now w \<le> dw_now w' \<and> dw_calls w \<le> dw_calls w')"

lemma quiet_refl [simp]: "quiet w w"
  by (simp add: quiet_def)

lemma quiet_trans: "quiet w w1 \<Longrightarrow> quiet w1 w2 \<Longrightarrow> quiet w w2"
  by (simp add: quiet_def)

lemma keeps_ask [hoare_rules, simp]: "keeps (quiet w0) (ask E f)"
  by (auto simp: keeps_def ask_def quiet_def tick_def)

lemma keeps_sleep_secs [hoare_rules, simp]: "keeps (quiet w0) (sleep_secs s)"
  by (auto simp: keeps_def sleep_secs_def quiet_def tick_def)

lemma quiet_backoff_sleep: "quiet w0 w \<Longrightarrow> quiet w0 (backoff_sleep E ms w)"
  by (simp add: quiet_def backoff_sleep_def tick_def)

lemma keeps_retry_with_fallback [hoare_rules]:
  "(\<And>c. keeps (quiet w0) (op c)) \<Longrightarrow>
   keeps (quiet w0) (retry_with_fallback (backoff_sleep E) is_transient op cs)"
  unfolding retry_with_fallback_def by (rule keeps_fallback_from) (simp_all add: quiet_backoff_sleep)

lemma keeps_fill_and_sign_once [hoare_rules, simp]: "keeps (quiet w0) (fill_and_sign_once E urls signer tx)"
  by (simp add: fill_and_sign_once_def keeps_retry_with_fallback)

lemma keeps_prefill [hoare_rules, simp]: "keeps (quiet w0) (prefill_from_latest E urls tx)"
  unfolding prefill_from_latest_def retry_with_fallback_all_def
  by (intro keeps_bind keeps_option keeps_retry_with_fallback) simp_all

lemma keeps_fill_and_sign [hoare_rules, simp]: "keeps (quiet w0) (fill_and_sign E urls signer tx)"
  unfolding fill_and_sign_def prepare_fill_def
  by (intro keeps_bind keeps_if keeps_try keeps_sum) simp_all

end
