(* ===== verification/Evm_Intent.thy ===== *)
theory Evm_Intent
  imports Evm_Chain
begin

text \<open>
  The intent of an EVM deployment transaction (\<open>hardened/evm_intent.rs\<close>): a versioned byte
  encoding of the fields that decide what the transaction does, hashed with Keccak-256.  The
  encoding is shown to determine those fields.
\<close>

definition be_bytes :: "nat \<Rightarrow> 'w::len word \<Rightarrow> bytes" where
  "be_bytes n x = map (\<lambda>i. ucast (drop_bit (8 * (n - 1 - i)) x)) [0..<n]"

definition ascii :: "string \<Rightarrow> bytes" where
  "ascii s = map of_char s"

definition call_target :: "tx_request \<Rightarrow> address option" where
  "call_target rq = (case rq_to rq of Some (Call a) \<Rightarrow> Some a | _ \<Rightarrow> None)"

definition or_zero :: "'w::len word option \<Rightarrow> 'w word" where
  "or_zero v = (case v of Some x \<Rightarrow> x | None \<Rightarrow> 0)"

definition optional_bytes :: "u64 option \<Rightarrow> bytes" where
  "optional_bytes v = (if v \<noteq> None then 1 else 0) # be_bytes 8 (or_zero v)"

definition target_bytes :: "address option \<Rightarrow> bytes" where
  "target_bytes t = (case t of Some a \<Rightarrow> 1 # be_bytes 20 a | None \<Rightarrow> [0])"

definition request_input :: "tx_request \<Rightarrow> bytes" where
  "request_input rq = (case rq_input rq of Some d \<Rightarrow> d | None \<Rightarrow> [])"

definition intent_bytes :: "tx_request \<Rightarrow> bytes result" where
  "intent_bytes rq =
     and_then (ensure ((rq_access_list rq = None \<or> rq_access_list rq = Some []) \<and>
         rq_authorization_list rq = None \<and> rq_blob_versioned_hashes rq = None)
       ''unsupported deployment transaction extensions'') (\<lambda>_.
     and_then (ok_or (rq_chain_id rq) ''missing chain ID'') (\<lambda>chain.
     and_then (ok_or (rq_from rq) ''missing signer'') (\<lambda>sender.
     Inr (ascii ''axe-deploy-intent-v2'' @ be_bytes 8 chain @ be_bytes 20 sender @
          target_bytes (call_target rq) @ be_bytes 32 (or_zero (rq_value rq)) @
          concat (map optional_bytes [rq_nonce rq, rq_gas rq]) @ request_input rq))))"

definition intent_hash :: "(bytes \<Rightarrow> b256) \<Rightarrow> tx_request \<Rightarrow> b256 result" where
  "intent_hash keccak rq = and_then (intent_bytes rq) (\<lambda>bs. Inr (keccak bs))"

lemma length_be_bytes [simp]: "length (be_bytes n x) = n"
  by (simp add: be_bytes_def)

lemma be_bytes_inject:
  fixes x y :: "'w::len word"
  assumes "LENGTH('w) \<le> 8 * n"
  shows "be_bytes n x = be_bytes n y \<longleftrightarrow> x = y"
proof
  assume eq: "be_bytes n x = be_bytes n y"
  show "x = y"
  proof (rule bit_word_eqI)
    fix k assume k: "k < LENGTH('w)"
    let ?i = "n - 1 - k div 8"
    have i: "?i < n" "n - 1 - ?i = k div 8" using k assms by linarith+
    have "be_bytes n x ! ?i = be_bytes n y ! ?i" using eq by simp
    then have "(ucast (drop_bit (8 * (k div 8)) x) :: byte) = ucast (drop_bit (8 * (k div 8)) y)"
      using i by (simp add: be_bytes_def)
    then have "bit (ucast (drop_bit (8 * (k div 8)) x) :: byte) (k mod 8) =
        bit (ucast (drop_bit (8 * (k div 8)) y) :: byte) (k mod 8)" by simp
    moreover have "8 * (k div 8) + k mod 8 = k" by simp
    ultimately show "bit x k = bit y k"
      by (simp add: bit_simps)
  qed
qed simp

lemma optional_bytes_inject: "optional_bytes a = optional_bytes b \<longleftrightarrow> a = b"
  by (cases a; cases b) (auto simp: optional_bytes_def or_zero_def be_bytes_inject)

lemma length_optional_bytes [simp]: "length (optional_bytes a) = 9"
  by (simp add: optional_bytes_def)

lemma target_bytes_inject:
  "target_bytes a @ xs = target_bytes b @ ys \<longleftrightarrow> a = b \<and> xs = ys"
  by (cases a; cases b) (auto simp: target_bytes_def be_bytes_inject append_eq_append_conv)

lemma intent_bytes_inject:
  assumes "intent_bytes a = Inr bs" and "intent_bytes b = Inr bs"
  shows "rq_chain_id a = rq_chain_id b \<and> rq_from a = rq_from b \<and> call_target a = call_target b \<and>
    or_zero (rq_value a) = or_zero (rq_value b) \<and> rq_nonce a = rq_nonce b \<and> rq_gas a = rq_gas b \<and>
    request_input a = request_input b"
proof -
  obtain ca fa cb fb where ids: "rq_chain_id a = Some ca" "rq_from a = Some fa"
      "rq_chain_id b = Some cb" "rq_from b = Some fb"
    and "be_bytes 8 ca @ be_bytes 20 fa @ target_bytes (call_target a) @
        be_bytes 32 (or_zero (rq_value a)) @ optional_bytes (rq_nonce a) @
        optional_bytes (rq_gas a) @ request_input a =
      be_bytes 8 cb @ be_bytes 20 fb @ target_bytes (call_target b) @
        be_bytes 32 (or_zero (rq_value b)) @ optional_bytes (rq_nonce b) @
        optional_bytes (rq_gas b) @ request_input b"
    using assms by (auto simp: intent_bytes_def result_simps)
  then have "be_bytes 8 ca = be_bytes 8 cb" "be_bytes 20 fa = be_bytes 20 fb"
    and rest: "target_bytes (call_target a) @
        be_bytes 32 (or_zero (rq_value a)) @ optional_bytes (rq_nonce a) @
        optional_bytes (rq_gas a) @ request_input a =
      target_bytes (call_target b) @
        be_bytes 32 (or_zero (rq_value b)) @ optional_bytes (rq_nonce b) @
        optional_bytes (rq_gas b) @ request_input b"
    by (simp_all add: append_eq_append_conv)
  then show ?thesis
    using ids rest
    by (simp add: be_bytes_inject target_bytes_inject append_eq_append_conv optional_bytes_inject)
qed


definition sample_request :: tx_request where
  "sample_request =
     \<lparr> rq_chain_id = Some 143, rq_from = Some 5, rq_to = Some (Call 7), rq_value = None,
       rq_nonce = Some 3, rq_gas = None, rq_input = Some [1, 2], rq_gas_price = None,
       rq_max_fee_per_gas = None, rq_max_priority_fee_per_gas = None, rq_access_list = None,
       rq_authorization_list = None, rq_blob_versioned_hashes = None \<rparr>"


end
