(* ===== verification/Evm_Recovery.thy ===== *)
theory Evm_Recovery
  imports Evm_Intent
begin

text \<open>
  Sending and recovering EVM deployment transactions (\<open>hardened/evm.rs\<close>,
  \<open>hardened/evm_recovery.rs\<close>, \<open>hardened/evm_retry.rs\<close>).  A run inside a session has
  \<open>ss = Some session\<close>; without one no journal is consulted.  The waiting loops are total: each
  round sleeps, and a round starts only before the deadline.
\<close>

subsection \<open>Attempts and receipts\<close>

definition competing_attempts ::
  "session option \<Rightarrow> string \<Rightarrow> transaction \<Rightarrow> (deploy_world, transaction list) io" where
  "competing_attempts ss key saved =
     (case saved of
        CosmosTxn _ _ _ _ _ _ \<Rightarrow> io_raise (Report ''expected EVM transaction'')
      | EvmTx _ _ _ sender nonce _ \<Rightarrow>
          io_gets (\<lambda>w.
            filter (\<lambda>t. is_evm t \<and> tx_sender t = sender \<and> tx_nonce t = nonce)
              (if ss = None then [saved] else journal_attempts (dw_journal w) key saved)))"

definition canonical :: "evm_env \<Rightarrow> receipt \<Rightarrow> (deploy_world, bool) io" where
  "canonical E rc =
     io_bind (io_lift (ok_or (rc_block_number rc) ''receipt has no block number'')) (\<lambda>number.
     io_bind (ask E (\<lambda>k. ev_block E k (Number number))) (\<lambda>found.
     io_bind (io_lift (ok_or found
       ''receipt block unavailable; cannot establish canonical inclusion'')) (\<lambda>blk.
     io_return (Some (bl_hash blk) = rc_block_hash rc))))"

definition cached_confirmation ::
  "evm_env \<Rightarrow> session option \<Rightarrow> b256 \<Rightarrow> (deploy_world, confirmation option) io" where
  "cached_confirmation E ss h =
     io_gets (\<lambda>w. if ss = None then None
                  else journal_confirmation (dw_journal w) (ev_show_hash E h))"

fun included ::
  "evm_env \<Rightarrow> session option \<Rightarrow> transaction list \<Rightarrow> (deploy_world, receipt option) io" where
  "included E ss [] = io_return None"
| "included E ss (CosmosTxn _ _ _ _ _ _ # ts) = io_raise (Report ''invalid EVM attempt'')"
| "included E ss (EvmTx _ _ h _ _ _ # ts) =
     io_bind (cached_confirmation E ss h) (\<lambda>cached.
     io_bind (case cached of
                Some (EvmConfirmation rc) \<Rightarrow>
                  io_bind (io_ensure (rc_transaction_hash rc = h) ''cached receipt hash mismatch'') (\<lambda>_.
                  io_bind (canonical E rc) (\<lambda>ok.
                  io_return (if ok then Some rc else None)))
              | _ \<Rightarrow> io_return None) (\<lambda>settled.
     case settled of
       Some rc \<Rightarrow> io_return (Some rc)
     | None \<Rightarrow>
         io_bind (ask E (\<lambda>k. ev_receipt E k h)) (\<lambda>found.
         case found of
           Some rc \<Rightarrow>
             io_bind (io_ensure (rc_transaction_hash rc = h) ''receipt hash mismatch'') (\<lambda>_.
             io_return (Some rc))
         | None \<Rightarrow> included E ss ts)))"

definition broadcast :: "evm_env \<Rightarrow> transaction \<Rightarrow> (deploy_world, unit) io" where
  "broadcast E saved =
     (case saved of
        CosmosTxn _ _ _ _ _ _ \<Rightarrow> io_raise (Report ''expected EVM transaction'')
      | EvmTx _ raw h _ _ _ \<Rightarrow>
          io_bind (ask E (\<lambda>k. ev_known_tx E k h)) (\<lambda>present.
          if present then io_return ()
          else
            io_bind (io_modify (\<lambda>w. w\<lparr> dw_sent := raw # dw_sent w \<rparr>)) (\<lambda>_.
            io_bind (io_try (ask E (\<lambda>k. ev_send_raw E k raw))) (\<lambda>answer.
            case answer of
              Inl _ \<Rightarrow> io_raise (Paused ''broadcast unresolved; resume to reconcile'')
            | Inr pending \<Rightarrow>
                io_ensure (pending = h) ''RPC returned a different transaction hash''))))"

definition confirm_receipt ::
  "evm_env \<Rightarrow> session option \<Rightarrow> receipt \<Rightarrow> (deploy_world, unit) io" where
  "confirm_receipt E ss rc =
     (if ss = None then io_return ()
      else commit E (journal_confirm (ev_show_hash E (rc_transaction_hash rc)) (EvmConfirmation rc)))"

subsection \<open>Waiting\<close>

lemma quiet_run: "keeps (quiet w) m \<Longrightarrow> m w = (r, w') \<Longrightarrow> quiet w w'"
  using keepsD [of "quiet w" m w r w'] by simp

lemma ask_now: "ask E f w = (r, w') \<Longrightarrow> dw_now w \<le> dw_now w'"
  by (auto simp: ask_def tick_def)

lemma sleep_secs_now: "sleep_secs s w = (r, w') \<Longrightarrow> dw_now w' = dw_now w + 1000 * s"
  by (auto simp: sleep_secs_def tick_def)

lemma keeps_canonical [hoare_rules, simp]: "keeps (quiet w0) (canonical E rc)"
  unfolding canonical_def by (intro keeps_bind) simp_all

lemma keeps_cached [hoare_rules, simp]: "keeps (quiet w0) (cached_confirmation E ss h)"
  by (simp add: cached_confirmation_def)

lemma keeps_included [hoare_rules, simp]: "keeps (quiet w0) (included E ss ts)"
proof (induction E ss ts rule: included.induct)
  case (3 E ss i r h s n g ts)
  have settled: "keeps (quiet w0) (case c of
      Some (EvmConfirmation rc) \<Rightarrow>
        io_bind (io_ensure (rc_transaction_hash rc = h) ''cached receipt hash mismatch'') (\<lambda>_.
        io_bind (canonical E rc) (\<lambda>ok. io_return (if ok then Some rc else None)))
    | _ \<Rightarrow> io_return None)" for c
    by (auto split: option.split confirmation.split intro!: keeps_bind)
  show ?case
    unfolding included.simps
    by (intro keeps_bind keeps_option settled) (auto intro: 3)
qed simp_all

function wait_receipt ::
  "evm_env \<Rightarrow> session option \<Rightarrow> nat \<Rightarrow> evm_confirmation_policy \<Rightarrow> b256 \<Rightarrow> receipt
   \<Rightarrow> deploy_world \<Rightarrow> receipt result \<times> deploy_world" where
  "wait_receipt E ss deadline policy h rc w =
     io_bind (io_lift (ok_or (rc_block_number rc) ''receipt has no block number'')) (\<lambda>number.
     io_bind (io_lift (required_height policy number)) (\<lambda>target.
     io_bind (ask E (\<lambda>k. ev_block E k (policy_block_tag policy))) (\<lambda>found.
     io_bind (io_lift (ok_or found ''RPC does not expose confirmation blocks'')) (\<lambda>head.
     io_if (bl_number head \<ge> target)
       (io_bind (canonical E rc) (\<lambda>ok.
        io_bind (io_ensure ok
          ''receipt is no longer canonical; resume to resolve its transaction again'') (\<lambda>_.
        io_bind (confirm_receipt E ss rc) (\<lambda>_.
        io_return rc))))
       (io_bind (io_gets (\<lambda>v. dw_now v \<ge> deadline)) (\<lambda>late.
        io_if late (io_raise (Paused ''included; waiting for confirmations; resume to continue''))
        (io_bind (sleep_secs 10) (\<lambda>_.
         io_bind (ask E (\<lambda>k. ev_receipt E k (rc_transaction_hash rc))) (\<lambda>again.
         io_bind (case again of
                    Some rc' \<Rightarrow> io_return rc'
                  | None \<Rightarrow> io_raise (Paused
                      ''receipt disappeared before the confirmation target; resume to reconcile'')) (\<lambda>rc'.
         io_bind (io_ensure (rc_transaction_hash rc' = h) ''receipt hash mismatch'') (\<lambda>_.
         wait_receipt E ss deadline policy h rc'))))))))))) w"
  by pat_completeness auto
termination
  by (relation "measure (\<lambda>(E, ss, deadline, policy, h, rc, w). deadline - dw_now w)")
    (auto dest!: ask_now sleep_secs_now split: option.splits)

declare wait_receipt.simps [simp del]

definition wait_confirmed ::
  "evm_env \<Rightarrow> session option \<Rightarrow> receipt \<Rightarrow> nat \<Rightarrow> evm_confirmation_policy \<Rightarrow> (deploy_world, receipt) io" where
  "wait_confirmed E ss rc deadline policy =
     io_bind (wait_receipt E ss deadline policy (rc_transaction_hash rc) rc) (\<lambda>rc'.
     io_bind (io_ensure (rc_status rc') ''recorded transaction reverted'') (\<lambda>_.
     io_return rc'))"

function await_inclusion ::
  "evm_env \<Rightarrow> session option \<Rightarrow> transaction list \<Rightarrow> nat \<Rightarrow> deploy_world
   \<Rightarrow> receipt result \<times> deploy_world" where
  "await_inclusion E ss attempts deadline w =
     io_bind (included E ss attempts) (\<lambda>found.
     io_if (found \<noteq> None) (io_return (the found))
     (io_bind (io_gets (\<lambda>v. dw_now v \<ge> deadline)) (\<lambda>late.
      io_if late (io_raise (Paused ''transaction still pending; resume or bump its fees''))
      (io_bind (sleep_secs 5) (\<lambda>_. await_inclusion E ss attempts deadline))))) w"
  by pat_completeness auto
termination
proof (relation "measure (\<lambda>(E, ss, attempts, deadline, w). deadline - dw_now w)")
  fix E ss attempts deadline w x v late w1 u w2
  assume run: "included E ss attempts w = (Inr x, v)"
    and "io_gets (\<lambda>v. deadline \<le> dw_now v) v = (Inr late, w1)" "\<not> late"
    and "sleep_secs 5 w1 = (Inr u, w2)"
  moreover have "dw_now w \<le> dw_now v"
    using quiet_run [OF keeps_included run] by (simp add: quiet_def)
  ultimately show "((E, ss, attempts, deadline, w2), E, ss, attempts, deadline, w) \<in>
      measure (\<lambda>(E, ss, attempts, deadline, w). deadline - dw_now w)"
    by (auto dest!: sleep_secs_now)
qed simp

declare await_inclusion.simps [simp del]

subsection \<open>Fee replacement\<close>

definition validate_replacement :: "evm_env \<Rightarrow> envelope \<Rightarrow> envelope \<Rightarrow> unit result" where
  "validate_replacement E old new =
     and_then (ok_or (en_recovered old) ''signature recovery failed'') (\<lambda>old_signer.
     and_then (ok_or (en_recovered new) ''signature recovery failed'') (\<lambda>new_signer.
     and_then (intent_hash (ev_keccak E) (ev_request_of E old old_signer)) (\<lambda>a.
     and_then (intent_hash (ev_keccak E) (ev_request_of E new new_signer)) (\<lambda>b.
     and_then (ensure (a = b \<and> en_ty old = en_ty new) ''replacement changed execution fields'') (\<lambda>_.
     ensure (en_max_fee_per_gas new > en_max_fee_per_gas old) ''replacement fee must increase'')))))"

definition raise_fees :: "envelope \<Rightarrow> u128 \<Rightarrow> tx_request \<Rightarrow> tx_request result" where
  "raise_fees old fees rq =
     and_then (ok_or (checked_mul (en_max_fee_per_gas old) 2) ''fee overflow'') (\<lambda>doubled.
     if en_gas_price old \<noteq> None
     then Inr (rq\<lparr> rq_gas_price := Some (max doubled fees) \<rparr>)
     else
       and_then (ok_or (checked_mul fees 2) ''fee overflow'') (\<lambda>twice.
       and_then (ok_or (checked_mul (or_zero (en_max_priority_fee_per_gas old)) 2) ''fee overflow'') (\<lambda>tip.
       Inr (rq\<lparr> rq_max_fee_per_gas := Some (max doubled twice),
                rq_max_priority_fee_per_gas := Some (max tip 1) \<rparr>))))"

definition replacement_signer_ok :: "envelope \<Rightarrow> address \<Rightarrow> address \<Rightarrow> u64 \<Rightarrow> unit result" where
  "replacement_signer_ok old signer sender nonce =
     and_then (if signer = sender
               then and_then (ok_or (en_recovered old) ''signature recovery failed'') (\<lambda>recovered.
                    Inr (recovered = sender \<and> en_nonce old = nonce))
               else Inr False) (\<lambda>ok.
     ensure ok ''replacement signer/nonce mismatch'')"

definition bump ::
  "evm_env \<Rightarrow> session \<Rightarrow> string \<Rightarrow> string \<Rightarrow> transaction \<Rightarrow> (deploy_world, transaction) io" where
  "bump E s signer_key key saved =
     (case saved of
        CosmosTxn _ _ _ _ _ _ \<Rightarrow> io_raise (Report ''expected EVM transaction'')
      | EvmTx intent raw _ sender nonce _ \<Rightarrow>
          io_bind (io_lift (ok_or (ev_decode E raw) ''invalid signed transaction'')) (\<lambda>old.
          io_bind (io_lift (ok_or (ev_signer E signer_key) ''invalid signing key'')) (\<lambda>signer.
          io_bind (io_lift (replacement_signer_ok old signer sender nonce)) (\<lambda>_.
          io_bind (ask E (ev_gas_price E)) (\<lambda>fees.
          io_bind (io_lift (raise_fees old fees (ev_request_of E old sender))) (\<lambda>request.
          io_bind (io_lift (endpoints_connect E [ss_rpc s])) (\<lambda>urls.
          io_bind (fill_and_sign E urls signer_key request) (\<lambda>envelope.
          io_bind (io_lift (validate_replacement E old envelope)) (\<lambda>_.
          io_bind (io_gets dw_journal) (\<lambda>j.
          io_bind (io_lift (check_budget (ev_parse_u256 E) (ss_plan s) j sender
            (gas_cost_of envelope) (Some key))) (\<lambda>_.
          io_bind (ask E (\<lambda>k. ev_balance E k sender)) (\<lambda>balance.
          io_bind (io_ensure (balance \<ge> gas_cost_of envelope + en_value old)
            ''replacement signer lacks funds for gas and value'') (\<lambda>_.
          io_bind (ask E (\<lambda>k. Inr (ev_confirm E k))) (\<lambda>approved.
          if \<not> approved then io_raise (Paused ''replacement declined'')
          else
            let replacement = EvmTx intent (en_raw envelope) (en_hash envelope) sender nonce
                  (show_word (gas_cost_of envelope)) in
            io_bind (commit E (journal_replace key replacement)) (\<lambda>_.
            io_return replacement)))))))))))))))"

subsection \<open>Resuming and sending\<close>

definition wait_seconds :: "session option \<Rightarrow> nat" where
  "wait_seconds ss = (case ss of Some s \<Rightarrow> unat (op_evm_wait_seconds (ss_options s)) | None \<Rightarrow> 0)"

definition resume ::
  "evm_env \<Rightarrow> session option \<Rightarrow> string \<Rightarrow> transaction \<Rightarrow> b256 \<Rightarrow> string \<Rightarrow> (deploy_world, receipt) io" where
  "resume E ss signer_key saved intent key =
     (case saved of
        CosmosTxn _ _ _ _ _ _ \<Rightarrow> io_raise (Report ''journal transaction type mismatch'')
      | EvmTx expected raw h sender nonce _ \<Rightarrow>
          io_bind (io_ensure (expected = intent \<and> ev_keccak E raw = h)
            ''journal intent or signed bytes mismatch'') (\<lambda>_.
          io_bind (competing_attempts ss key saved) (\<lambda>attempts.
          io_bind (io_gets (\<lambda>w. dw_now w + 1000 * wait_seconds ss)) (\<lambda>deadline.
          io_bind (io_gets (\<lambda>w. if ss = None then Finalized
                                else jn_evm_confirmations (dw_journal w))) (\<lambda>policy.
          io_bind (included E ss attempts) (\<lambda>found.
          case found of
            Some rc \<Rightarrow> wait_confirmed E ss rc deadline policy
          | None \<Rightarrow>
              io_bind (ask E (\<lambda>k. ev_count E k sender)) (\<lambda>current.
              io_bind (io_ensure (current \<le> nonce)
                ''nonce consumed but recorded transaction unavailable'') (\<lambda>_.
              io_bind (case ss of
                         Some s \<Rightarrow>
                           if op_bump_fees (ss_options s) = Some key
                           then io_bind (bump E s signer_key key saved) (\<lambda>b.
                                io_return (attempts @ [b]))
                           else io_return attempts
                       | None \<Rightarrow> io_return attempts) (\<lambda>attempts.
              io_bind (io_lift (ok_or (if attempts = [] then None else Some (last attempts))
                ''missing EVM attempt'')) (\<lambda>latest.
              io_bind (broadcast E latest) (\<lambda>_.
              io_bind (await_inclusion E ss attempts deadline) (\<lambda>rc.
              wait_confirmed E ss rc deadline policy))))))))))))"

definition validate_retry_fields :: "envelope \<Rightarrow> envelope \<Rightarrow> unit result" where
  "validate_retry_fields old new =
     ensure (en_nonce new > en_nonce old
       \<and> en_chain_id old = en_chain_id new
       \<and> en_kind old = en_kind new
       \<and> en_value old = en_value new
       \<and> en_input old = en_input new
       \<and> en_access_list old = en_access_list new
       \<and> en_authorization_list old = en_authorization_list new
       \<and> en_blob_versioned_hashes old = en_blob_versioned_hashes new)
       ''retry must advance the nonce and preserve chain, destination, value and calldata''"

definition validate_retry :: "evm_env \<Rightarrow> journal \<Rightarrow> string \<Rightarrow> envelope \<Rightarrow> unit result" where
  "validate_retry E j key new =
     (if past_attempts j key = [] then Inr ()
      else case last (past_attempts j key) of
        CosmosTxn _ _ _ _ _ _ \<Rightarrow> Inr ()
      | EvmTx _ raw _ sender _ _ \<Rightarrow>
          and_then (ok_or (ev_decode E raw) ''invalid signed transaction'') (\<lambda>old.
          and_then (validate_retry_fields old new) (\<lambda>_.
          and_then (ok_or (en_recovered new) ''signature recovery failed'') (\<lambda>signer.
          ensure (signer = sender) ''retry signer differs from retired attempt''))))"

definition send ::
  "evm_env \<Rightarrow> bool \<Rightarrow> session option \<Rightarrow> (string \<times> string) option \<Rightarrow> tx_request \<Rightarrow> string
   \<Rightarrow> (deploy_world, receipt) io" where
  "send E hardened_required ss scope request label =
     io_bind (io_lift (validate_context hardened_required (ss \<noteq> None))) (\<lambda>_.
     io_bind (io_lift (ok_or ss ''missing hardened deployment session'')) (\<lambda>s.
     io_bind (io_lift (ok_or scope ''missing action scope'')) (\<lambda>(step, signer_key).
     io_bind (io_lift (ok_or (ev_signer E signer_key) ''invalid signing key'')) (\<lambda>signer.
     io_bind (ask E (ev_chain_id E)) (\<lambda>chain.
     io_bind (io_ensure (chain = pl_evm_chain_id (ss_plan s)) ''EVM RPC network changed'') (\<lambda>_.
     io_bind (io_gets (\<lambda>w. bt_get (jn_retry_gas_limits (dw_journal w)) (action_key step label))) (\<lambda>limit.
     let key = action_key step label;
         named = request\<lparr> rq_from := Some signer, rq_chain_id := Some (pl_evm_chain_id (ss_plan s)) \<rparr>;
         request = (case limit of Some l \<Rightarrow> named\<lparr> rq_gas := Some l \<rparr> | None \<Rightarrow> named) in
     io_bind (io_lift (intent_hash (ev_keccak E) request)) (\<lambda>intent.
     io_bind (io_gets (\<lambda>w. session_get (dw_journal w) key)) (\<lambda>saved.
     case saved of
       Some t \<Rightarrow> resume E ss signer_key t intent key
     | None \<Rightarrow>
         io_bind (case rq_nonce request of
                    None \<Rightarrow> io_return ()
                  | Some nonce \<Rightarrow>
                      io_bind (ask E (\<lambda>k. ev_count E k signer)) (\<lambda>count.
                      io_ensure (count = nonce) ''pinned deployment nonce was consumed'')) (\<lambda>_.
         io_bind (ask E (\<lambda>k. ev_call E k request)) (\<lambda>_.
         io_bind (io_lift (endpoints_connect E [ss_rpc s])) (\<lambda>urls.
         io_bind (fill_and_sign E urls signer_key request) (\<lambda>envelope.
         io_bind (io_gets dw_journal) (\<lambda>j.
         io_bind (io_lift (validate_retry E j key envelope)) (\<lambda>_.
         io_bind (io_lift (check_budget (ev_parse_u256 E) (ss_plan s) j signer
           (gas_cost_of envelope) None)) (\<lambda>_.
         io_bind (ask E (\<lambda>k. Inr (ev_confirm E k))) (\<lambda>approved.
         if \<not> approved then io_raise (Paused ''Transaction declined; it was not submitted'')
         else
           let saved = EvmTx intent (en_raw envelope) (en_hash envelope) signer (en_nonce envelope)
                 (show_word (gas_cost_of envelope)) in
           io_bind (commit E (session_record key saved)) (\<lambda>_.
           resume E ss signer_key saved intent key))))))))))))))))))"

definition reconcile ::
  "evm_env \<Rightarrow> session option \<Rightarrow> string \<Rightarrow> string \<Rightarrow> transaction \<Rightarrow> (deploy_world, unit) io" where
  "reconcile E ss signer_key key saved =
     (case saved of
        EvmTx intent _ _ _ _ _ \<Rightarrow>
          io_bind (resume E ss signer_key saved intent key) (\<lambda>_. io_return ())
      | CosmosTxn _ _ _ _ _ _ \<Rightarrow> io_return ())"

subsection \<open>Proving a failure before a retry\<close>

definition validate_action :: "evm_env \<Rightarrow> string \<Rightarrow> transaction \<Rightarrow> unit result" where
  "validate_action E key saved =
     and_then (ensure (\<not> starts_with ''AxelarGateway/'' key)
       ''gateway CREATE failure consumed a nonce pinned to the address registered on Cosmos'') (\<lambda>_.
     case saved of
       CosmosTxn _ _ _ _ _ _ \<Rightarrow> Inl (Report ''expected EVM action'')
     | EvmTx _ raw h sender nonce _ \<Rightarrow>
         and_then (ok_or (ev_decode E raw) ''invalid signed transaction'') (\<lambda>tx.
         and_then (if en_hash tx = h \<and> en_nonce tx = nonce
                   then and_then (ok_or (en_recovered tx) ''signature recovery failed'') (\<lambda>signer.
                        Inr (signer = sender))
                   else Inr False) (\<lambda>ok.
         and_then (ensure ok ''journal signed EVM transaction identity mismatch'') (\<lambda>_.
         if en_kind tx = Create
         then ensure (key \<in> {''EvmCompatibilityCheck/deploy compatibility probe'',
                ''ConstAddressDeployer/ConstAddressDeployer'',
                ''AxelarGasService/gas implementation'', ''AxelarGasService/gas proxy''})
              ''CREATE action has no safe address-preserving recovery policy''
         else Inr ()))))"

definition later_nonce_signed :: "journal \<Rightarrow> address \<Rightarrow> u64 \<Rightarrow> bool" where
  "later_nonce_signed j sender nonce =
     list_ex (\<lambda>t. is_evm t \<and> tx_sender t = sender \<and> tx_nonce t > nonce) (journal_transactions j)"

definition prove_with_provider ::
  "evm_env \<Rightarrow> session \<Rightarrow> string \<Rightarrow> transaction \<Rightarrow> (deploy_world, string) io" where
  "prove_with_provider E s key saved =
     io_bind (io_lift (validate_action E key saved)) (\<lambda>_.
     io_bind (competing_attempts (Some s) key saved) (\<lambda>attempts.
     io_bind (io_lift (all_ok (validate_action E key) attempts)) (\<lambda>_.
     io_bind (case saved of
                EvmTx _ raw _ sender nonce _ \<Rightarrow>
                  io_bind (io_lift (ok_or (ev_decode E raw) ''invalid signed transaction'')) (\<lambda>tx.
                  if en_kind tx = Create
                  then io_bind (io_gets (\<lambda>w. later_nonce_signed (dw_journal w) sender nonce)) (\<lambda>later.
                       io_ensure (\<not> later)
                         ''a later transaction is already signed by this CREATE deployer'')
                  else io_return ())
              | CosmosTxn _ _ _ _ _ _ \<Rightarrow> io_return ()) (\<lambda>_.
     io_bind (included E (Some s) attempts) (\<lambda>found.
     io_bind (io_lift (ok_or found
       ''no receipt proving failure; unknown transactions cannot be retired'')) (\<lambda>rc.
     io_bind (io_ensure (\<not> rc_status rc) ''successful transactions cannot be retried'') (\<lambda>_.
     io_bind (io_gets (\<lambda>w. dw_now w + 1000 * wait_seconds (Some s))) (\<lambda>deadline.
     io_bind (wait_receipt E (Some s) deadline Finalized (rc_transaction_hash rc) rc) (\<lambda>rc'.
     io_bind (io_ensure (\<not> rc_status rc')
       ''transaction became successful while waiting; cannot retire it'') (\<lambda>_.
     io_return (ev_show_hash E (rc_transaction_hash rc'))))))))))))"

definition prove ::
  "evm_env \<Rightarrow> session \<Rightarrow> string \<Rightarrow> transaction \<Rightarrow> (deploy_world, string) io" where
  "prove E s key saved =
     io_bind (ask E (ev_chain_id E)) (\<lambda>chain.
     io_bind (io_ensure (chain = pl_evm_chain_id (ss_plan s)) ''recovery RPC network mismatch'') (\<lambda>_.
     prove_with_provider E s key saved))"

end
