(* ===== verification/Evm_Write_Ahead.thy ===== *)
theory Evm_Write_Ahead
  imports Evm_Recovery
begin

text \<open>
  Write-ahead journaling of EVM transactions.  \<open>steady\<close> says that a computation keeps a journal
  that is the same in memory and on disk, holds given transactions and covers everything
  broadcast; \<open>safe\<close> is what remains true when it fails.  \<open>knows\<close> says that nothing journaled is
  lost.
\<close>

subsection \<open>Nothing is broadcast before it is on disk\<close>

definition raws :: "journal \<Rightarrow> bytes set" where
  "raws j = tx_raw ` snd ` known j"

lemma raws_mono: "known j \<subseteq> known j' \<Longrightarrow> raws j \<subseteq> raws j'"
  by (simp add: raws_def image_mono)

definition safe :: "deploy_world \<Rightarrow> bool" where
  "safe w = (journal_wf (dw_disk w) \<and> set (dw_sent w) \<subseteq> raws (dw_disk w))"

definition coherent :: "deploy_world \<Rightarrow> bool" where
  "coherent w = (dw_disk w = dw_journal w \<and> journal_wf (dw_journal w))"

text \<open>The journal holds every transaction of \<open>A\<close> under \<open>key\<close>, in memory and on disk.\<close>

definition holding :: "string \<Rightarrow> transaction set \<Rightarrow> deploy_world \<Rightarrow> bool" where
  "holding key A w = (coherent w \<and> safe w \<and> Pair key ` A \<subseteq> known (dw_journal w))"

definition steady :: "string \<Rightarrow> transaction set \<Rightarrow> (deploy_world, 'a) io \<Rightarrow> bool" where
  "steady key A m = triple (holding key A) m (\<lambda>_. holding key A) (\<lambda>_. safe)"

lemma holding_safe: "holding key A w \<Longrightarrow> safe w"
  by (simp add: holding_def)

lemma steady_bind [intro]:
  "steady key A m \<Longrightarrow> (\<And>x. steady key A (f x)) \<Longrightarrow> steady key A (io_bind m f)"
  unfolding steady_def by (rule triple_bind)

lemma steady_quiet [intro]:
  assumes "\<And>w0. keeps (quiet w0) m"
  shows "steady key A m"
  unfolding steady_def
proof (rule triple_intro)
  show "holding key A w'" if "holding key A w" "m w = (Inr x, w')" for w x w'
    using that(1) quiet_run [OF assms that(2)]
    by (auto simp: holding_def coherent_def safe_def quiet_def)
  show "safe w'" if "holding key A w" "m w = (Inl e, w')" for w e w'
    using that(1) quiet_run [OF assms that(2)]
    by (auto simp: holding_def safe_def quiet_def)
qed

lemma steady_if [intro]: "(c \<Longrightarrow> steady key A a) \<Longrightarrow> (\<not> c \<Longrightarrow> steady key A b) \<Longrightarrow> steady key A (if c then a else b)"
  by simp

lemma steady_option [intro]:
  "steady key A a \<Longrightarrow> (\<And>x. steady key A (b x)) \<Longrightarrow> steady key A (case r of None \<Rightarrow> a | Some x \<Rightarrow> b x)"
  by (cases r) auto

lemma steadyD:
  assumes "steady key A m" "holding key A w"
  shows "m w = (Inr x, w') \<Longrightarrow> holding key A w'" and "m w = (Inl e, w') \<Longrightarrow> safe w'"
  using assms unfolding steady_def by (blast dest: triple_Inr triple_Inl)+

lemma commit_run:
  assumes "commit E m w = (r, w')" and "m (dw_journal w) = (r0, j)"
  shows "dw_sent w' = dw_sent w \<and> dw_journal w' = j \<and> dw_now w' = dw_now w \<and>
    (dw_disk w' = dw_disk w \<or> dw_disk w' = j) \<and>
    (\<forall>u. r = Inr u \<longrightarrow> dw_disk w' = j \<and> r0 = Inr ())"
  using assms
  by (cases r0) (auto simp: commit_def write_journal_def Let_def split: write_outcome.splits)

lemma commit_step:
  assumes "holding key A w" and "commit E (journal_step f) w = (r, w')"
  shows "safe w'"
    and "r = Inr u \<Longrightarrow> holding key A w' \<and> journal_step f (dw_journal w) = (Inr (), dw_journal w')"
proof -
  obtain r0 j where run: "journal_step f (dw_journal w) = (r0, j)" by fastforce
  note c = commit_run [OF assms(2) run]
  have wf: "journal_wf (dw_journal w)" and disk: "dw_disk w = dw_journal w"
    using assms(1) by (simp_all add: holding_def coherent_def)
  have grow: "known (dw_journal w) \<subseteq> known j" using journal_step_known [OF wf, of f] run by simp
  moreover have "journal_wf j" using journal_step_wf [OF wf, of f] run by simp
  ultimately show "safe w'"
    using c assms(1) disk raws_mono [OF grow] by (auto simp: safe_def holding_def)
  then show "r = Inr u \<Longrightarrow> holding key A w' \<and> journal_step f (dw_journal w) = (Inr (), dw_journal w')"
    using c assms(1) grow run journal_step_wf [OF wf, of f]
    by (auto simp: holding_def coherent_def)
qed

lemma steady_commit [intro]: "steady key A (commit E (journal_step f))"
  unfolding steady_def by (rule triple_intro) (use commit_step in blast)+

lemma steady_confirm [intro]: "steady key A (confirm_receipt E ss rc)"
  using steady_commit [of key A E "Confirm h c" for h c]
  by (auto simp: confirm_receipt_def)

text \<open>The same from one world, for the loops.\<close>

definition steady_at :: "string \<Rightarrow> transaction set \<Rightarrow> (deploy_world, 'a) io \<Rightarrow> deploy_world \<Rightarrow> bool" where
  "steady_at key A m w =
     (holding key A w \<longrightarrow> safe (snd (m w)) \<and> (is_ok (fst (m w)) \<longrightarrow> holding key A (snd (m w))))"

lemma steady_at_intro: "steady key A m \<Longrightarrow> steady_at key A m w"
  by (cases "m w"; cases "fst (m w)") (auto simp: steady_at_def holding_safe dest: steadyD)

lemma steady_at_bind:
  assumes "steady key A m" and "\<And>x w'. m w = (Inr x, w') \<Longrightarrow> steady_at key A (f x) w'"
  shows "steady_at key A (io_bind m f) w"
proof (cases "m w")
  case (Pair r w')
  with assms steady_at_intro [OF assms(1), of w] show ?thesis
    by (cases r) (auto simp: steady_at_def io_bind_def)
qed

lemma steady_at_if:
  "(c \<Longrightarrow> steady_at key A a w) \<Longrightarrow> (\<not> c \<Longrightarrow> steady_at key A b w) \<Longrightarrow> steady_at key A (io_if c a b) w"
  by (cases c) simp_all

lemma steady_of_at: "(\<And>w. steady_at key A m w) \<Longrightarrow> steady key A m"
  unfolding steady_def by (rule triple_intro) (force simp: steady_at_def dest: meta_spec)+

lemma steady_wait_receipt_at: "steady_at key A (wait_receipt E ss deadline policy h rc) w"
proof (induction E ss deadline policy h rc w rule: wait_receipt.induct)
  case (1 E ss deadline policy h rc w)
  note step = steady_at_bind [OF steady_quiet]
  show ?case
    apply (subst wait_receipt.simps [abs_def])
    apply (rule step, simp)+
    apply (rule steady_at_if)
     apply (rule steady_at_intro)
     apply (intro steady_bind steady_confirm steady_quiet; simp)
    apply (rule step, simp, rule steady_at_if)
     apply (rule steady_at_intro, rule steady_quiet, simp)
    apply (rule step, simp add: keeps_option)+
    apply (rule 1)
    apply assumption+
    done
qed

lemma steady_wait_receipt [intro]: "steady key A (wait_receipt E ss deadline policy h rc)"
  by (rule steady_of_at) (rule steady_wait_receipt_at)

lemma steady_wait_confirmed [intro]: "steady key A (wait_confirmed E ss rc deadline policy)"
  unfolding wait_confirmed_def by (intro steady_bind steady_wait_receipt steady_quiet) simp_all

lemma keeps_await_inclusion_at: "quiet w (snd (await_inclusion E ss attempts deadline w))"
proof (induction E ss attempts deadline w rule: await_inclusion.induct)
  case (1 E ss attempts deadline w)
  obtain r v where inc: "included E ss attempts w = (r, v)" by fastforce
  have q: "quiet w v" by (rule quiet_run [OF keeps_included inc])
  show ?case
  proof (cases "r = Inr None \<and> dw_now v < deadline")
    case True
    let ?v = "tick 5000 v"
    have "quiet ?v (snd (await_inclusion E ss attempts deadline ?v))"
      by (rule 1) (use inc True in \<open>auto simp: sleep_secs_def\<close>)
    moreover have "quiet w ?v" using q by (simp add: quiet_def tick_def)
    moreover have "await_inclusion E ss attempts deadline w = await_inclusion E ss attempts deadline ?v"
      using inc True
      by (subst await_inclusion.simps) (simp add: io_bind_def io_if_def sleep_secs_def)
    ultimately show ?thesis by (metis quiet_trans)
  next
    case False
    then show ?thesis
      using inc q
      by (subst await_inclusion.simps) (cases r, auto simp: io_bind_def io_if_def)
  qed
qed

lemma keeps_await_inclusion [simp]: "keeps (quiet w0) (await_inclusion E ss attempts deadline)"
  by (rule keepsI) (metis keeps_await_inclusion_at quiet_trans snd_conv)

lemma steady_log:
  assumes "t \<in> A"
  shows "steady key A (io_modify (\<lambda>w. w\<lparr> dw_sent := tx_raw t # dw_sent w \<rparr>))"
  unfolding steady_def
proof (rule triple_intro)
  fix w x w' assume hold: "holding key A w"
    and "io_modify (\<lambda>w. w\<lparr> dw_sent := tx_raw t # dw_sent w \<rparr>) w = (Inr x, w')"
  then have w': "w' = w\<lparr> dw_sent := tx_raw t # dw_sent w \<rparr>" by simp
  have "(key, t) \<in> known (dw_journal w)" using hold assms by (auto simp: holding_def)
  then have "tx_raw t \<in> raws (dw_journal w)" by (force simp: raws_def)
  then show "holding key A w'" using hold by (auto simp: w' holding_def coherent_def safe_def)
qed simp

lemma broadcast_steady:
  assumes "t \<in> A"
  shows "steady key A (broadcast E t)"
proof (cases t)
  case (EvmTx i raw h s n g)
  show ?thesis
    unfolding broadcast_def EvmTx transaction.case
    using steady_log [OF assms, of key]
    by (intro steady_bind steady_if) (auto simp: EvmTx intro!: steady_quiet keeps_sum keeps_try)
qed (auto simp: broadcast_def intro!: steady_quiet)

lemma steady_then:
  "steady key A m \<Longrightarrow> (\<And>x. triple (holding key A) (f x) Q (\<lambda>_. safe)) \<Longrightarrow>
   triple (holding key A) (io_bind m f) Q (\<lambda>_. safe)"
  unfolding steady_def by (rule triple_bind)

lemma triple_steady:
  "steady key A m \<Longrightarrow> (\<And>x w. holding key A w \<Longrightarrow> Q x w) \<Longrightarrow> triple (holding key A) m Q (\<lambda>_. safe)"
  unfolding steady_def
  by (rule triple_conseq [of "holding key A" m "\<lambda>_. holding key A" "\<lambda>_. safe"]) auto

lemma triple_if:
  "(c \<Longrightarrow> triple P a Q R) \<Longrightarrow> (\<not> c \<Longrightarrow> triple P b Q R) \<Longrightarrow> triple P (if c then a else b) Q R"
  by simp

lemma triple_pause [simp]: "triple (holding key A) (io_raise e) Q (\<lambda>_. safe)"
  by (rule triple_raise) (simp add: holding_safe)

lemma record_holding:
  "triple (holding key A) (commit E (session_record key t)) (\<lambda>_. holding key (insert t A)) (\<lambda>_. safe)"
proof (rule triple_intro)
  fix w x w' assume hold: "holding key A w" and run: "commit E (session_record key t) w = (Inr x, w')"
  note step = commit_step(2) [OF hold, of E "Record key t", unfolded journal_step.simps, OF run refl]
  then have rec: "session_record key t (dw_journal w) = (Inr (), dw_journal w')" by blast
  from step show "holding key (insert t A) w'"
    using session_record_known [OF rec] hold by (auto simp: holding_def)
next
  fix w e w' assume hold: "holding key A w" and run: "commit E (session_record key t) w = (Inl e, w')"
  then show "safe w'"
    using commit_step(1) [OF hold, of E "Record key t", unfolded journal_step.simps] by blast
qed

lemma replace_holding:
  "triple (holding key A) (commit E (journal_replace key t)) (\<lambda>_. holding key (insert t A)) (\<lambda>_. safe)"
proof (rule triple_intro)
  fix w x w' assume hold: "holding key A w" and run: "commit E (journal_replace key t) w = (Inr x, w')"
  note step = commit_step(2) [OF hold, of E "Replace key t", unfolded journal_step.simps, OF run refl]
  then have rep: "journal_replace key t (dw_journal w) = (Inr (), dw_journal w')" by blast
  from step show "holding key (insert t A) w'"
    using journal_replace_known [OF rep] hold by (auto simp: holding_def)
next
  fix w e w' assume hold: "holding key A w" and run: "commit E (journal_replace key t) w = (Inl e, w')"
  then show "safe w'"
    using commit_step(1) [OF hold, of E "Replace key t", unfolded journal_step.simps] by blast
qed

lemma bump_holding:
  "triple (holding key A) (bump E s signer_key key saved) (\<lambda>b. holding key (insert b A)) (\<lambda>_. safe)"
proof (cases saved)
  case (EvmTx intent raw h sender nonce g)
  show ?thesis
    unfolding bump_def EvmTx transaction.case Let_def
    apply (rule steady_then, rule steady_quiet, (simp; fail))+
    apply (rule triple_if, simp)
    apply (rule triple_bind [OF replace_holding])
    apply (rule triple_return, simp)
    done
qed (simp add: bump_def)

lemma competing_attempts_holding:
  "triple (holding key {saved}) (competing_attempts ss key saved)
     (\<lambda>as. holding key (insert saved (set as))) (\<lambda>_. safe)"
proof (cases saved)
  case (EvmTx i raw h sender nonce g)
  have "(key, t) \<in> known j" if "t \<in> set (journal_attempts j key saved)" "(key, saved) \<in> known j" for t j
    using that by (auto simp: journal_attempts_def known_def)
  then show ?thesis
    by (auto simp: triple_def competing_attempts_def EvmTx holding_def split: if_splits)
qed (auto simp: triple_def competing_attempts_def holding_def)

lemma holding_subset: "holding key A w \<Longrightarrow> B \<subseteq> A \<Longrightarrow> holding key B w"
  by (auto simp: holding_def)

lemma resume_holding:
  "triple (holding key {saved}) (resume E ss signer_key saved intent key)
     (\<lambda>_. holding key {saved}) (\<lambda>_. safe)"
proof (cases saved)
  case (EvmTx expected raw h sender nonce g)
  have wait: "triple (holding key (insert saved (set as))) (wait_confirmed E ss rc d p)
      (\<lambda>_. holding key {saved}) (\<lambda>_. safe)" for as rc d p
    by (rule triple_steady [OF steady_wait_confirmed]) (auto elim: holding_subset)
  have attempts: "triple (holding key (insert saved (set as)))
      (case ss of
         Some s \<Rightarrow> if op_bump_fees (ss_options s) = Some key
           then io_bind (bump E s signer_key key saved) (\<lambda>b. io_return (as @ [b]))
           else io_return as
       | None \<Rightarrow> io_return as)
      (\<lambda>as. holding key (insert saved (set as))) (\<lambda>_. safe)" for as
    by (cases ss)
      (auto intro!: triple_bind [OF bump_holding] triple_return simp: insert_commute)
  have rest: "triple (holding key (insert saved (set as)))
      (io_bind (io_lift (ok_or (if as = [] then None else Some (last as)) ''missing EVM attempt''))
        (\<lambda>latest. io_bind (broadcast E latest) (\<lambda>_. io_bind (await_inclusion E ss as d) (\<lambda>rc.
         wait_confirmed E ss rc d p)))) (\<lambda>_. holding key {saved}) (\<lambda>_. safe)" for as d p
  proof (cases "as = []")
    case True
    then show ?thesis by (auto simp: triple_def io_bind_def holding_safe)
  next
    case False
    then have "last as \<in> insert saved (set as)" by simp
    then have "triple (holding key (insert saved (set as)))
      (io_bind (broadcast E (last as)) (\<lambda>_. io_bind (await_inclusion E ss as d) (\<lambda>rc.
         wait_confirmed E ss rc d p))) (\<lambda>_. holding key {saved}) (\<lambda>_. safe)"
      by (intro steady_then broadcast_steady wait) (auto intro: steady_quiet)
    with False show ?thesis by (simp add: triple_def io_bind_def)
  qed
  show ?thesis
    unfolding resume_def EvmTx transaction.case
    apply (rule steady_then, rule steady_quiet, (simp; fail))
    apply (rule triple_bind [OF competing_attempts_holding [of key saved, unfolded EvmTx]])
    apply (rule steady_then, rule steady_quiet, (simp; fail))+
    apply (split option.split, intro conjI impI allI)
     apply (rule steady_then, rule steady_quiet, (simp; fail))+
     apply (rule triple_bind [OF attempts [unfolded EvmTx]])
     apply (rule rest [unfolded EvmTx])
    apply (rule wait [unfolded EvmTx])
    done
qed (simp add: resume_def)

lemma holding_empty: "holding key {} w \<longleftrightarrow> coherent w \<and> safe w"
  by (simp add: holding_def)

lemma session_get_holding:
  "triple (holding key {}) (io_gets (\<lambda>w. session_get (dw_journal w) k))
     (\<lambda>saved w. case saved of Some t \<Rightarrow> holding k {t} w | None \<Rightarrow> holding key {} w) (\<lambda>_. safe)"
  by (auto simp: triple_def holding_def session_get_def known_def split: option.splits)

lemma record_fresh:
  "triple (holding key {}) (commit E (session_record k t)) (\<lambda>_. holding k {t}) (\<lambda>_. safe)"
  by (rule triple_conseq [OF record_holding [of k "{}"]]) (auto simp: holding_def)

lemma send_holding:
  "triple (holding key {}) (send E hardened ss scope request label)
     (\<lambda>_. holding key {}) (\<lambda>_. safe)"
proof -
  have resume: "triple (holding k {t}) (resume E ss sk t intent k) (\<lambda>_. holding key {}) (\<lambda>_. safe)"
    for k t sk intent
    by (rule triple_conseq [OF resume_holding]) (auto simp: holding_def)
  have nonce: "keeps (quiet w0) (case n of None \<Rightarrow> io_return ()
      | Some nonce \<Rightarrow> io_bind (ask E (\<lambda>k. ev_count E k signer)) (\<lambda>count.
          io_ensure (count = nonce) msg))" for w0 n signer msg
    by (intro keeps_option keeps_bind) simp_all
  show ?thesis
    unfolding send_def Let_def
    apply (rule steady_then, rule steady_quiet, (simp; fail))+
    apply (split prod.split, intro allI impI)
    apply (rule triple_bind [OF session_get_holding] | (rule steady_then, rule steady_quiet, (simp; fail)))+
    apply (split option.split, intro conjI impI allI)
     apply (simp only: option.case)
     apply (rule steady_then, rule steady_quiet, rule nonce)
     apply (rule steady_then, rule steady_quiet, (simp; fail))+
     apply (rule triple_if, simp)
     apply (rule triple_bind [OF record_fresh], rule resume)
    apply (simp only: option.case)
    apply (rule resume)
    done
qed

text \<open>
  C6: Write-ahead journaling.  Start from a session whose journal on disk is the one in memory and
  records everything broadcast so far.  However a deployment transaction is then sent (fresh,
  resumed or fee-bumped), and whatever the nodes, the disk and the operator answer along the
  way, every raw transaction ever broadcast is recorded in the journal on disk when the call
  ends, with a receipt or with an error.
\<close>

theorem send_write_ahead:
  assumes "coherent w" and "set (dw_sent w) \<subseteq> raws (dw_disk w)"
    and "send E hardened ss scope request label w = (r, w')"
  shows "set (dw_sent w') \<subseteq> raws (dw_disk w')"
proof -
  have "holding [] {} w" using assms(1,2) by (simp add: holding_empty safe_def coherent_def)
  then have "safe w'"
    using send_holding [of "[]" E hardened ss scope request label] assms(3)
    by (cases r) (auto dest: triple_Inr triple_Inl holding_safe)
  then show ?thesis by (simp add: safe_def)
qed

definition sample_envelope :: envelope where
  "sample_envelope =
     \<lparr> en_ty = 2, en_chain_id = Some 143, en_nonce = 3, en_gas_limit = 21, en_max_fee_per_gas = 30,
       en_gas_price = None, en_max_priority_fee_per_gas = Some 1, en_kind = Call 7, en_value = 0,
       en_input = [1, 2], en_access_list = None, en_authorization_list = None,
       en_blob_versioned_hashes = None, en_recovered = Some 5, en_raw = [1, 2, 3], en_hash = 11 \<rparr>"

definition sample_receipt :: receipt where
  "sample_receipt =
     \<lparr> rc_transaction_hash = 11, rc_block_number = Some 90, rc_block_hash = Some 8, rc_status = True \<rparr>"

text \<open>A node that sees the transaction only after it was broadcast.\<close>

definition sample_env :: evm_env where
  "sample_env =
     \<lparr> ev_keccak = (\<lambda>_. 11), ev_show_hash = (\<lambda>h. if h = 11 then ''0x11'' else ''0x0''),
       ev_parse_u256 = (\<lambda>s. if s = ''1000'' then Some 1000 else if s = ''630'' then Some 630 else None), ev_decode = (\<lambda>bs. if bs = [1, 2, 3] then Some sample_envelope else None),
       ev_request_of = (\<lambda>e s. sample_request), ev_signer = (\<lambda>_. Some 5), ev_url_ok = (\<lambda>_. True),
       ev_latency = (\<lambda>_. 1), ev_jitter = (\<lambda>_ ms. unat ms), ev_chain_id = (\<lambda>_. Inr 143),
       ev_receipt = (\<lambda>k h. Inr (if k < 8 then None else Some sample_receipt)),
       ev_block = (\<lambda>k t. Inr (Some \<lparr> bl_number = 100, bl_hash = 8 \<rparr>)),
       ev_count = (\<lambda>k a. Inr 3), ev_known_tx = (\<lambda>k h. Inr False), ev_send_raw = (\<lambda>k bs. Inr 11),
       ev_call = (\<lambda>k rq. Inr ()), ev_estimate_gas = (\<lambda>k rq. Inr 21), ev_gas_price = (\<lambda>k. Inr 9),
       ev_balance = (\<lambda>k a. Inr 1000000), ev_fill = (\<lambda>k s rq. Inr sample_envelope),
       ev_confirm = (\<lambda>_. True), ev_write = (\<lambda>_. Written) \<rparr>"

definition sample_options :: options where
  "sample_options =
     \<lparr> op_plan = None, op_activate = False, op_evm_confirmations = None, op_evm_wait_seconds = 60,
       op_bump_fees = None, op_cosmos_fee = None, op_retry_failed = None, op_retry_gas_limit = None,
       op_recovery_lcd = None \<rparr>"

definition sample_session :: session where
  "sample_session = \<lparr> ss_plan = sample_plan, ss_rpc = ''http://rpc'', ss_options = sample_options \<rparr>"

definition sample_world :: deploy_world where
  "sample_world =
     \<lparr> dw_journal = new_journal 9, dw_disk = new_journal 9, dw_now = 0, dw_calls = 0, dw_sent = [] \<rparr>"

definition sample_send :: "receipt result \<times> deploy_world" where
  "sample_send = send sample_env True (Some sample_session) (Some (''Operators'', ''key''))
     sample_request ''deploy'' sample_world"

lemma sample_world_coherent: "coherent sample_world"
  by (simp add: coherent_def sample_world_def journal_wf_def new_journal_def)

text \<open>Unfolding these runs the code on a concrete world.\<close>

lemmas evm_eval =
  io_bind_def io_if_def io_try_def ask_def tick_def sleep_secs_def commit_def write_journal_def
  cached_confirmation_def competing_attempts_def broadcast_def await_inclusion.simps
  wait_confirmed_def wait_receipt.simps confirm_receipt_def canonical_def resume_def send_def
  fill_and_sign_def prepare_fill_def fill_and_sign_once_def retry_with_fallback_def
  endpoints_connect_def validate_retry_def validate_context_def wait_seconds_def gas_cost_of_def
  intent_hash_def is_evm_def Let_def

lemmas journal_eval =
  journal_confirmation_def journal_attempts_def past_attempts_def journal_confirm_def
  session_record_run session_get_def bt_contains_def bt_get_def bt_empty_def bt_values_def
  required_height_def policy_default_def policy_block_tag_def check_budget_def evm_liability_def
  journal_transactions_def checked_add_def new_journal_def action_key_def

lemmas sample_eval =
  sample_env_def sample_world_def sample_session_def sample_options_def sample_receipt_def
  sample_envelope_def sample_plan_def

lemma sample_send_run:
  "fst sample_send = Inr sample_receipt \<and> dw_sent (snd sample_send) = [[1, 2, 3]]"
  unfolding sample_send_def
  by (simp add: evm_eval journal_eval sample_eval AVALANCHE_FUJI_CHAIN_ID_def FALLBACK_ATTEMPTS_def
      intent_bytes_def sample_request_def)

theorem send_write_ahead_witness:
  "fst sample_send = Inr sample_receipt \<and> dw_sent (snd sample_send) = [[1, 2, 3]] \<and>
   set (dw_sent (snd sample_send)) \<subseteq> raws (dw_disk (snd sample_send))"
proof -
  obtain r w' where run: "sample_send = (r, w')" by fastforce
  note sample_send_run
  moreover have "set (dw_sent w') \<subseteq> raws (dw_disk w')"
    by (rule send_write_ahead [OF sample_world_coherent _ run [unfolded sample_send_def]])
      (simp add: sample_world_def)
  ultimately show ?thesis using run by (metis snd_conv)
qed

subsection \<open>Nothing known is lost along the way\<close>

definition knows :: "(string \<times> transaction) set \<Rightarrow> deploy_world \<Rightarrow> bool" where
  "knows K w = (journal_wf (dw_journal w) \<and> K \<subseteq> known (dw_journal w))"

text \<open>Invariants that reads cannot disturb.\<close>

definition quiet_stable :: "(deploy_world \<Rightarrow> bool) \<Rightarrow> bool" where
  "quiet_stable I = (\<forall>w w'. I w \<longrightarrow> quiet w w' \<longrightarrow> I w')"

lemma keeps_stable: "quiet_stable I \<Longrightarrow> (\<And>w0. keeps (quiet w0) m) \<Longrightarrow> keeps I m"
  by (rule keepsI) (metis quiet_run quiet_stable_def)

lemma quiet_stable_knows [simp]: "quiet_stable (knows K)"
  by (auto simp: quiet_stable_def quiet_def knows_def)

lemma keeps_knows_quiet: "(\<And>w0. keeps (quiet w0) m) \<Longrightarrow> keeps (knows K) m"
  by (rule keeps_stable) simp_all

lemma keeps_knows_commit [simp]: "keeps (knows K) (commit E (journal_step f))"
proof (rule keepsI)
  fix w r w' assume k: "knows K w" and run: "commit E (journal_step f) w = (r, w')"
  obtain r0 j where step: "journal_step f (dw_journal w) = (r0, j)" by fastforce
  have "dw_journal w' = j" using commit_run [OF run step] by blast
  then show "knows K w'"
    using k step journal_step_wf [of "dw_journal w" f] journal_step_known [of "dw_journal w" f]
    by (auto simp: knows_def)
qed

lemmas keeps_knows_ops =
  keeps_knows_commit [of _ _ "Record key t" for key t, unfolded journal_step.simps]
  keeps_knows_commit [of _ _ "Replace key t" for key t, unfolded journal_step.simps]
  keeps_knows_commit [of _ _ "Retire key limit" for key limit, unfolded journal_step.simps]
  keeps_knows_commit [of _ _ "Confirm h c" for h c, unfolded journal_step.simps]

declare keeps_knows_ops [simp]

lemma keeps_transaction [hoare_rules]:
  "(\<And>i r h s n g. keeps I (a i r h s n g)) \<Longrightarrow> (\<And>i r h s f n. keeps I (b i r h s f n)) \<Longrightarrow>
   keeps I (case t of EvmTx i r h s n g \<Rightarrow> a i r h s n g | CosmosTxn i r h s f n \<Rightarrow> b i r h s f n)"
  by (cases t) simp_all

lemma keeps_knows_confirm [simp]: "keeps (knows K) (confirm_receipt E ss rc)"
  by (simp add: confirm_receipt_def)

lemma keeps_knows_log [simp]: "keeps (knows K) (io_modify (\<lambda>w. w\<lparr> dw_sent := r # dw_sent w \<rparr>))"
  by (simp add: keeps_def knows_def)

text \<open>The same from one world, for the loop.\<close>

definition keeps_at :: "('w \<Rightarrow> bool) \<Rightarrow> ('w, 'a) io \<Rightarrow> 'w \<Rightarrow> bool" where
  "keeps_at I m w = (I w \<longrightarrow> I (snd (m w)))"

lemma keeps_at_intro: "keeps I m \<Longrightarrow> keeps_at I m w"
  by (simp add: keeps_at_def keeps_def)

lemma keeps_at_bind:
  assumes "keeps I m" and "\<And>x w'. m w = (Inr x, w') \<Longrightarrow> keeps_at I (f x) w'"
  shows "keeps_at I (io_bind m f) w"
proof (cases "m w")
  case (Pair r w')
  with assms keeps_at_intro [OF assms(1), of w] show ?thesis
    by (cases r) (auto simp: keeps_at_def io_bind_def)
qed

lemma keeps_at_if: "(c \<Longrightarrow> keeps_at I a w) \<Longrightarrow> (\<not> c \<Longrightarrow> keeps_at I b w) \<Longrightarrow> keeps_at I (io_if c a b) w"
  by (cases c) simp_all

lemma keeps_wait_receipt_at:
  assumes "quiet_stable I" and "\<And>h c. keeps I (commit E (journal_confirm h c))"
  shows "keeps_at I (wait_receipt E ss deadline policy h rc) w"
  using assms
proof (induction E ss deadline policy h rc w rule: wait_receipt.induct)
  case (1 E ss deadline policy h rc w)
  note step = keeps_at_bind [OF keeps_stable [OF 1(2)]]
  have conf: "keeps I (confirm_receipt E ss rc)" using 1(3) by (simp add: confirm_receipt_def)
  show ?case
    apply (subst wait_receipt.simps [abs_def])
    apply (rule step, simp)+
    apply (rule keeps_at_if)
     apply (rule keeps_at_intro)
     apply (intro keeps_bind; simp add: keeps_stable [OF 1(2)] conf)
    apply (rule step, simp, rule keeps_at_if)
     apply (rule keeps_at_intro, simp)
    apply (rule step, simp add: keeps_option)+
    apply (rule 1(1))
    apply (assumption | rule 1(2,3))+
    done
qed

lemma keeps_wait_receipt:
  assumes "quiet_stable I" and "\<And>h c. keeps I (commit E (journal_confirm h c))"
  shows "keeps I (wait_receipt E ss deadline policy h rc)"
  using keeps_wait_receipt_at [OF assms] by (simp add: keeps_def keeps_at_def)

lemma keeps_knows_wait_receipt [simp]: "keeps (knows K) (wait_receipt E ss deadline policy h rc)"
  by (rule keeps_wait_receipt) simp_all

lemma keeps_knows_wait_confirmed [simp]: "keeps (knows K) (wait_confirmed E ss rc deadline policy)"
  unfolding wait_confirmed_def by (intro keeps_bind) simp_all

lemma keeps_knows_broadcast [simp]: "keeps (knows K) (broadcast E t)"
  unfolding broadcast_def
  by (intro keeps_transaction keeps_bind keeps_if keeps_sum) (simp_all add: keeps_knows_quiet keeps_try)

lemma keeps_knows_bump [simp]: "keeps (knows K) (bump E s signer_key key saved)"
  unfolding bump_def Let_def
  by (intro keeps_transaction keeps_bind keeps_if) (simp_all add: keeps_knows_quiet)

lemma keeps_knows_resume [simp]: "keeps (knows K) (resume E ss signer_key saved intent key)"
  unfolding resume_def
  by (intro keeps_transaction keeps_bind keeps_option keeps_if) (simp_all add: keeps_knows_quiet competing_attempts_def keeps_transaction)

lemma keeps_knows_reconcile [simp]: "keeps (knows K) (reconcile E ss signer_key key saved)"
  unfolding reconcile_def by (intro keeps_transaction keeps_bind) simp_all

lemma keeps_knows_send [simp]: "keeps (knows K) (send E hardened ss scope request label)"
  unfolding send_def Let_def
  by (intro keeps_bind keeps_option keeps_if keeps_prod) (simp_all add: keeps_knows_quiet keeps_option)

end
