(* ===== verification/Evm_Confirmed.thy ===== *)
theory Evm_Confirmed
  imports Evm_Write_Ahead
begin

text \<open>
  What a receipt returned by a recovery stands for: a successful, canonical and sufficiently deep
  inclusion of a journaled transaction; and what the proof behind a retry establishes.
\<close>

subsection \<open>A returned receipt is confirmed\<close>

text \<open>
  Among the answers received, one head block has reached the height the policy requires for the
  receipt's block, and one answer names the receipt's block hash as the block at that number.
\<close>

definition deep_enough :: "evm_env \<Rightarrow> evm_confirmation_policy \<Rightarrow> receipt \<Rightarrow> nat \<Rightarrow> bool" where
  "deep_enough E policy rc n =
     (\<exists>number target head blk k1 k2. k1 < n \<and> k2 < n \<and>
        rc_block_number rc = Some number \<and> required_height policy number = Inr target \<and>
        ev_block E k1 (policy_block_tag policy) = Inr (Some head) \<and> target \<le> bl_number head \<and>
        ev_block E k2 (Number number) = Inr (Some blk) \<and> rc_block_hash rc = Some (bl_hash blk))"

lemma deep_enoughI:
  assumes "k1 < n" "k2 < n" "rc_block_number rc = Some number"
    "required_height policy number = Inr target"
    "ev_block E k1 (policy_block_tag policy) = Inr (Some head)" "target \<le> bl_number head"
    "\<exists>blk. ev_block E k2 (Number number) = Inr (Some blk) \<and> rc_block_hash rc = Some (bl_hash blk)"
  shows "deep_enough E policy rc n"
  using assms unfolding deep_enough_def by blast

definition recorded :: "evm_env \<Rightarrow> session option \<Rightarrow> receipt \<Rightarrow> deploy_world \<Rightarrow> bool" where
  "recorded E ss rc w =
     (ss = None \<or> journal_confirmation (dw_journal w) (ev_show_hash E (rc_transaction_hash rc))
        = Some (EvmConfirmation rc))"

definition has_hash :: "b256 \<Rightarrow> receipt option \<Rightarrow> bool" where
  "has_hash h found = (case found of Some rc \<Rightarrow> rc_transaction_hash rc = h | None \<Rightarrow> True)"

definition from_attempt :: "transaction list \<Rightarrow> receipt option \<Rightarrow> bool" where
  "from_attempt ts found =
     (case found of Some rc \<Rightarrow> \<exists>t \<in> set ts. is_evm t \<and> tx_hash t = rc_transaction_hash rc | None \<Rightarrow> True)"

lemma included_outputs: "outputs (included E ss ts) (from_attempt ts)"
proof (induction E ss ts rule: included.induct)
  case (3 E ss i r h s n g ts)
  let ?ts = "EvmTx i r h s n g # ts"
  have settled: "outputs (case c of
      Some (EvmConfirmation rc) \<Rightarrow>
        io_bind (io_ensure (rc_transaction_hash rc = h) ''cached receipt hash mismatch'') (\<lambda>_.
        io_bind (canonical E rc) (\<lambda>ok. io_return (if ok then Some rc else None)))
    | _ \<Rightarrow> io_return None) (has_hash h)" for c
  proof (cases "\<exists>rc. c = Some (EvmConfirmation rc)")
    case True
    then obtain rc where "c = Some (EvmConfirmation rc)" by blast
    moreover have "outputs (io_bind (io_ensure (rc_transaction_hash rc = h) ''cached receipt hash mismatch'') (\<lambda>_.
        io_bind (canonical E rc) (\<lambda>ok. io_return (if ok then Some rc else None)))) (has_hash h)"
      by (rule outputs_bind [OF outputs_ensure], rule outputs_bind [OF outputs_any])
        (simp add: outputs_basic has_hash_def)
    ultimately show ?thesis by simp
  qed (auto simp: outputs_basic has_hash_def split: option.split confirmation.split)
  have rest: "outputs (included E ss ts) (from_attempt ?ts)"
    using "3.IH" by (fastforce simp: outputs_def from_attempt_def split: option.splits)
  have hit: "from_attempt ?ts (Some rc)" if "rc_transaction_hash rc = h" for rc
    using that by (simp add: from_attempt_def is_evm_def)
  show ?case
    unfolding included.simps
    apply (rule outputs_bind [OF outputs_any])
    apply (rule outputs_bind [OF settled])
    apply (split option.split, intro conjI impI allI)
     apply (rule outputs_bind [OF outputs_any])
     apply (split option.split, intro conjI impI allI)
      apply (rule rest)
     apply (rule outputs_bind [OF outputs_ensure], simp add: outputs_basic hit)
    apply (simp add: outputs_basic hit has_hash_def)
    done
qed (simp_all add: outputs_basic from_attempt_def)

lemma included_attempt:
  "included E ss ts w = (Inr (Some rc), w') \<Longrightarrow>
     \<exists>t \<in> set ts. is_evm t \<and> tx_hash t = rc_transaction_hash rc"
  using outputsD [OF included_outputs] by (fastforce simp: from_attempt_def)

lemma ask_run: "ask E f w = (r, w') \<longleftrightarrow>
    f (dw_calls w) = r \<and> w' = (tick (ev_latency E (dw_calls w)) w)\<lparr> dw_calls := Suc (dw_calls w) \<rparr>"
  by (auto simp: ask_def)

lemma canonical_run:
  "canonical E rc w = (Inr True, w') \<Longrightarrow>
     dw_calls w' = Suc (dw_calls w) \<and> (\<exists>number blk. rc_block_number rc = Some number \<and>
       ev_block E (dw_calls w) (Number number) = Inr (Some blk) \<and> rc_block_hash rc = Some (bl_hash blk))"
  by (auto simp: canonical_def io_runs result_simps ask_run dest: sym)

lemma confirm_receipt_run:
  "confirm_receipt E ss rc w = (Inr u, w') \<Longrightarrow> recorded E ss rc w' \<and> dw_calls w \<le> dw_calls w'"
  by (auto simp: confirm_receipt_def recorded_def commit_def journal_confirm_def write_journal_def
      journal_confirmation_def bt_get_insert Let_def split: if_splits write_outcome.splits)

lemma wait_receipt_result:
  "wait_receipt E ss deadline policy h rc w = (Inr rc', w') \<Longrightarrow> rc_transaction_hash rc = h \<Longrightarrow>
     rc_transaction_hash rc' = h \<and> deep_enough E policy rc' (dw_calls w') \<and> recorded E ss rc' w'"
proof (induction E ss deadline policy h rc w rule: wait_receipt.induct)
  case (1 E ss deadline policy h rc w)
  obtain number target head w1 where
    pre: "rc_block_number rc = Some number" "required_height policy number = Inr target"
      "ev_block E (dw_calls w) (policy_block_tag policy) = Inr (Some head)"
      "w1 = (tick (ev_latency E (dw_calls w)) w)\<lparr> dw_calls := Suc (dw_calls w) \<rparr>"
    using "1.prems"(1) by (subst (asm) wait_receipt.simps) (auto simp: io_runs result_simps ask_run)
  show ?case
  proof (cases "target \<le> bl_number head")
    case True
    then obtain w2 where "canonical E rc w1 = (Inr True, w2)" "confirm_receipt E ss rc w2 = (Inr (), w')" "rc' = rc"
      using "1.prems"(1) pre
      by (subst (asm) wait_receipt.simps) (auto simp: io_runs result_simps ask_run)
    moreover from this have "deep_enough E policy rc (dw_calls w')"
      using pre True canonical_run [of E rc w1 w2] confirm_receipt_run [of E ss rc w2 "()" w']
      by (intro deep_enoughI [of "dw_calls w" _ "dw_calls w1" rc number]) auto
    ultimately show ?thesis
      using "1.prems"(2) confirm_receipt_run [of E ss rc w2 "()" w'] by simp
  next
    case False
    then obtain rc1 w2 w3 where "\<not> deadline \<le> dw_now w1" "sleep_secs 10 w1 = (Inr (), w2)"
      "ask E (\<lambda>k. ev_receipt E k (rc_transaction_hash rc)) w2 = (Inr (Some rc1), w3)"
      "rc_transaction_hash rc1 = h"
      "wait_receipt E ss deadline policy h rc1 w3 = (Inr rc', w')"
      using "1.prems"(1) pre
      by (subst (asm) wait_receipt.simps)
        (auto simp: io_runs io_if_def result_simps ask_run split: if_splits option.splits)
    then show ?thesis
      using pre False by (intro "1.IH") (auto simp: ask_run result_simps)
  qed
qed

text \<open>What a successful resume has established about its receipt.\<close>

definition settled ::
  "evm_env \<Rightarrow> session option \<Rightarrow> string \<Rightarrow> transaction \<Rightarrow> evm_confirmation_policy \<Rightarrow> receipt \<Rightarrow> deploy_world \<Rightarrow> bool"
where
  "settled E ss key saved policy rc w =
     (rc_status rc \<and> deep_enough E policy rc (dw_calls w) \<and> recorded E ss rc w \<and>
      (\<exists>t. is_evm t \<and> (key, t) \<in> known (dw_journal w) \<and>
         tx_sender t = tx_sender saved \<and> tx_nonce t = tx_nonce saved \<and>
         tx_hash t = rc_transaction_hash rc))"

definition competes :: "transaction \<Rightarrow> transaction \<Rightarrow> bool" where
  "competes saved t = (is_evm t \<and> tx_sender t = tx_sender saved \<and> tx_nonce t = tx_nonce saved)"

lemma quiet_holding: "holding key A w \<Longrightarrow> quiet w w' \<Longrightarrow> holding key A w'"
  by (auto simp: holding_def coherent_def safe_def quiet_def)

lemma wait_confirmed_settled:
  assumes "wait_confirmed E ss rc0 deadline policy w = (Inr rc, w')" and "holding key (set as) w"
    and "\<forall>t \<in> set as. competes saved t" and "\<exists>t \<in> set as. is_evm t \<and> tx_hash t = rc_transaction_hash rc0"
  shows "settled E ss key saved policy rc w'"
proof -
  have run: "wait_receipt E ss deadline policy (rc_transaction_hash rc0) rc0 w = (Inr rc, w')"
    and status: "rc_status rc"
    using assms(1) by (auto simp: wait_confirmed_def io_runs result_simps)
  have "holding key (set as) w'"
    using steadyD(1) [OF steady_wait_receipt assms(2) run] .
  moreover obtain t where "t \<in> set as" "tx_hash t = rc_transaction_hash rc0" "competes saved t"
    using assms(3,4) by blast
  ultimately show ?thesis
    using wait_receipt_result [OF run refl] status
    by (auto simp: settled_def holding_def competes_def)
qed

lemma await_inclusion_attempt:
  "await_inclusion E ss as deadline w = (Inr rc, w') \<Longrightarrow>
     \<exists>t \<in> set as. is_evm t \<and> tx_hash t = rc_transaction_hash rc"
proof (induction E ss as deadline w rule: await_inclusion.induct)
  case (1 E ss as deadline w)
  obtain found v where inc: "included E ss as w = (Inr found, v)"
    using "1.prems" by (subst (asm) await_inclusion.simps) (auto simp: io_runs)
  show ?case
  proof (cases found)
    case (Some rc0)
    then have "rc0 = rc" using "1.prems" inc
      by (subst (asm) await_inclusion.simps) (auto simp: io_runs)
    with inc Some show ?thesis using included_attempt by blast
  next
    case None
    then have "\<not> deadline \<le> dw_now v"
      "await_inclusion E ss as deadline (tick 5000 v) = (Inr rc, w')"
      using "1.prems" inc
      by (subst (asm) await_inclusion.simps, auto simp: io_runs io_if_def sleep_secs_def split: if_splits)+
    then show ?thesis
      using inc None by (intro "1.IH" [OF inc]) (auto simp: sleep_secs_def)
  qed
qed

lemma bump_competes:
  assumes "is_evm saved"
  shows "outputs (bump E s signer_key key saved) (competes saved)"
proof -
  obtain i r h sd n g where saved: "saved = EvmTx i r h sd n g"
    using assms by (cases saved) (auto simp: is_evm_def)
  show ?thesis
    unfolding bump_def saved transaction.case Let_def
    by (rule outputs_bind [OF outputs_any] impI | simp add: outputs_basic competes_def is_evm_def)+
qed

lemma resume_settled:
  assumes "resume E (Some s) signer_key saved intent key w = (Inr rc, w')"
    and hold: "holding key {saved} w"
  shows "settled E (Some s) key saved (jn_evm_confirmations (dw_journal w)) rc w'"
proof -
  let ?ss = "Some s" and ?policy = "jn_evm_confirmations (dw_journal w)"
  have evm: "is_evm saved"
    using assms(1) by (auto simp: resume_def is_evm_def split: transaction.splits)
  then obtain ex raw h sd n g where saved: "saved = EvmTx ex raw h sd n g"
    by (cases saved) (auto simp: is_evm_def)
  let ?d = "dw_now w + 1000 * wait_seconds ?ss"
  obtain as where as: "competing_attempts ?ss key saved w = (Inr as, w)"
    by (simp add: competing_attempts_def saved)
  have comp: "\<forall>t \<in> set as. competes saved t"
    using as by (auto simp: competing_attempts_def saved competes_def)
  have hold_as: "holding key (insert saved (set as)) w"
    using triple_Inr [OF competing_attempts_holding hold as] .
  obtain found w1 where inc: "included E ?ss as w = (Inr found, w1)"
    using assms(1) as by (auto simp: resume_def saved io_runs result_simps)
  have hold1: "holding key (insert saved (set as)) w1"
    by (rule quiet_holding [OF hold_as quiet_run [OF keeps_included inc]])
  show ?thesis
  proof (cases found)
    case (Some rc0)
    then have "wait_confirmed E ?ss rc0 ?d ?policy w1 = (Inr rc, w')"
      using assms(1) as inc by (auto simp: resume_def saved io_runs result_simps)
    then show ?thesis
      using hold1 comp included_attempt inc Some
      by (intro wait_confirmed_settled [where as = as]) (auto elim: holding_subset)
  next
    case None
    obtain c w2 where cnt: "ask E (\<lambda>k. ev_count E k sd) w1 = (Inr c, w2)"
      using assms(1) as inc None by (auto simp: resume_def saved io_runs result_simps)
    have hold2: "holding key (insert saved (set as)) w2"
      by (rule quiet_holding [OF hold1 quiet_run [OF keeps_ask cnt]])
    let ?more = "if op_bump_fees (ss_options s) = Some key
        then io_bind (bump E s signer_key key saved) (\<lambda>b. io_return (as @ [b]))
        else io_return as"
    have ok: "ex = intent \<and> ev_keccak E raw = h" "c \<le> n"
      using assms(1) as inc None cnt by (auto simp: resume_def saved io_runs result_simps)
    have "io_bind ?more (\<lambda>as'.
        io_bind (io_lift (ok_or (if as' = [] then None else Some (last as')) ''missing EVM attempt''))
          (\<lambda>latest. io_bind (broadcast E latest) (\<lambda>_. io_bind (await_inclusion E ?ss as' ?d)
          (\<lambda>rc. wait_confirmed E ?ss rc ?d ?policy)))) w2 = (Inr rc, w')"
      using assms(1) as inc None cnt ok
      by (simp add: resume_def saved io_bind_def split del: if_split cong: if_cong)
    then obtain as' w3 w4 rc0 w5 where more: "?more w2 = (Inr as', w3)"
      and latest: "as' \<noteq> []" "broadcast E (last as') w3 = (Inr (), w4)"
      and inc': "await_inclusion E ?ss as' ?d w4 = (Inr rc0, w5)"
      and conf: "wait_confirmed E ?ss rc0 ?d ?policy w5 = (Inr rc, w')"
      unfolding io_bind_eq_Inr by (auto simp: result_simps split: if_split_asm)
    have comp': "\<forall>t \<in> set as'. competes saved t"
      using more comp outputsD [OF bump_competes [OF evm]]
      by (auto simp: io_runs split: if_splits)
    have hold3: "holding key (insert saved (set as')) w3"
      using more hold2 triple_Inr [OF bump_holding hold2]
      by (auto simp: io_runs insert_commute split: if_splits)
    have "holding key (insert saved (set as')) w4"
      using steadyD(1) [OF broadcast_steady hold3 latest(2)] latest(1) by simp
    then have "holding key (insert saved (set as')) w5"
      by (rule quiet_holding [OF _ quiet_run [OF keeps_await_inclusion inc']])
    then show ?thesis
      using conf comp' await_inclusion_attempt [OF inc']
      by (intro wait_confirmed_settled [where as = as']) (auto elim: holding_subset)
  qed
qed

text \<open>
  C7: A deployment transaction counts as done only when it is confirmed.  If resuming a journaled
  transaction inside a session returns a receipt, then the receipt reports success, it belongs to a
  transaction the journal records for the same action, signer and nonce, some observed head
  reached the height that the journal's confirmation policy requires for its block, some
  answer confirmed that its block is the canonical one at its height, and the receipt is
  stored in the journal.
\<close>

theorem resume_returns_confirmed:
  assumes "resume E (Some s) signer_key saved intent key w = (Inr rc, w')"
    and "holding key {saved} w"
  shows "rc_status rc \<and> deep_enough E (jn_evm_confirmations (dw_journal w)) rc (dw_calls w') \<and>
    journal_confirmation (dw_journal w') (ev_show_hash E (rc_transaction_hash rc))
      = Some (EvmConfirmation rc) \<and>
    (\<exists>t. is_evm t \<and> (key, t) \<in> known (dw_journal w') \<and> tx_sender t = tx_sender saved \<and>
       tx_nonce t = tx_nonce saved \<and> tx_hash t = rc_transaction_hash rc)"
  using resume_settled [OF assms] by (simp add: settled_def recorded_def)

definition sample_saved :: transaction where
  "sample_saved = EvmTx 11 [1, 2, 3] 11 5 3 ''630''"

definition sample_pending :: deploy_world where
  "sample_pending =
     sample_world\<lparr> dw_calls := 5,
       dw_journal := (new_journal 9)\<lparr> jn_actions := [(''Operators/deploy'', sample_saved)] \<rparr>,
       dw_disk := (new_journal 9)\<lparr> jn_actions := [(''Operators/deploy'', sample_saved)] \<rparr> \<rparr>"

lemma sample_pending_holding: "holding ''Operators/deploy'' {sample_saved} sample_pending"
  by (simp add: holding_def coherent_def safe_def sample_pending_def sample_world_def journal_wf_def
      new_journal_def bt_wf_def bt_empty_def known_def bt_get_def)

lemma sample_resume_run:
  "fst (resume sample_env (Some sample_session) ''key'' sample_saved 11 ''Operators/deploy'' sample_pending)
     = Inr sample_receipt"
  by (simp add: evm_eval journal_eval sample_eval sample_pending_def sample_saved_def)

theorem resume_returns_confirmed_witness:
  "\<exists>w'. resume sample_env (Some sample_session) ''key'' sample_saved 11 ''Operators/deploy''
       sample_pending = (Inr sample_receipt, w') \<and>
     deep_enough sample_env (Confirmations 1) sample_receipt (dw_calls w')"
proof -
  obtain w' where run: "resume sample_env (Some sample_session) ''key'' sample_saved 11
      ''Operators/deploy'' sample_pending = (Inr sample_receipt, w')"
    using sample_resume_run by (metis prod.collapse)
  moreover have "jn_evm_confirmations (dw_journal sample_pending) = Confirmations 1"
    by (simp add: sample_pending_def new_journal_def policy_default_def)
  ultimately show ?thesis
    using resume_returns_confirmed [OF run sample_pending_holding] by auto
qed

lemma competing_attempts_competes:
  "competing_attempts ss key saved w = (Inr as, w') \<Longrightarrow> w' = w \<and> (\<forall>t \<in> set as. competes saved t)"
  by (cases saved) (auto simp: competing_attempts_def competes_def)

text \<open>
  What the failure proof behind a retry establishes: the named transaction competes with the
  journaled one, its finalized and canonical receipt reports failure, and that receipt is
  stored in the journal.
\<close>

lemma prove_with_provider_finalized:
  assumes "prove_with_provider E s key saved w = (Inr name, w')"
  shows "\<exists>rc t. \<not> rc_status rc \<and> name = ev_show_hash E (rc_transaction_hash rc) \<and>
    deep_enough E Finalized rc (dw_calls w') \<and> recorded E (Some s) rc w' \<and>
    competes saved t \<and> tx_hash t = rc_transaction_hash rc \<and>
    validate_action E key saved = Inr () \<and> validate_action E key t = Inr ()"
proof -
  obtain as w0 w1 w2 rc0 deadline rc where
    att: "competing_attempts (Some s) key saved w = (Inr as, w0)"
    and valid: "validate_action E key saved = Inr ()" "\<forall>t \<in> set as. validate_action E key t = Inr ()"
    and inc: "included E (Some s) as w1 = (Inr (Some rc0), w2)"
    and wait: "wait_receipt E (Some s) deadline Finalized (rc_transaction_hash rc0) rc0 w2 = (Inr rc, w')"
    and fin: "\<not> rc_status rc" "name = ev_show_hash E (rc_transaction_hash rc)"
    using assms
    by (auto simp: prove_with_provider_def io_runs result_simps)
  obtain t where t: "t \<in> set as" "tx_hash t = rc_transaction_hash rc0"
    using included_attempt [OF inc] by blast
  then have "competes saved t" using competing_attempts_competes [OF att] by blast
  with valid fin t wait_receipt_result [OF wait refl] show ?thesis by metis
qed

end
