(* ===== verification/Cosmos_Chain.thy ===== *)
theory Cosmos_Chain
  imports Evm_Confirmed
begin

text \<open>
  Talking to the Axelar chain: the LCD queries of \<open>cosmos/rpc.rs\<close>, the transaction builder of
  \<open>cosmos/tx.rs\<close> and the governance parameters of \<open>hardened/governance.rs\<close>.  HTTP, Protobuf,
  hashing and signing are parameters; the answers of the nodes are indexed by the number of the
  call, as for the EVM nodes.  A typed answer is read from a JSON object, where a missing or null
  optional member is absent and a member of another type is an error.
\<close>

record signer_info =
  si_public_key :: "bytes option"
  si_sequence :: u64
  si_mode :: bytes

record fee =
  fe_amount :: "coin list"
  fe_gas_limit :: u64
  fe_payer :: string
  fe_granter :: string

record auth_info =
  ai_signer_infos :: "signer_info list"
  ai_fee :: "fee option"
  ai_tip :: bytes

record tx_raw =
  tr_body_bytes :: bytes
  tr_auth_info_bytes :: bytes
  tr_signatures :: "bytes list"

record sign_doc =
  sd_body_bytes :: bytes
  sd_auth_info_bytes :: bytes
  sd_chain_id :: string
  sd_account_number :: u64

text \<open>The sign input of \<open>tx.rs\<close>.\<close>

record sign_input =
  in_chain_id :: string
  in_account_number :: u64
  in_sequence :: u64
  in_gas_limit :: u64
  in_fee_amount :: u128
  in_fee_denom :: string
  in_messages :: "any list"

record cosmos_env =
  ce_machine :: evm_env
  ce_get :: "nat \<Rightarrow> string \<Rightarrow> (nat \<times> json result) result"
  ce_post :: "nat \<Rightarrow> string \<Rightarrow> json \<Rightarrow> (nat \<times> json result) result"
  ce_base64 :: "bytes \<Rightarrow> string"
  ce_hex :: "bytes \<Rightarrow> string"
  ce_sha256_hex :: "bytes \<Rightarrow> string"
  ce_intent_json :: "string \<Rightarrow> string \<Rightarrow> string \<Rightarrow> (string \<times> string) list \<Rightarrow> bytes"
  ce_decode_tx :: "bytes \<Rightarrow> tx_raw option"
  ce_encode_tx :: "tx_raw \<Rightarrow> bytes"
  ce_decode_auth :: "bytes \<Rightarrow> auth_info option"
  ce_encode_auth :: "auth_info \<Rightarrow> bytes"
  ce_decode_body :: "bytes \<Rightarrow> any list option"
  ce_encode_doc :: "sign_doc \<Rightarrow> bytes"
  ce_decode_deposit :: "bytes \<Rightarrow> coin list option"
  ce_decode_funds :: "bytes \<Rightarrow> coin list option"
  ce_proposal_shows :: "bytes \<Rightarrow> bool"
  ce_execute_shows :: "bytes \<Rightarrow> bool"
  ce_wallet :: "string \<Rightarrow> (bytes \<times> string) option"
  ce_account_id :: "bytes \<Rightarrow> string option"
  ce_public_key :: "bytes \<Rightarrow> bytes option"
  ce_verify :: "bytes \<Rightarrow> bytes \<Rightarrow> bytes \<Rightarrow> bool"
  ce_sign :: "bytes \<Rightarrow> bytes \<Rightarrow> bytes option"
  ce_account_ok :: "string \<Rightarrow> bool"
  ce_denom_ok :: "string \<Rightarrow> bool"
  ce_chain_ok :: "string \<Rightarrow> bool"
  ce_body :: "any list \<Rightarrow> bytes"
  ce_direct_auth :: "bytes \<Rightarrow> u64 \<Rightarrow> string \<Rightarrow> u128 \<Rightarrow> u64 \<Rightarrow> bytes"

subsection \<open>Typed answers\<close>

definition de_member :: "(json \<Rightarrow> 'a option) \<Rightarrow> string \<Rightarrow> json \<Rightarrow> 'a option result" where
  "de_member read k v =
     (case v of
        JObject kvs \<Rightarrow>
          (case map_of kvs k of
             None \<Rightarrow> Inr None
           | Some JNull \<Rightarrow> Inr None
           | Some w \<Rightarrow> (case read w of Some x \<Rightarrow> Inr (Some x) | None \<Rightarrow> Inl (Report ''invalid type'')))
      | _ \<Rightarrow> Inl (Report ''invalid type''))"

definition parse_required :: "string option \<Rightarrow> 'w::len word result" where
  "parse_required s =
     and_then (ok_or s ''missing numeric LCD field'') (\<lambda>raw.
     ok_or (parse_word raw) ''invalid numeric LCD field'')"

definition fetch :: "cosmos_env \<Rightarrow> string \<Rightarrow> (deploy_world, nat \<times> json result) io" where
  "fetch C url = ask (ce_machine C) (\<lambda>k. ce_get C k url)"

definition post :: "cosmos_env \<Rightarrow> string \<Rightarrow> json \<Rightarrow> (deploy_world, nat \<times> json result) io" where
  "post C url body = ask (ce_machine C) (\<lambda>k. ce_post C k url body)"

definition body_of :: "nat \<times> json result \<Rightarrow> (deploy_world, json) io" where
  "body_of response = io_lift (snd response)"

definition is_success :: "nat \<Rightarrow> bool" where
  "is_success status = (200 \<le> status \<and> status < 300)"

text \<open>\<open>error_for_status\<close> refuses client and server errors only.\<close>

definition error_for_status :: "nat \<times> json result \<Rightarrow> (deploy_world, nat \<times> json result) io" where
  "error_for_status response =
     io_bind (io_ensure (\<not> (400 \<le> fst response \<and> fst response < 600)) ''HTTP status error'') (\<lambda>_.
     io_return response)"

subsection \<open>LCD queries\<close>

definition lcd_query_account :: "cosmos_env \<Rightarrow> string \<Rightarrow> string \<Rightarrow> (deploy_world, u64 \<times> u64) io" where
  "lcd_query_account C lcd address =
     io_bind (fetch C (lcd @ ''/cosmos/auth/v1beta1/accounts/'' @ address)) (\<lambda>response.
     io_bind (body_of response) (\<lambda>raw.
     io_bind (io_ensure (json_get ''account'' raw \<noteq> None) ''no account in response'') (\<lambda>_.
     let account = json_index raw ''account'' in
     io_bind (io_lift (de_member as_str ''account_number'' account)) (\<lambda>number_text.
     io_bind (io_lift (de_member as_str ''sequence'' account)) (\<lambda>sequence_text.
     io_bind (io_lift (parse_required number_text)) (\<lambda>account_number.
     io_bind (io_lift (parse_required sequence_text)) (\<lambda>sequence.
     io_return (account_number, sequence))))))))"

definition lcd_query_balance :: "cosmos_env \<Rightarrow> string \<Rightarrow> string \<Rightarrow> string \<Rightarrow> (deploy_world, u128) io" where
  "lcd_query_balance C lcd address denom =
     io_bind (fetch C (lcd @ ''/cosmos/bank/v1beta1/balances/'' @ address @ ''/by_denom?denom='' @ denom)) (\<lambda>response.
     io_bind (body_of response) (\<lambda>raw.
     io_bind (io_lift (de_member Some ''balance'' raw)) (\<lambda>found.
     io_bind (case found of
                None \<Rightarrow> io_raise (Report ''balance response missing balance'')
              | Some balance \<Rightarrow> io_lift (de_member as_str ''amount'' balance)) (\<lambda>amount.
     io_lift (parse_required amount)))))"

definition check_axelar_balance ::
  "cosmos_env \<Rightarrow> string \<Rightarrow> string \<Rightarrow> string \<Rightarrow> u128 \<Rightarrow> (deploy_world, unit) io" where
  "check_axelar_balance C lcd address fee_denom min_amount =
     io_bind (io_try (lcd_query_account C lcd address)) (\<lambda>answer.
     io_bind (case answer of
                Inr _ \<Rightarrow> io_return True
              | Inl e \<Rightarrow>
                  if contains ''no account in response'' (report_text e) then io_return False
                  else io_raise (Report ''failed to query Axelar relayer account'')) (\<lambda>account_exists.
     io_bind (if account_exists
              then io_wrap ''failed to query Axelar relayer balance'' (lcd_query_balance C lcd address fee_denom)
              else io_return 0) (\<lambda>balance.
     io_ensure (account_exists \<and> \<not> balance < min_amount) ''axelar relayer wallet underfunded'')))"

definition lcd_simulate_tx :: "cosmos_env \<Rightarrow> string \<Rightarrow> bytes \<Rightarrow> (deploy_world, u64) io" where
  "lcd_simulate_tx C lcd tx_bytes =
     io_bind (post C (lcd @ ''/cosmos/tx/v1beta1/simulate'')
       (JObject [(''tx_bytes'', JString (ce_base64 C tx_bytes)),
                 (''mode'', JString ''BROADCAST_MODE_UNSPECIFIED'')])) (\<lambda>response.
     io_bind (body_of response) (\<lambda>raw.
     io_bind (io_lift (de_member as_str ''message'' raw)) (\<lambda>message.
     io_bind (io_lift (de_member Some ''gas_info'' raw)) (\<lambda>gas_info.
     io_bind (case gas_info of
                None \<Rightarrow> io_return None
              | Some info \<Rightarrow> io_lift (and_then (de_member as_str ''gas_used'' info) (\<lambda>used. Inr (Some used)))) (\<lambda>gas_used.
     io_bind (io_ensure (message = None \<or> message = Some []) ''simulation failed'') (\<lambda>_.
     io_bind (io_lift (ok_or gas_used ''simulation response missing gas_info'')) (\<lambda>used_text.
     io_bind (io_lift (parse_required used_text)) (\<lambda>used.
     io_bind (io_ensure (used \<noteq> 0) ''simulation returned 0 gas'') (\<lambda>_.
     io_return used)))))))))"

text \<open>Reads the answer of a broadcast or a lookup: the transaction's code must be present and zero.\<close>

definition tx_result :: "string \<Rightarrow> string \<Rightarrow> string \<Rightarrow> json \<Rightarrow> unit result" where
  "tx_result missing missing_code failed response =
     and_then (de_member Some ''tx_response'' response) (\<lambda>found.
     and_then (case found of
                 None \<Rightarrow> Inr None
               | Some body \<Rightarrow>
                   and_then (de_member as_u64 ''code'' body) (\<lambda>code.
                   and_then (de_member as_str ''raw_log'' body) (\<lambda>_. Inr (Some code)))) (\<lambda>parsed.
     and_then (ok_or parsed missing) (\<lambda>code.
     and_then (ok_or code missing_code) (\<lambda>n.
     ensure (n = 0) failed))))"

text \<open>The bytes are logged as sent when the request leaves, whatever the node answers.\<close>

definition lcd_broadcast_tx :: "cosmos_env \<Rightarrow> string \<Rightarrow> bytes \<Rightarrow> (deploy_world, json) io" where
  "lcd_broadcast_tx C lcd tx_bytes =
     io_bind (io_modify (\<lambda>w. w\<lparr> dw_sent := tx_bytes # dw_sent w \<rparr>)) (\<lambda>_.
     io_bind (post C (lcd @ ''/cosmos/tx/v1beta1/txs'')
       (JObject [(''tx_bytes'', JString (ce_base64 C tx_bytes)),
                 (''mode'', JString ''BROADCAST_MODE_SYNC'')])) (\<lambda>response.
     io_bind (body_of response) (\<lambda>resp.
     io_bind (io_lift (tx_result ''broadcast response missing tx_response''
       ''broadcast response missing tx_response.code'' ''broadcast failed'' resp)) (\<lambda>_.
     io_return resp))))"

definition LCD_WAIT_MAX_ATTEMPTS :: nat where "LCD_WAIT_MAX_ATTEMPTS = 30"
definition LCD_WAIT_RETRY_SECONDS :: nat where "LCD_WAIT_RETRY_SECONDS = 3"

fun lcd_wait_from :: "cosmos_env \<Rightarrow> string \<Rightarrow> nat \<Rightarrow> (deploy_world, json) io" where
  "lcd_wait_from C url 0 = io_raise (Report ''timeout waiting for tx'')"
| "lcd_wait_from C url (Suc left) =
     io_bind (sleep_secs LCD_WAIT_RETRY_SECONDS) (\<lambda>_.
     io_bind (io_try (fetch C url)) (\<lambda>answer.
     case answer of
       Inl _ \<Rightarrow> lcd_wait_from C url left
     | Inr response \<Rightarrow>
         io_bind (io_wrap ''invalid tx lookup response'' (body_of response)) (\<lambda>resp.
         if json_get ''tx_response'' resp \<noteq> None
         then io_bind (io_lift (tx_result ''tx lookup response missing tx_response''
                ''tx lookup response missing tx_response.code'' ''tx failed'' resp)) (\<lambda>_.
              io_return resp)
         else lcd_wait_from C url left)))"

definition lcd_wait_for_tx :: "cosmos_env \<Rightarrow> string \<Rightarrow> string \<Rightarrow> (deploy_world, json) io" where
  "lcd_wait_for_tx C lcd h =
     lcd_wait_from C (lcd @ ''/cosmos/tx/v1beta1/txs/'' @ h) LCD_WAIT_MAX_ATTEMPTS"

subsection \<open>Governance parameters\<close>

definition json_coin :: "json \<Rightarrow> coin option" where
  "json_coin v =
     (case (de_member as_str ''denom'' v, de_member as_str ''amount'' v) of
        (Inr (Some denom), Inr (Some amount)) \<Rightarrow> Some (denom, amount)
      | _ \<Rightarrow> None)"

definition json_coins :: "json \<Rightarrow> coin list option" where
  "json_coins v =
     (case as_array v of
        None \<Rightarrow> None
      | Some vs \<Rightarrow> if None \<in> set (map json_coin vs) then None else Some (map (the \<circ> json_coin) vs))"

definition gov_parameters :: "cosmos_env \<Rightarrow> string \<Rightarrow> (deploy_world, coin list \<times> string) io" where
  "gov_parameters C lcd =
     io_bind (fetch C (trim_slashes lcd @ ''/cosmos/gov/v1/params/voting'')) (\<lambda>response.
     io_bind (error_for_status response) (\<lambda>response.
     io_bind (body_of response) (\<lambda>raw.
     io_bind (io_lift (de_member Some ''params'' raw)) (\<lambda>found.
     io_bind (io_lift (ok_or found ''missing field'')) (\<lambda>params.
     io_bind (io_lift (de_member json_coins ''expedited_min_deposit'' params)) (\<lambda>deposit.
     io_bind (io_lift (de_member as_str ''expedited_voting_period'' params)) (\<lambda>period.
     io_bind (io_lift (ok_or deposit ''missing field'')) (\<lambda>coins.
     io_bind (io_lift (ok_or period ''missing field'')) (\<lambda>duration.
     io_return (coins, duration))))))))))"

definition gov_deposit :: "cosmos_env \<Rightarrow> string \<Rightarrow> string \<Rightarrow> (deploy_world, string) io" where
  "gov_deposit C lcd denom =
     io_bind (gov_parameters C lcd) (\<lambda>(coins, _).
     io_bind (io_ensure (length coins = 1) ''unsupported multi-denom governance deposit'') (\<lambda>_.
     io_bind (io_lift (ok_or (case coins of [] \<Rightarrow> None | c # _ \<Rightarrow> Some c) ''missing deposit'')) (\<lambda>(coin_denom, amount).
     io_bind (io_ensure (coin_denom = denom) ''governance deposit denomination mismatch'') (\<lambda>_.
     io_bind (io_lift (ok_or (parse_word amount :: u128 option) ''invalid digit found in string'')) (\<lambda>n.
     io_bind (io_ensure (n > 0) ''invalid governance deposit'') (\<lambda>_.
     io_return amount))))))"

subsection \<open>Building a transaction\<close>

definition build_and_sign_cosmos_tx :: "cosmos_env \<Rightarrow> bytes \<Rightarrow> sign_input \<Rightarrow> bytes result" where
  "build_and_sign_cosmos_tx C key input =
     (let body = ce_body C (in_messages input) in
      and_then (ensure (ce_denom_ok C (in_fee_denom input)) ''invalid denom'') (\<lambda>_.
      let auth = ce_direct_auth C key (in_sequence input) (in_fee_denom input) (in_fee_amount input)
            (in_gas_limit input) in
      and_then (ensure (ce_chain_ok C (in_chain_id input)) ''invalid chain id'') (\<lambda>_.
      let doc = \<lparr> sd_body_bytes = body, sd_auth_info_bytes = auth, sd_chain_id = in_chain_id input,
            sd_account_number = in_account_number input \<rparr> in
      and_then (ok_or (ce_sign C key (ce_encode_doc C doc)) ''signing error'') (\<lambda>sig.
      Inr (ce_encode_tx C
        \<lparr> tr_body_bytes = body, tr_auth_info_bytes = auth, tr_signatures = [sig] \<rparr>)))))"

definition unsigned_simulation :: "cosmos_env \<Rightarrow> bytes \<Rightarrow> bytes result" where
  "unsigned_simulation C raw =
     and_then (ok_or (ce_decode_tx C raw) ''failed to decode Protobuf message'') (\<lambda>tx.
     Inr (ce_encode_tx C (tx\<lparr> tr_signatures := map (map (\<lambda>_. 0)) (tr_signatures tx) \<rparr>)))"

subsection \<open>The queries are quiet\<close>

lemma keeps_fetch [hoare_rules, simp]: "keeps (quiet w0) (fetch C url)"
  by (simp add: fetch_def)

lemma keeps_post [hoare_rules, simp]: "keeps (quiet w0) (post C url body)"
  by (simp add: post_def)

lemma keeps_body_of [hoare_rules, simp]: "keeps I (body_of response)"
  by (simp add: body_of_def)

lemma keeps_error_for_status [hoare_rules, simp]: "keeps I (error_for_status response)"
  unfolding error_for_status_def by (intro keeps_bind) simp_all

lemma keeps_query_account [hoare_rules, simp]: "keeps (quiet w0) (lcd_query_account C lcd address)"
  unfolding lcd_query_account_def Let_def by (intro keeps_bind) simp_all

lemma keeps_query_balance [hoare_rules, simp]: "keeps (quiet w0) (lcd_query_balance C lcd address denom)"
  unfolding lcd_query_balance_def by (intro keeps_bind keeps_option) simp_all

lemma keeps_check_balance [hoare_rules, simp]: "keeps (quiet w0) (check_axelar_balance C lcd address denom n)"
  unfolding check_axelar_balance_def
  by (intro keeps_bind keeps_sum keeps_if keeps_try keeps_wrap) simp_all

lemma keeps_simulate [hoare_rules, simp]: "keeps (quiet w0) (lcd_simulate_tx C lcd tx)"
  unfolding lcd_simulate_tx_def by (intro keeps_bind keeps_option) simp_all

lemma keeps_gov_parameters [hoare_rules, simp]: "keeps (quiet w0) (gov_parameters C lcd)"
  unfolding gov_parameters_def by (intro keeps_bind) simp_all

lemma keeps_gov_deposit [hoare_rules, simp]: "keeps (quiet w0) (gov_deposit C lcd denom)"
  unfolding gov_deposit_def by (intro keeps_bind keeps_prod) simp_all

lemma keeps_wait_from [hoare_rules, simp]: "keeps (quiet w0) (lcd_wait_from C url left)"
proof (induction left)
  case (Suc left)
  then show ?case
    unfolding lcd_wait_from.simps by (intro keeps_bind keeps_sum keeps_if keeps_try keeps_wrap) simp_all
qed simp

lemma keeps_wait_for_tx [hoare_rules, simp]: "keeps (quiet w0) (lcd_wait_for_tx C lcd h)"
  by (simp add: lcd_wait_for_tx_def)

end
