(* ===== verification/Cosmos_Recovery.thy ===== *)
theory Cosmos_Recovery
  imports Cosmos_Chain
begin

text \<open>
  Sending and recovering Cosmos deployment transactions (\<open>hardened/cosmos.rs\<close>,
  \<open>hardened/cosmos_recovery.rs\<close>, \<open>hardened/cosmos_fees.rs\<close>, \<open>approve\<close> of
  \<open>hardened/cosmos_funding.rs\<close>, \<open>hardened/direct.rs\<close>, the Cosmos part of
  \<open>hardened/recovery.rs\<close>, the signing roles of \<open>deploy/cosmos_signer.rs\<close>, and the entry point
  \<open>sign_and_broadcast_cosmos_tx\<close> of \<open>cosmos/tx.rs\<close>).  The gas price is a float in the program;
  here it is the test for a usable price and the function that turns gas into a fee, so the
  theorems hold for every rounding.
\<close>

record gas_price =
  gp_valid :: bool
  gp_fee :: "u64 \<Rightarrow> u128"
  gp_gas :: "u64 \<Rightarrow> u64"

subsection \<open>Looking a transaction up\<close>

definition validate_sequence :: "cosmos_env \<Rightarrow> bytes \<Rightarrow> u64 \<Rightarrow> unit result" where
  "validate_sequence C raw expected =
     and_then (ok_or (ce_decode_tx C raw) ''failed to decode Protobuf message'') (\<lambda>tx.
     and_then (ok_or (ce_decode_auth C (tr_auth_info_bytes tx)) ''failed to decode Protobuf message'') (\<lambda>auth.
     ensure (case ai_signer_infos auth of [si] \<Rightarrow> si_sequence si = expected | _ \<Rightarrow> False)
       ''recorded Cosmos sequence differs from signed bytes''))"

definition recovery_lcd :: "cosmos_env \<Rightarrow> session option \<Rightarrow> (deploy_world, string option) io" where
  "recovery_lcd C ss =
     (case ss of
        None \<Rightarrow> io_return None
      | Some s \<Rightarrow>
          (case op_recovery_lcd (ss_options s) of
             None \<Rightarrow> io_return None
           | Some lcd \<Rightarrow>
               io_bind (fetch C (trim_slashes lcd @ ''/cosmos/base/tendermint/v1beta1/node_info'')) (\<lambda>response.
               io_bind (error_for_status response) (\<lambda>response.
               io_bind (body_of response) (\<lambda>node.
               io_bind (io_ensure (Option.bind (json_pointer node [''default_node_info'', ''network'']) as_str
                     = Some (pl_axelar_chain_id (ss_plan s)))
                 ''recovery LCD is on a different network'') (\<lambda>_.
               io_return (Some lcd)))))))"

definition lookup :: "cosmos_env \<Rightarrow> string \<Rightarrow> string \<Rightarrow> (deploy_world, json option) io" where
  "lookup C lcd h =
     io_bind (fetch C (trim_slashes lcd @ ''/cosmos/tx/v1beta1/txs/'' @ h)) (\<lambda>response.
     if fst response = 404 then io_return None
     else
       io_bind (io_ensure (is_success (fst response)) ''cannot establish Cosmos transaction status'') (\<lambda>_.
       io_bind (body_of response) (\<lambda>body.
       io_return (Some body))))"

definition checked :: "json \<Rightarrow> json result" where
  "checked response =
     and_then (ensure (Option.bind (json_pointer response [''tx_response'', ''code'']) as_u64 = Some 0)
       ''recorded Cosmos transaction failed'') (\<lambda>_.
     Inr response)"

definition record_checked :: "string \<Rightarrow> json \<Rightarrow> (u64 \<times> u32) result" where
  "record_checked h response =
     (let result = json_index response ''tx_response'' in
      and_then (ensure (case as_str (json_index result ''txhash'') of
                          Some actual \<Rightarrow> eq_ignore_ascii_case actual h | None \<Rightarrow> False)
        ''Cosmos receipt hash mismatch'') (\<lambda>_.
      and_then (ok_or (as_str (json_index result ''height'')) ''missing confirmed Cosmos height'') (\<lambda>text.
      and_then (ok_or (parse_word text) ''invalid digit found in string'') (\<lambda>height.
      and_then (ensure (height > 0) ''Cosmos transaction is not included'') (\<lambda>_.
      and_then (ok_or (as_u64 (json_index result ''code'')) ''missing Cosmos result code'') (\<lambda>code.
      and_then (ensure (unat code < 2 ^ 32) ''out of range integral type conversion attempted'') (\<lambda>_.
      Inr (height, ucast code))))))))"

definition record_response ::
  "cosmos_env \<Rightarrow> session option \<Rightarrow> string \<Rightarrow> json \<Rightarrow> (deploy_world, json) io" where
  "record_response C ss h response =
     io_bind (io_lift (record_checked h response)) (\<lambda>(height, code).
     io_bind (if ss = None then io_return ()
              else commit (ce_machine C) (journal_confirm h (CosmosConfirmation height code response))) (\<lambda>_.
     io_lift (checked response)))"

definition cosmos_confirmation :: "session option \<Rightarrow> string \<Rightarrow> (deploy_world, json option) io" where
  "cosmos_confirmation ss h =
     io_gets (\<lambda>w. case (if ss = None then None else journal_confirmation (dw_journal w) h) of
       Some (CosmosConfirmation _ _ response) \<Rightarrow> Some response | _ \<Rightarrow> None)"

text \<open>The loop over the competing attempts: a recorded answer ends it, otherwise the hashes still open.\<close>

fun scan_attempts ::
  "cosmos_env \<Rightarrow> session option \<Rightarrow> string \<Rightarrow> u64 \<Rightarrow> transaction list \<Rightarrow> string list
   \<Rightarrow> (deploy_world, json + string list) io" where
  "scan_attempts C ss sender sequence [] pending = io_return (Inr pending)"
| "scan_attempts C ss sender sequence (EvmTx _ _ _ _ _ _ # ts) pending =
     scan_attempts C ss sender sequence ts pending"
| "scan_attempts C ss sender sequence (CosmosTxn _ raw h signer _ seq # ts) pending =
     (if signer = sender \<and> seq = sequence
      then
        io_bind (io_ensure (ce_sha256_hex C raw = h) ''Cosmos signed bytes do not match hash'') (\<lambda>_.
        io_bind (cosmos_confirmation ss h) (\<lambda>known.
        case known of
          Some response \<Rightarrow> io_bind (io_lift (checked response)) (\<lambda>r. io_return (Inl r))
        | None \<Rightarrow> scan_attempts C ss sender sequence ts (pending @ [h])))
      else scan_attempts C ss sender sequence ts pending)"

fun lookup_first ::
  "cosmos_env \<Rightarrow> session option \<Rightarrow> string \<Rightarrow> string list \<Rightarrow> (deploy_world, json option) io" where
  "lookup_first C ss lcd [] = io_return None"
| "lookup_first C ss lcd (h # hs) =
     io_bind (lookup C lcd h) (\<lambda>found.
     case found of
       Some response \<Rightarrow> io_bind (record_response C ss h response) (\<lambda>r. io_return (Some r))
     | None \<Rightarrow> lookup_first C ss lcd hs)"

definition confirmed ::
  "cosmos_env \<Rightarrow> session option \<Rightarrow> string \<Rightarrow> transaction \<Rightarrow> string \<Rightarrow> (deploy_world, json option) io" where
  "confirmed C ss lcd saved key =
     (case saved of
        EvmTx _ _ _ _ _ _ \<Rightarrow> io_raise (Report ''expected Cosmos action'')
      | CosmosTxn _ _ _ sender _ sequence \<Rightarrow>
          io_bind (io_gets (\<lambda>w. if ss = None then [saved] else journal_attempts (dw_journal w) key saved)) (\<lambda>attempts.
          io_bind (scan_attempts C ss sender sequence attempts []) (\<lambda>scanned.
          case scanned of
            Inl response \<Rightarrow> io_return (Some response)
          | Inr pending \<Rightarrow>
              io_bind (lookup_first C ss lcd pending) (\<lambda>found.
              case found of
                Some response \<Rightarrow> io_return (Some response)
              | None \<Rightarrow>
                  io_bind (recovery_lcd C ss) (\<lambda>archive.
                  case archive of
                    None \<Rightarrow> io_return None
                  | Some lcd' \<Rightarrow> lookup_first C ss lcd' pending)))))"

fun await_confirmed ::
  "cosmos_env \<Rightarrow> session option \<Rightarrow> string \<Rightarrow> transaction \<Rightarrow> string \<Rightarrow> nat \<Rightarrow> (deploy_world, json) io" where
  "await_confirmed C ss lcd saved key 0 = io_raise (Paused ''Waiting for confirmation'')"
| "await_confirmed C ss lcd saved key (Suc left) =
     io_bind (confirmed C ss lcd saved key) (\<lambda>found.
     case found of
       Some response \<Rightarrow> io_return response
     | None \<Rightarrow> io_bind (sleep_secs 2) (\<lambda>_. await_confirmed C ss lcd saved key left))"

definition cosmos_resume ::
  "cosmos_env \<Rightarrow> session option \<Rightarrow> string \<Rightarrow> transaction \<Rightarrow> string \<Rightarrow> (deploy_world, json) io" where
  "cosmos_resume C ss lcd saved key =
     io_bind (confirmed C ss lcd saved key) (\<lambda>found.
     case found of
       Some response \<Rightarrow> io_return response
     | None \<Rightarrow>
         (case saved of
            EvmTx _ _ _ _ _ _ \<Rightarrow> io_raise (Report ''expected Cosmos transaction'')
          | CosmosTxn _ raw _ sender _ sequence \<Rightarrow>
              io_bind (io_lift (validate_sequence C raw sequence)) (\<lambda>_.
              io_bind (lcd_query_account C lcd sender) (\<lambda>(_, current).
              io_bind (io_ensure (current = sequence)
                ''Cosmos transaction is missing and the account sequence moved'') (\<lambda>_.
              io_bind (io_try (lcd_broadcast_tx C lcd raw)) (\<lambda>answer.
              case answer of
                Inl _ \<Rightarrow> io_raise (Paused ''recorded Cosmos transaction is unresolved'')
              | Inr _ \<Rightarrow> await_confirmed C ss lcd saved key 10))))))"

subsection \<open>Sending\<close>

definition validate_cosmos_retry :: "journal \<Rightarrow> string \<Rightarrow> b256 \<Rightarrow> u64 \<Rightarrow> unit result" where
  "validate_cosmos_retry j key intent sequence =
     (let past = past_attempts j key in
      case (if past = [] then None else Some (last past)) of
        Some (CosmosTxn expected _ _ _ _ previous) \<Rightarrow>
          and_then (ensure (intent = expected)
            ''retried Cosmos execution differs from the retired attempt'') (\<lambda>_.
          ensure (sequence > previous) ''retired Cosmos transaction did not consume its sequence'')
      | _ \<Rightarrow> Inr ())"

definition preview :: "cosmos_env \<Rightarrow> any \<Rightarrow> unit result" where
  "preview C m =
     (if any_type_url m = ''/cosmos.gov.v1.MsgSubmitProposal''
      then ensure (ce_proposal_shows C (any_value m)) ''failed to decode proposal''
      else if any_type_url m = ''/cosmwasm.wasm.v1.MsgExecuteContract''
      then ensure (ce_execute_shows C (any_value m)) ''failed to decode message''
      else Inl (Report ''unsupported deployment message''))"

definition approve ::
  "cosmos_env \<Rightarrow> string \<Rightarrow> string \<Rightarrow> string \<Rightarrow> any list \<Rightarrow> u128 \<Rightarrow> (deploy_world, bool) io" where
  "approve C lcd denom address messages fee =
     io_bind (io_lift (required (ce_decode_deposit C) (ce_decode_funds C) messages denom)) (\<lambda>funds.
     io_bind (io_lift (ok_or (checked_add funds fee) ''submission funding overflow'')) (\<lambda>amount.
     io_bind (io_ensure (ce_account_ok C address) ''invalid account'') (\<lambda>_.
     io_bind (io_ensure (ce_denom_ok C denom) ''invalid denom'') (\<lambda>_.
     io_bind (check_axelar_balance C lcd address denom amount) (\<lambda>_.
     io_bind (if list_ex (\<lambda>m. any_type_url m = ''/cosmos.gov.v1.MsgSubmitProposal'') messages
              then io_bind (gov_parameters C lcd) (\<lambda>_. io_return ())
              else io_return ()) (\<lambda>_.
     io_bind (io_lift (all_ok (preview C) messages)) (\<lambda>_.
     ask (ce_machine C) (\<lambda>k. Inr (ev_confirm (ce_machine C) k)))))))))"

definition cosmos_intent :: "cosmos_env \<Rightarrow> string \<Rightarrow> string \<Rightarrow> string \<Rightarrow> any list \<Rightarrow> b256" where
  "cosmos_intent C address chain_id fee_denom messages =
     ev_keccak (ce_machine C) (ce_intent_json C address chain_id fee_denom
       (map (\<lambda>m. (any_type_url m, ce_hex C (any_value m))) messages))"

definition cosmos_send ::
  "cosmos_env \<Rightarrow> session option \<Rightarrow> string option \<Rightarrow> bytes \<Rightarrow> string \<Rightarrow> string \<Rightarrow> string \<Rightarrow> string
   \<Rightarrow> gas_price \<Rightarrow> any list \<Rightarrow> (deploy_world, json) io" where
  "cosmos_send C ss scope signing_key address lcd chain_id fee_denom price messages =
     io_bind (io_ensure (gp_valid price) ''invalid gas price'') (\<lambda>_.
     io_bind (io_lift (ok_or ss ''missing hardened deployment session'')) (\<lambda>s.
     io_bind (io_ensure (chain_id = pl_axelar_chain_id (ss_plan s)) ''Axelar network mismatch'') (\<lambda>_.
     let intent = cosmos_intent C address chain_id fee_denom messages in
     io_bind (io_lift (ok_or scope ''missing action scope'')) (\<lambda>step.
     let key = action_key step ''cosmos'' in
     io_bind (io_gets (\<lambda>w. session_get (dw_journal w) key)) (\<lambda>found.
     case found of
       Some saved \<Rightarrow>
         io_bind (io_ensure (\<not> is_evm saved) ''wrong journal transaction type'') (\<lambda>_.
         io_bind (io_ensure (tx_intent saved = intent)
           ''Cosmos transaction intent changed; refusing replacement'') (\<lambda>_.
         cosmos_resume C ss lcd saved key))
     | None \<Rightarrow>
         io_bind (lcd_query_account C lcd address) (\<lambda>(account_number, sequence).
         io_bind (io_gets dw_journal) (\<lambda>j.
         io_bind (io_lift (validate_cosmos_retry j key intent sequence)) (\<lambda>_.
         let input = \<lparr> in_chain_id = chain_id, in_account_number = account_number,
               in_sequence = sequence, in_gas_limit = 10000000, in_fee_amount = 0,
               in_fee_denom = fee_denom, in_messages = messages \<rparr> in
         io_bind (io_lift (build_and_sign_cosmos_tx C signing_key input)) (\<lambda>simulation.
         io_bind (io_lift (unsigned_simulation C simulation)) (\<lambda>unsigned.
         io_bind (lcd_simulate_tx C lcd unsigned) (\<lambda>used.
         io_bind (io_lift (ok_or (checked_mul used 3) ''gas overflow'')) (\<lambda>gas_limit.
         let fee_amount = gp_fee price gas_limit;
             input = input\<lparr> in_gas_limit := gas_limit, in_fee_amount := fee_amount \<rparr> in
         io_bind (io_gets dw_journal) (\<lambda>j.
         io_bind (io_lift (check_fee_budget (ss_plan s) j address sequence fee_amount)) (\<lambda>_.
         io_bind (approve C lcd fee_denom address messages fee_amount) (\<lambda>approved.
         if \<not> approved then io_raise (Paused ''Transaction declined; it was not submitted'')
         else
           io_bind (io_lift (build_and_sign_cosmos_tx C signing_key input)) (\<lambda>raw.
           let saved = CosmosTxn intent raw (ce_sha256_hex C raw) address (show_word fee_amount) sequence in
           io_bind (commit (ce_machine C) (session_record key saved)) (\<lambda>_.
           cosmos_resume C ss lcd saved key)))))))))))))))))"

text \<open>The entry point every Cosmos message goes through; without a session it signs and waits.\<close>

definition sign_and_broadcast_cosmos_tx ::
  "cosmos_env \<Rightarrow> bool \<Rightarrow> session option \<Rightarrow> string option \<Rightarrow> bytes \<Rightarrow> string \<Rightarrow> string \<Rightarrow> string \<Rightarrow> string
   \<Rightarrow> gas_price \<Rightarrow> any list \<Rightarrow> (deploy_world, json) io" where
  "sign_and_broadcast_cosmos_tx C hardened_required ss scope signing_key address lcd chain_id fee_denom
     price messages =
     io_bind (io_lift (validate_context hardened_required (ss \<noteq> None))) (\<lambda>_.
     if ss \<noteq> None
     then cosmos_send C ss scope signing_key address lcd chain_id fee_denom price messages
     else
       io_bind (lcd_query_account C lcd address) (\<lambda>(account_number, sequence).
       let input = \<lparr> in_chain_id = chain_id, in_account_number = account_number,
             in_sequence = sequence, in_gas_limit = 10000000, in_fee_amount = 0,
             in_fee_denom = fee_denom, in_messages = messages \<rparr> in
       io_bind (io_lift (build_and_sign_cosmos_tx C signing_key input)) (\<lambda>sim_tx.
       io_bind (lcd_simulate_tx C lcd sim_tx) (\<lambda>gas_used.
       let gas_limit = gp_gas price gas_used;
           input = input\<lparr> in_gas_limit := gas_limit, in_fee_amount := gp_fee price gas_limit \<rparr> in
       io_bind (io_lift (build_and_sign_cosmos_tx C signing_key input)) (\<lambda>tx_bytes.
       io_bind (lcd_broadcast_tx C lcd tx_bytes) (\<lambda>response.
       lcd_wait_for_tx C lcd (case Option.bind (json_pointer response [''tx_response'', ''txhash'']) as_str of
         Some h \<Rightarrow> h | None \<Rightarrow> [])))))))"

subsection \<open>Fee-only replacement\<close>

text \<open>The signing role of a Cosmos step; a blank credential counts as missing.\<close>

definition is_whitespace :: "char \<Rightarrow> bool" where
  "is_whitespace c = (of_char c \<in> {9 :: nat, 10, 11, 12, 13, 32})"

definition mnemonic_for :: "state \<Rightarrow> string \<Rightarrow> string result" where
  "mnemonic_for st step =
     and_then (if step = ''AddRewards'' then Inr (st_rewards_funder_mnemonic st)
               else if step = ''WaitForVerifierSet'' then Inr (st_admin_mnemonic st)
               else if step = ''InstantiateChainContracts'' \<or> step = ''RegisterItsOnHub''
               then Inr (Some (st_mnemonic st))
               else Inl (Report ''unknown Cosmos signing role'')) (\<lambda>value.
     ok_or (case value of
              Some v \<Rightarrow> if list_all is_whitespace v then None else Some v
            | None \<Rightarrow> None) ''missing mnemonic: explicitly supply the signer'')"

definition strip_suffix :: "string \<Rightarrow> string \<Rightarrow> string option" where
  "strip_suffix suffix s =
     (if length suffix \<le> length s \<and> drop (length s - length suffix) s = suffix
      then Some (take (length s - length suffix) s) else None)"

definition fee_increases :: "fee \<Rightarrow> string \<Rightarrow> u128 \<Rightarrow> bool result" where
  "fee_increases fee old_fee amount =
     (case fe_amount fee of
        [(denom, coin_amount)] \<Rightarrow>
          if coin_amount = old_fee
          then and_then (ok_or (parse_word old_fee) ''invalid digit found in string'') (\<lambda>old.
               Inr (amount > old))
          else Inr False
      | _ \<Rightarrow> Inr False)"

definition resign ::
  "cosmos_env \<Rightarrow> transaction \<Rightarrow> bytes \<Rightarrow> string \<Rightarrow> u64 \<Rightarrow> u128 \<Rightarrow> transaction result" where
  "resign C saved key chain account amount =
     (case saved of
        EvmTx _ _ _ _ _ _ \<Rightarrow> Inl (Report ''expected Cosmos action'')
      | CosmosTxn intent raw h sender old_fee sequence \<Rightarrow>
          and_then (ensure (ce_sha256_hex C raw = h) ''signed bytes mismatch'') (\<lambda>_.
          and_then (ok_or (ce_decode_tx C raw) ''failed to decode Protobuf message'') (\<lambda>tx.
          and_then (ok_or (ce_decode_auth C (tr_auth_info_bytes tx)) ''failed to decode Protobuf message'') (\<lambda>auth.
          and_then (validate_sequence C raw sequence) (\<lambda>_.
          and_then (ok_or (ce_account_id C key) ''invalid signer'') (\<lambda>account_id.
          and_then (if account_id = sender
                    then and_then (ok_or (ce_public_key C key) ''invalid public key'') (\<lambda>public_key.
                         Inr (si_public_key (hd (ai_signer_infos auth)) = Some public_key \<and>
                              length (tr_signatures tx) = 1))
                    else Inr False) (\<lambda>same_signer.
          and_then (ensure same_signer ''Cosmos replacement signer mismatch'') (\<lambda>_.
          let doc = \<lparr> sd_body_bytes = tr_body_bytes tx, sd_auth_info_bytes = tr_auth_info_bytes tx,
                sd_chain_id = chain, sd_account_number = account \<rparr> in
          and_then (ensure (ce_verify C key (ce_encode_doc C doc) (hd (tr_signatures tx)))
            ''original Cosmos signature does not match chain, account number or signer'') (\<lambda>_.
          and_then (ensure (ce_encode_auth C auth = tr_auth_info_bytes tx)
            ''unsupported noncanonical Cosmos auth info'') (\<lambda>_.
          and_then (ok_or (ai_fee auth) ''missing fee'') (\<lambda>fee.
          and_then (fee_increases fee old_fee amount) (\<lambda>higher.
          and_then (ensure higher ''replacement must increase the original single-denomination fee'') (\<lambda>_.
          let fee' = fee\<lparr> fe_amount := [(fst (hd (fe_amount fee)), show_word amount)] \<rparr>;
              auth_bytes = ce_encode_auth C (auth\<lparr> ai_fee := Some fee' \<rparr>) in
          and_then (ok_or (ce_sign C key (ce_encode_doc C (doc\<lparr> sd_auth_info_bytes := auth_bytes \<rparr>)))
            ''replacement signing failed'') (\<lambda>sig.
          let raw' = ce_encode_tx C (tx\<lparr> tr_auth_info_bytes := auth_bytes, tr_signatures := [sig] \<rparr>) in
          Inr (CosmosTxn intent raw' (ce_sha256_hex C raw') sender (show_word amount) sequence)))))))))))))))"

definition cosmos_bump ::
  "cosmos_env \<Rightarrow> session \<Rightarrow> state \<Rightarrow> string \<Rightarrow> string \<Rightarrow> transaction \<Rightarrow> (deploy_world, unit) io" where
  "cosmos_bump C s st lcd key saved =
     io_bind (confirmed C (Some s) lcd saved key) (\<lambda>found.
     if found \<noteq> None then io_return ()
     else
       (case saved of
          EvmTx _ _ _ _ _ _ \<Rightarrow> io_raise (Report ''expected Cosmos action'')
        | CosmosTxn _ _ _ sender _ sequence \<Rightarrow>
            io_bind (lcd_query_account C lcd sender) (\<lambda>(account, current).
            io_bind (io_ensure (current = sequence) ''sequence consumed or unavailable'') (\<lambda>_.
            io_bind (io_lift (ok_or (strip_suffix ''/cosmos'' key) ''invalid Cosmos action key'')) (\<lambda>step.
            io_bind (io_lift (mnemonic_for st step)) (\<lambda>mnemonic.
            io_bind (io_lift (ok_or (ce_wallet C mnemonic) ''invalid mnemonic'')) (\<lambda>(signing_key, _).
            io_bind (io_lift (ok_or (op_cosmos_fee (ss_options s)) ''supply --cosmos-fee'')) (\<lambda>amount.
            io_bind (io_lift (resign C saved signing_key (pl_axelar_chain_id (ss_plan s)) account amount)) (\<lambda>replacement.
            io_bind (io_lift (ok_or (ce_decode_tx C (tx_raw replacement)) ''failed to decode Protobuf message'')) (\<lambda>tx.
            io_bind (io_lift (ok_or (ce_decode_auth C (tr_auth_info_bytes tx)) ''failed to decode Protobuf message'')) (\<lambda>auth.
            io_bind (io_lift (ok_or (ai_fee auth) ''missing fee'')) (\<lambda>fee.
            let denom = fst (hd (fe_amount fee)) in
            io_bind (io_lift (ok_or (ce_decode_body C (tr_body_bytes tx)) ''failed to decode Protobuf message'')) (\<lambda>messages.
            io_bind (io_gets dw_journal) (\<lambda>j.
            io_bind (io_lift (check_fee_budget (ss_plan s) j sender sequence amount)) (\<lambda>_.
            io_bind (io_lift (required (ce_decode_deposit C) (ce_decode_funds C) messages denom)) (\<lambda>funds.
            io_bind (io_lift (ok_or (checked_add funds amount) ''funding overflow'')) (\<lambda>needed.
            io_bind (io_ensure (ce_account_ok C sender) ''invalid account'') (\<lambda>_.
            io_bind (io_ensure (ce_denom_ok C denom) ''invalid denom'') (\<lambda>_.
            io_bind (check_axelar_balance C lcd sender denom needed) (\<lambda>_.
            io_bind (io_lift (all_ok (preview C) messages)) (\<lambda>_.
            io_bind (ask (ce_machine C) (\<lambda>k. Inr (ev_confirm (ce_machine C) k))) (\<lambda>approved.
            if \<not> approved then io_raise (Paused ''Cosmos fee replacement declined'')
            else
              io_bind (commit (ce_machine C) (journal_replace key replacement)) (\<lambda>_.
              io_bind (cosmos_resume C (Some s) lcd replacement key) (\<lambda>_.
              io_return ()))))))))))))))))))))))))"

definition cosmos_reconcile ::
  "cosmos_env \<Rightarrow> session \<Rightarrow> state \<Rightarrow> string \<Rightarrow> string \<Rightarrow> transaction \<Rightarrow> (deploy_world, unit) io" where
  "cosmos_reconcile C s st lcd key saved =
     (if is_evm saved then io_return ()
      else if op_bump_fees (ss_options s) = Some key then cosmos_bump C s st lcd key saved
      else io_bind (cosmos_resume C (Some s) lcd saved key) (\<lambda>_. io_return ()))"

subsection \<open>Direct execution\<close>

definition validate_authority :: "string \<Rightarrow> string \<Rightarrow> unit result" where
  "validate_authority signer governor =
     ensure (signer = governor) ''devnet direct execution requires the governance authority''"

definition validate_submission :: "cosmos_env \<Rightarrow> transaction \<Rightarrow> unit result" where
  "validate_submission C saved =
     (case saved of
        EvmTx _ _ _ _ _ _ \<Rightarrow> Inl (Report ''expected Cosmos transaction'')
      | CosmosTxn _ raw _ _ _ _ \<Rightarrow>
          and_then (ok_or (ce_decode_tx C raw) ''failed to decode Protobuf message'') (\<lambda>tx.
          and_then (ok_or (ce_decode_body C (tr_body_bytes tx)) ''failed to decode Protobuf message'') (\<lambda>messages.
          ensure (messages \<noteq> [] \<and>
              list_all (\<lambda>m. any_type_url m = ''/cosmwasm.wasm.v1.MsgExecuteContract'') messages)
            ''this devnet journal contains governance submissions'')))"

definition direct_check ::
  "cosmos_env \<Rightarrow> session \<Rightarrow> string \<Rightarrow> string \<Rightarrow> (deploy_world, unit) io" where
  "direct_check C s lcd checkpoint =
     io_bind (if checkpoint = ''instantiate'' then io_return ''InstantiateChainContracts''
              else if checkpoint = ''itsHubRegister'' then io_return ''RegisterItsOnHub''
              else io_raise (Report ''unknown direct execution checkpoint'')) (\<lambda>step.
     let key = action_key step ''cosmos'' in
     io_bind (io_gets (\<lambda>w. session_get (dw_journal w) key)) (\<lambda>found.
     io_bind (io_lift (ok_or found ''no journaled direct execution'')) (\<lambda>saved.
     io_bind (io_lift (validate_submission C saved)) (\<lambda>_.
     io_bind (cosmos_resume C (Some s) lcd saved key) (\<lambda>_.
     io_return ())))))"

subsection \<open>Nothing is broadcast before it is on disk\<close>

lemma keeps_recovery_lcd [hoare_rules, simp]: "keeps (quiet w0) (recovery_lcd C ss)"
  unfolding recovery_lcd_def by (intro keeps_option keeps_bind) simp_all

lemma keeps_lookup [hoare_rules, simp]: "keeps (quiet w0) (lookup C lcd h)"
  unfolding lookup_def by (intro keeps_bind keeps_if) simp_all

lemma keeps_scan [hoare_rules, simp]: "keeps (quiet w0) (scan_attempts C ss sender sequence ts pending)"
  by (induction C ss sender sequence ts pending rule: scan_attempts.induct)
    (auto simp: cosmos_confirmation_def intro!: keeps_bind keeps_option)

lemma keeps_approve [hoare_rules, simp]: "keeps (quiet w0) (approve C lcd denom address messages fee)"
  unfolding approve_def by (intro keeps_bind keeps_if) simp_all

lemma steady_prod [intro]: "(\<And>a b. steady key A (f a b)) \<Longrightarrow> steady key A (case p of (a, b) \<Rightarrow> f a b)"
  by (cases p) simp

lemma steady_sum [intro]:
  "(\<And>e. steady key A (a e)) \<Longrightarrow> (\<And>x. steady key A (b x)) \<Longrightarrow>
   steady key A (case r of Inl e \<Rightarrow> a e | Inr x \<Rightarrow> b x)"
  by (cases r) auto

lemma steady_pure [simp]: "steady key A (io_return x)" "steady key A (io_raise e)" "steady key A (io_lift r)"
  by (rule steady_quiet, simp)+

lemma steady_record_response [simp]: "steady key A (record_response C ss h response)"
  unfolding record_response_def
  using steady_commit [of key A "ce_machine C" "Confirm h c" for c]
  by (intro steady_bind steady_prod steady_if) simp_all

lemma steady_lookup_first [simp]: "steady key A (lookup_first C ss lcd hs)"
  by (induction hs) (auto intro!: steady_bind steady_option intro: steady_quiet)

lemma steady_confirmed [simp]: "steady key A (confirmed C ss lcd saved k)"
  unfolding confirmed_def
  by (cases saved) (auto intro!: steady_bind steady_sum steady_option intro: steady_quiet)

lemma steady_await_confirmed [simp]: "steady key A (await_confirmed C ss lcd saved k n)"
  by (induction n) (auto intro!: steady_bind steady_option intro: steady_quiet)

lemma steady_try_log:
  assumes "t \<in> A" and quiet: "\<And>w0. keeps (quiet w0) rest"
  shows "steady key A
    (io_try (io_bind (io_modify (\<lambda>w. w\<lparr> dw_sent := tx_raw t # dw_sent w \<rparr>)) (\<lambda>_. rest)))"
    (is "steady key A (io_try ?m)")
proof -
  have run: "holding key A w'" if "holding key A w" "?m w = (r, w')" for w r w'
  proof -
    let ?v = "w\<lparr> dw_sent := tx_raw t # dw_sent w \<rparr>"
    have "holding key A ?v" using steadyD(1) [OF steady_log [OF assms(1)] that(1)] by simp
    moreover have "rest ?v = (r, w')" using that(2) by (simp add: io_bind_def)
    ultimately show ?thesis using quiet_holding quiet_run [OF quiet] by blast
  qed
  show ?thesis
    unfolding steady_def
  proof (rule triple_intro)
    fix w x w' assume hold: "holding key A w" and tried: "io_try ?m w = (Inr x, w')"
    obtain r v where m: "?m w = (r, v)" by (cases "?m w")
    with tried have "v = w'" by (simp only: io_try_def prod.case prod.inject)
    then show "holding key A w'" using run [OF hold m] by simp
  next
    fix w e w' assume "io_try ?m w = (Inl e, w')"
    moreover obtain r v where "?m w = (r, v)" by (cases "?m w")
    ultimately show "safe w'" by (simp only: io_try_def prod.case prod.inject sum.distinct simp_thms)
  qed
qed

lemma steady_broadcast_tx:
  "t \<in> A \<Longrightarrow> steady key A (io_try (lcd_broadcast_tx C lcd (tx_raw t)))"
  unfolding lcd_broadcast_tx_def by (rule steady_try_log) (simp | intro keeps_bind)+

lemma cosmos_resume_steady:
  assumes "saved \<in> A"
  shows "steady key A (cosmos_resume C ss lcd saved k)"
proof (cases saved)
  case (CosmosTxn i raw h sender f sequence)
  have "steady key A (io_try (lcd_broadcast_tx C lcd raw))"
    using steady_broadcast_tx [OF assms, of key C lcd] CosmosTxn by simp
  then show ?thesis
    unfolding cosmos_resume_def CosmosTxn transaction.case
    by (intro steady_bind steady_option steady_prod steady_sum) (auto intro: steady_quiet)
qed (auto simp: cosmos_resume_def intro!: steady_bind steady_option)

lemma cosmos_resume_holding:
  "triple (holding k {saved}) (cosmos_resume C ss lcd saved k) (\<lambda>_. holding key {}) (\<lambda>_. safe)"
  by (rule triple_steady [OF cosmos_resume_steady]) (auto simp: holding_def)

lemma cosmos_send_holding:
  "triple (holding key {}) (cosmos_send C ss scope sk address lcd chain denom price messages)
     (\<lambda>_. holding key {}) (\<lambda>_. safe)"
  unfolding cosmos_send_def Let_def
  apply (rule triple_bind [OF session_get_holding] | (rule steady_then, rule steady_quiet, (simp; fail)))+
  apply (split option.split, intro conjI impI allI)
   apply (simp only: option.case)
   apply (rule steady_then, rule steady_quiet, (simp; fail))
   apply (split prod.split, intro allI impI)
   apply (rule steady_then, rule steady_quiet, (simp; fail))+
   apply (rule triple_if, simp)
   apply (rule steady_then, rule steady_quiet, (simp; fail))+
   apply (rule triple_bind [OF record_fresh], rule cosmos_resume_holding)
  apply (simp only: option.case)
  apply (rule steady_then, rule steady_quiet, (simp; fail))+
  apply (rule cosmos_resume_holding)
  done

lemma replace_fresh:
  "triple (holding k A) (commit E (journal_replace k t)) (\<lambda>_. holding k {t}) (\<lambda>_. safe)"
  by (rule triple_conseq [OF replace_holding [of k A]]) (auto simp: holding_def)

lemma cosmos_bump_holding:
  "triple (holding key {}) (cosmos_bump C s st lcd k saved) (\<lambda>_. holding key {}) (\<lambda>_. safe)"
proof (cases saved)
  case (CosmosTxn i raw h sender f sequence)
  have start: "triple (holding key {}) m Q R" if "triple (holding k {}) m Q R" for m :: "(deploy_world, unit) io" and Q R
    by (rule triple_conseq [OF that]) (auto simp: holding_def)
  show ?thesis
    unfolding cosmos_bump_def CosmosTxn transaction.case Let_def
    apply (rule steady_then [OF steady_confirmed])
    apply (rule triple_if, rule triple_return, assumption)
    apply (rule steady_then, rule steady_quiet, (simp; fail))
    apply (split prod.split, intro allI impI)
    apply (rule steady_then, rule steady_quiet, (simp; fail))+
    apply (split prod.split, intro allI impI)
    apply (rule steady_then, rule steady_quiet, (simp; fail))+
    apply (rule triple_if, simp)
    apply (rule start, rule triple_bind [OF replace_fresh])
    apply (rule triple_bind [OF cosmos_resume_holding], rule triple_return, assumption)
    done
next
  case EvmTx
  then show ?thesis
    unfolding cosmos_bump_def by (auto simp: confirmed_def triple_def io_bind_def holding_safe)
qed

subsection \<open>Nothing known is lost along the way\<close>

lemmas knows_intros = keeps_transaction keeps_bind keeps_option keeps_if keeps_sum keeps_prod

text \<open>Invariants that neither reads nor new confirmations disturb.\<close>

definition confirm_stable :: "evm_env \<Rightarrow> (deploy_world \<Rightarrow> bool) \<Rightarrow> bool" where
  "confirm_stable E I = (quiet_stable I \<and> (\<forall>h c. keeps I (commit E (journal_confirm h c))))"

lemma confirm_stable_knows [simp]: "confirm_stable E (knows K)"
  by (simp add: confirm_stable_def)

lemma keeps_record_response:
  "confirm_stable (ce_machine C) I \<Longrightarrow> keeps I (record_response C ss h response)"
  unfolding record_response_def by (intro knows_intros) (simp_all add: confirm_stable_def)

lemma keeps_lookup_first:
  assumes "confirm_stable (ce_machine C) I"
  shows "keeps I (lookup_first C ss lcd hs)"
  using keeps_record_response [OF assms] assms
  by (induction hs)
    (simp, simp only: lookup_first.simps, intro knows_intros, simp_all add: confirm_stable_def keeps_stable)

lemma keeps_confirmed:
  "confirm_stable (ce_machine C) I \<Longrightarrow> keeps I (confirmed C ss lcd saved key)"
  unfolding confirmed_def
  by (intro knows_intros) (simp_all add: confirm_stable_def keeps_stable keeps_lookup_first)

lemma keeps_knows_confirmed [simp]: "keeps (knows K) (confirmed C ss lcd saved key)"
  by (simp add: keeps_confirmed)

lemma keeps_knows_await [simp]: "keeps (knows K) (await_confirmed C ss lcd saved key n)"
  by (induction n)
    (simp, simp only: await_confirmed.simps, intro knows_intros, simp_all add: keeps_knows_quiet)

lemma keeps_knows_broadcast_tx [simp]: "keeps (knows K) (lcd_broadcast_tx C lcd raw)"
  unfolding lcd_broadcast_tx_def by (intro knows_intros) (simp_all add: keeps_knows_quiet)

lemma keeps_knows_cosmos_resume [simp]: "keeps (knows K) (cosmos_resume C ss lcd saved key)"
  unfolding cosmos_resume_def by (intro knows_intros keeps_try) (simp_all add: keeps_knows_quiet)

lemma keeps_knows_cosmos_send [simp]:
  "keeps (knows K) (cosmos_send C ss scope sk address lcd chain denom price messages)"
  unfolding cosmos_send_def Let_def by (intro knows_intros) (simp_all add: keeps_knows_quiet)

lemma keeps_knows_cosmos_bump [simp]: "keeps (knows K) (cosmos_bump C s st lcd key saved)"
  unfolding cosmos_bump_def Let_def by (intro knows_intros) (simp_all add: keeps_knows_quiet)

lemma keeps_knows_cosmos_reconcile [simp]: "keeps (knows K) (cosmos_reconcile C s st lcd key saved)"
  unfolding cosmos_reconcile_def by (intro knows_intros) simp_all

lemma keeps_knows_direct_check [simp]: "keeps (knows K) (direct_check C s lcd checkpoint)"
  unfolding direct_check_def Let_def by (intro knows_intros) simp_all

lemma cosmos_reconcile_holding:
  "triple (holding k {saved}) (cosmos_reconcile C s st lcd k saved) (\<lambda>_. holding key {}) (\<lambda>_. safe)"
  unfolding cosmos_reconcile_def
  apply (rule triple_if, rule triple_return, simp add: holding_def)
  apply (rule triple_if, rule triple_conseq [OF cosmos_bump_holding [of key]])
     apply (simp_all add: holding_def)
  apply (rule triple_bind [OF cosmos_resume_holding], rule triple_return, assumption)
  done

end
