(* ===== verification/Cosmos_Fees.thy ===== *)
theory Cosmos_Fees
  imports Cosmos_Recovery
begin

text \<open>
  What a Cosmos fee replacement may change.  The signed bytes are read through the Protobuf
  codec; the property needs that decoding undoes encoding, which \<open>codec\<close> states and the sample
  codec at the end satisfies.
\<close>

definition codec :: "cosmos_env \<Rightarrow> bool" where
  "codec C =
     ((\<forall>tx. ce_decode_tx C (ce_encode_tx C tx) = Some tx) \<and>
      (\<forall>auth. ce_decode_auth C (ce_encode_auth C auth) = Some auth))"

lemma fee_increases_True:
  "fee_increases fee old_fee amount = Inr True \<Longrightarrow>
     \<exists>denom old. fe_amount fee = [(denom, old_fee)] \<and> parse_word old_fee = Some old \<and> old < amount"
  by (auto simp: fee_increases_def result_simps split: list.splits prod.splits if_splits)

text \<open>
  C21: Bumping the fee of a Cosmos transaction changes nothing but the fee.  The replacement
  carries the same message bytes, the same signer infos and gas limit, the same sender, sequence
  and intent; its single fee coin has the original denomination and a strictly larger amount,
  which is the approved one; its hash is that of its own bytes, and it passes the sequence check.
\<close>

theorem resign_changes_only_fee:
  assumes "resign C (CosmosTxn intent raw h sender old_fee sequence) key chain account amount = Inr t"
    and "codec C"
  shows "\<exists>tx auth fee denom old raw'.
    t = CosmosTxn intent raw' (ce_sha256_hex C raw') sender (show_word amount) sequence \<and>
    ce_decode_tx C raw = Some tx \<and> ce_decode_auth C (tr_auth_info_bytes tx) = Some auth \<and>
    ai_fee auth = Some fee \<and> fe_amount fee = [(denom, old_fee)] \<and>
    parse_word old_fee = Some old \<and> old < amount \<and>
    (\<exists>tx'. ce_decode_tx C raw' = Some tx' \<and> tr_body_bytes tx' = tr_body_bytes tx \<and>
       ce_decode_auth C (tr_auth_info_bytes tx') =
         Some (auth\<lparr> ai_fee := Some (fee\<lparr> fe_amount := [(denom, show_word amount)] \<rparr>) \<rparr>)) \<and>
    validate_sequence C raw' sequence = Inr ()"
proof -
  obtain tx auth fee denom old sig raw' where
    dec: "ce_decode_tx C raw = Some tx" "ce_decode_auth C (tr_auth_info_bytes tx) = Some auth"
      "validate_sequence C raw sequence = Inr ()"
    and fee: "ai_fee auth = Some fee" "fe_amount fee = [(denom, old_fee)]"
      "parse_word old_fee = Some old" "old < amount"
    and raw': "raw' = ce_encode_tx C (tx\<lparr> tr_auth_info_bytes := ce_encode_auth C
        (auth\<lparr> ai_fee := Some (fee\<lparr> fe_amount := [(denom, show_word amount)] \<rparr>) \<rparr>),
        tr_signatures := [sig] \<rparr>)"
      "t = CosmosTxn intent raw' (ce_sha256_hex C raw') sender (show_word amount) sequence"
    using assms(1)
    by (auto simp: resign_def result_simps Let_def dest!: fee_increases_True)
  have "validate_sequence C raw' sequence = Inr ()"
    using dec assms(2) by (simp add: validate_sequence_def codec_def raw' result_simps)
  moreover have "\<exists>tx'. ce_decode_tx C raw' = Some tx' \<and> tr_body_bytes tx' = tr_body_bytes tx \<and>
      ce_decode_auth C (tr_auth_info_bytes tx') =
        Some (auth\<lparr> ai_fee := Some (fee\<lparr> fe_amount := [(denom, show_word amount)] \<rparr>) \<rparr>)"
    using assms(2) by (simp add: codec_def raw'(1))
  ultimately show ?thesis using dec fee raw'(2) by blast
qed

subsection \<open>A sample codec\<close>

definition enc_nat :: "nat \<Rightarrow> bytes" where "enc_nat n = replicate n 1 @ [0]"

fun dec_nat :: "bytes \<Rightarrow> nat \<times> bytes" where
  "dec_nat [] = (0, [])"
| "dec_nat (b # bs) = (if b = 0 then (0, bs) else (let (n, rest) = dec_nat bs in (Suc n, rest)))"

fun dec_many :: "(bytes \<Rightarrow> 'a \<times> bytes) \<Rightarrow> nat \<Rightarrow> bytes \<Rightarrow> 'a list \<times> bytes" where
  "dec_many dec 0 bs = ([], bs)"
| "dec_many dec (Suc n) bs = (let (x, rest) = dec bs; (xs, rest) = dec_many dec n rest in (x # xs, rest))"

definition enc_list :: "('a \<Rightarrow> bytes) \<Rightarrow> 'a list \<Rightarrow> bytes" where
  "enc_list enc xs = enc_nat (length xs) @ concat (map enc xs)"

definition dec_list :: "(bytes \<Rightarrow> 'a \<times> bytes) \<Rightarrow> bytes \<Rightarrow> 'a list \<times> bytes" where
  "dec_list dec bs = (let (n, rest) = dec_nat bs in dec_many dec n rest)"

definition undoes :: "(bytes \<Rightarrow> 'a \<times> bytes) \<Rightarrow> ('a \<Rightarrow> bytes) \<Rightarrow> bool" where
  "undoes dec enc = (\<forall>x rest. dec (enc x @ rest) = (x, rest))"

lemma undoes_nat: "undoes dec_nat enc_nat"
proof -
  have "dec_nat (enc_nat n @ rest) = (n, rest)" for n rest
    by (induction n) (simp_all add: enc_nat_def)
  then show ?thesis by (simp add: undoes_def)
qed

lemma undoes_list:
  assumes "undoes dec enc"
  shows "undoes (dec_list dec) (enc_list enc)"
proof -
  have "dec_many dec (length xs) (concat (map enc xs) @ rest) = (xs, rest)" for xs rest
    using assms by (induction xs) (simp_all add: undoes_def)
  then show ?thesis
    using undoes_nat by (simp add: undoes_def enc_list_def dec_list_def)
qed

definition enc_byte :: "byte \<Rightarrow> bytes" where "enc_byte b = [b]"
definition dec_byte :: "bytes \<Rightarrow> byte \<times> bytes" where "dec_byte bs = (case bs of [] \<Rightarrow> (0, []) | b # rest \<Rightarrow> (b, rest))"
definition enc_char :: "char \<Rightarrow> bytes" where "enc_char c = [of_nat (of_char c)]"
definition dec_char :: "bytes \<Rightarrow> char \<times> bytes" where
  "dec_char bs = (let (b, rest) = dec_byte bs in (char_of (unat b), rest))"
definition enc_u64 :: "u64 \<Rightarrow> bytes" where "enc_u64 n = enc_nat (unat n)"
definition dec_u64 :: "bytes \<Rightarrow> u64 \<times> bytes" where
  "dec_u64 bs = (let (n, rest) = dec_nat bs in (of_nat n, rest))"
definition enc_opt :: "('a \<Rightarrow> bytes) \<Rightarrow> 'a option \<Rightarrow> bytes" where
  "enc_opt enc x = enc_list enc (case x of None \<Rightarrow> [] | Some y \<Rightarrow> [y])"
definition dec_opt :: "(bytes \<Rightarrow> 'a \<times> bytes) \<Rightarrow> bytes \<Rightarrow> 'a option \<times> bytes" where
  "dec_opt dec bs = (let (xs, rest) = dec_list dec bs in (case xs of [] \<Rightarrow> None | x # _ \<Rightarrow> Some x, rest))"

lemma undoes_basic: "undoes dec_byte enc_byte" "undoes dec_char enc_char" "undoes dec_u64 enc_u64"
  using undoes_nat nat_of_char_less_256
  by (simp_all add: undoes_def dec_byte_def enc_byte_def dec_char_def enc_char_def dec_u64_def enc_u64_def
      unat_of_nat take_bit_nat_eq_self)

lemma undoes_opt: "undoes dec enc \<Longrightarrow> undoes (dec_opt dec) (enc_opt enc)"
  using undoes_list [of dec enc] by (auto simp: undoes_def dec_opt_def enc_opt_def split: option.splits)


definition enc_string :: "string \<Rightarrow> bytes" where "enc_string = enc_list enc_char"
definition dec_string :: "bytes \<Rightarrow> string \<times> bytes" where "dec_string = dec_list dec_char"
definition enc_bytes :: "bytes \<Rightarrow> bytes" where "enc_bytes = enc_list enc_byte"
definition dec_bytes :: "bytes \<Rightarrow> bytes \<times> bytes" where "dec_bytes = dec_list dec_byte"

definition enc_coin :: "coin \<Rightarrow> bytes" where "enc_coin c = enc_string (fst c) @ enc_string (snd c)"
definition dec_coin :: "bytes \<Rightarrow> coin \<times> bytes" where
  "dec_coin bs = (let (d, r) = dec_string bs; (a, r) = dec_string r in ((d, a), r))"

definition enc_signer :: "signer_info \<Rightarrow> bytes" where
  "enc_signer s = enc_opt enc_bytes (si_public_key s) @ enc_u64 (si_sequence s) @ enc_bytes (si_mode s)"
definition dec_signer :: "bytes \<Rightarrow> signer_info \<times> bytes" where
  "dec_signer bs =
     (let (k, r) = dec_opt dec_bytes bs; (n, r) = dec_u64 r; (m, r) = dec_bytes r in
      (\<lparr> si_public_key = k, si_sequence = n, si_mode = m \<rparr>, r))"

definition enc_fee :: "fee \<Rightarrow> bytes" where
  "enc_fee f = enc_list enc_coin (fe_amount f) @ enc_u64 (fe_gas_limit f) @ enc_string (fe_payer f) @
     enc_string (fe_granter f)"
definition dec_fee :: "bytes \<Rightarrow> fee \<times> bytes" where
  "dec_fee bs =
     (let (a, r) = dec_list dec_coin bs; (g, r) = dec_u64 r; (p, r) = dec_string r; (q, r) = dec_string r in
      (\<lparr> fe_amount = a, fe_gas_limit = g, fe_payer = p, fe_granter = q \<rparr>, r))"

lemma undoes_parts:
  "undoes dec_string enc_string" "undoes dec_bytes enc_bytes" "undoes dec_coin enc_coin"
  "undoes dec_signer enc_signer" "undoes dec_fee enc_fee"
proof -
  show s: "undoes dec_string enc_string" and b: "undoes dec_bytes enc_bytes"
    by (simp_all add: enc_string_def dec_string_def enc_bytes_def dec_bytes_def undoes_list undoes_basic)
  show c: "undoes dec_coin enc_coin"
    using s by (simp add: undoes_def enc_coin_def dec_coin_def)
  show "undoes dec_signer enc_signer"
    using b undoes_opt [OF b] undoes_basic(3) by (simp add: undoes_def enc_signer_def dec_signer_def)
  show "undoes dec_fee enc_fee"
    using s undoes_list [OF c] undoes_basic(3) by (simp add: undoes_def enc_fee_def dec_fee_def)
qed

definition encode_auth :: "auth_info \<Rightarrow> bytes" where
  "encode_auth a = enc_list enc_signer (ai_signer_infos a) @ enc_opt enc_fee (ai_fee a) @ enc_bytes (ai_tip a)"
definition decode_auth :: "bytes \<Rightarrow> auth_info option" where
  "decode_auth bs =
     (let (s, r) = dec_list dec_signer bs; (f, r) = dec_opt dec_fee r; (t, r) = dec_bytes r in
      Some \<lparr> ai_signer_infos = s, ai_fee = f, ai_tip = t \<rparr>)"

definition encode_tx :: "tx_raw \<Rightarrow> bytes" where
  "encode_tx t = enc_bytes (tr_body_bytes t) @ enc_bytes (tr_auth_info_bytes t) @
     enc_list enc_bytes (tr_signatures t)"
definition decode_tx :: "bytes \<Rightarrow> tx_raw option" where
  "decode_tx bs =
     (let (b, r) = dec_bytes bs; (a, r) = dec_bytes r; (s, r) = dec_list dec_bytes r in
      Some \<lparr> tr_body_bytes = b, tr_auth_info_bytes = a, tr_signatures = s \<rparr>)"

lemma decode_encode: "decode_auth (encode_auth a) = Some a" "decode_tx (encode_tx t) = Some t"
proof -
  note parts = undoes_parts undoes_list [OF undoes_parts(4)] undoes_opt [OF undoes_parts(5)]
    undoes_list [OF undoes_parts(2)]
  have tail: "undoes dec enc \<Longrightarrow> dec (enc x) = (x, [])" for dec enc and x :: 'x
    unfolding undoes_def by (metis append_Nil2)
  show "decode_auth (encode_auth a) = Some a" "decode_tx (encode_tx t) = Some t"
    using parts tail [OF parts(2)] tail [OF parts(8)]
    by (simp_all add: undoes_def decode_auth_def encode_auth_def decode_tx_def encode_tx_def)
qed

subsection \<open>A sample replacement\<close>

definition sample_cosmos_env :: cosmos_env where
  "sample_cosmos_env =
     \<lparr> ce_machine = sample_env,
       ce_get = (\<lambda>_ _. Inl (Report ''offline'')), ce_post = (\<lambda>_ _ _. Inl (Report ''offline'')),
       ce_base64 = (\<lambda>_. ''tx''), ce_hex = (\<lambda>_. ''ff''), ce_sha256_hex = (\<lambda>_. ''AB''),
       ce_intent_json = (\<lambda>_ _ _ _. []), ce_decode_tx = decode_tx, ce_encode_tx = encode_tx,
       ce_decode_auth = decode_auth, ce_encode_auth = encode_auth, ce_decode_body = (\<lambda>_. Some []),
       ce_encode_doc = sd_auth_info_bytes, ce_decode_deposit = (\<lambda>_. Some []),
       ce_decode_funds = (\<lambda>_. Some []), ce_proposal_shows = (\<lambda>_. True), ce_execute_shows = (\<lambda>_. True),
       ce_wallet = (\<lambda>_. Some ([1], ''axelar1a'')), ce_account_id = (\<lambda>_. Some ''axelar1a''),
       ce_public_key = (\<lambda>_. Some [7]), ce_verify = (\<lambda>_ _ _. True), ce_sign = (\<lambda>_ _. Some [9]),
       ce_account_ok = (\<lambda>_. True), ce_denom_ok = (\<lambda>_. True), ce_chain_ok = (\<lambda>_. True),
       ce_body = (\<lambda>_. [3]), ce_direct_auth = (\<lambda>_ _ _ _ _. []) \<rparr>"

definition sample_auth :: "string \<Rightarrow> auth_info" where
  "sample_auth amount =
     \<lparr> ai_signer_infos = [\<lparr> si_public_key = Some [7], si_sequence = 4, si_mode = [] \<rparr>],
       ai_fee = Some \<lparr> fe_amount = [(''uaxl'', amount)], fe_gas_limit = 21, fe_payer = [], fe_granter = [] \<rparr>,
       ai_tip = [] \<rparr>"

definition sample_raw :: "string \<Rightarrow> bytes" where
  "sample_raw amount =
     encode_tx \<lparr> tr_body_bytes = [3], tr_auth_info_bytes = encode_auth (sample_auth amount),
       tr_signatures = [[9]] \<rparr>"

lemma sample_codec: "codec sample_cosmos_env"
  by (simp add: codec_def sample_cosmos_env_def decode_encode)

lemma sample_resign:
  "resign sample_cosmos_env (CosmosTxn 5 (sample_raw ''100'') ''AB'' ''axelar1a'' ''100'' 4) [1]
     ''axelar-dojo-1'' 2 250 = Inr (CosmosTxn 5 (sample_raw (show_word (250 :: u128))) ''AB'' ''axelar1a''
       (show_word (250 :: u128)) 4)"
  by (simp add: resign_def validate_sequence_def sample_raw_def sample_auth_def sample_cosmos_env_def
      decode_encode fee_increases_def parse_eval)

theorem resign_changes_only_fee_witness:
  "\<exists>old. parse_word ''100'' = Some old \<and> old < (250 :: u128) \<and>
     validate_sequence sample_cosmos_env (sample_raw (show_word (250 :: u128))) 4 = Inr ()"
  using resign_changes_only_fee [OF sample_resign sample_codec] by auto

end
