(* ===== verification/Deploy_Recovery.thy ===== *)
theory Deploy_Recovery
  imports Cosmos_Fees
begin

text \<open>
  Operator-driven recovery (\<open>hardened/recovery.rs\<close>): the checks of the recovery flags, and the
  retirement of a failed attempt, which needs a proof of failure from the chain.
\<close>

subsection \<open>Flags and progress\<close>

text \<open>The checks for one named recovery action: it exists, and the other flags fit its kind.\<close>

definition validate_recovery_key ::
  "options \<Rightarrow> (string \<times> transaction) list \<Rightarrow> string \<Rightarrow> unit result" where
  "validate_recovery_key opts actions key =
     and_then (ok_or (find (\<lambda>(name, _). name = key) actions) ''unknown recovery action'') (\<lambda>(_, saved).
     and_then (if op_retry_failed opts = Some key \<and> op_retry_gas_limit opts \<noteq> None
               then ensure (is_evm saved) ''--retry-gas-limit only applies to EVM actions''
               else Inr ()) (\<lambda>_.
     if op_bump_fees opts = Some key
     then ensure ((\<not> is_evm saved) = (op_cosmos_fee opts \<noteq> None))
       ''Cosmos fee replacement requires --cosmos-fee; EVM replacements must omit it''
     else Inr ()))"

definition validate_options :: "options \<Rightarrow> (string \<times> transaction) list \<Rightarrow> unit result" where
  "validate_options opts actions =
     all_ok (validate_recovery_key opts actions)
       (List.map_filter id [op_bump_fees opts, op_retry_failed opts])"

text \<open>\<open>split_once('/')\<close>: the text before the first slash, when there is one.\<close>

definition key_step :: "string \<Rightarrow> string option" where
  "key_step key =
     (if CHR ''/'' \<in> set key then Some (takeWhile (\<lambda>c. c \<noteq> CHR ''/'') key) else None)"

definition validate_progress :: "state \<Rightarrow> string \<Rightarrow> unit result" where
  "validate_progress st key =
     and_then (ok_or (key_step key) ''invalid action key'') (\<lambda>step.
     and_then (ensure ((case next_pending_step st of
                          Some (_, nxt) \<Rightarrow> step_name nxt = step | None \<Rightarrow> False) \<and>
                       list_ex (\<lambda>s. step_name s = step \<and> step_status_of s = Pending) (st_steps st))
       ''only the next pending step can be retried'') (\<lambda>_.
     let proposal = (if step = ''InstantiateChainContracts'' then Some ''instantiate''
                     else if step = ''RegisterItsOnHub'' then Some ''itsHubRegister'' else None) in
     ensure (case proposal of
               None \<Rightarrow> True | Some p \<Rightarrow> \<not> bt_contains (st_proposals st) p)
       ''a proposal already exists''))"

subsection \<open>Retiring a failed attempt\<close>

definition failed_on_chain :: "journal \<Rightarrow> string \<Rightarrow> bool" where
  "failed_on_chain j h =
     (case journal_confirmation j h of
        Some (CosmosConfirmation height code _) \<Rightarrow> height > 0 \<and> code \<noteq> 0
      | _ \<Rightarrow> False)"

fun failed_from :: "cosmos_env \<Rightarrow> journal \<Rightarrow> string \<Rightarrow> u64 \<Rightarrow> transaction list \<Rightarrow> string result" where
  "failed_from C j sender sequence [] = Inl (Report ''no confirmed failure'')"
| "failed_from C j sender sequence (EvmTx _ _ _ _ _ _ # ts) = failed_from C j sender sequence ts"
| "failed_from C j sender sequence (CosmosTxn _ raw h signer _ seq # ts) =
     (if signer = sender \<and> seq = sequence \<and> failed_on_chain j h
      then and_then (validate_sequence C raw sequence) (\<lambda>_.
           and_then (ensure (ce_sha256_hex C raw = h) ''failed transaction hash mismatch'') (\<lambda>_.
           Inr h))
      else failed_from C j sender sequence ts)"

definition failed_attempt :: "cosmos_env \<Rightarrow> journal \<Rightarrow> string \<Rightarrow> transaction \<Rightarrow> string result" where
  "failed_attempt C j key saved =
     (case saved of
        EvmTx _ _ _ _ _ _ \<Rightarrow> Inl (Report ''expected Cosmos action'')
      | CosmosTxn _ _ _ sender _ sequence \<Rightarrow>
          failed_from C j sender sequence (journal_attempts j key saved))"

definition prove_failed ::
  "cosmos_env \<Rightarrow> session \<Rightarrow> string \<Rightarrow> string \<Rightarrow> transaction \<Rightarrow> (deploy_world, string) io" where
  "prove_failed C s lcd key saved =
     (case saved of
        EvmTx _ _ _ _ _ _ \<Rightarrow> prove (ce_machine C) s key saved
      | CosmosTxn _ _ _ sender _ sequence \<Rightarrow>
          io_bind (io_ensure (key \<in> {''WaitForVerifierSet/cosmos'', ''AddRewards/cosmos'',
              ''InstantiateChainContracts/cosmos'', ''RegisterItsOnHub/cosmos''})
            ''unsupported Cosmos retry action'') (\<lambda>_.
          io_bind (io_try (confirmed C (Some s) lcd saved key)) (\<lambda>_.
          io_bind (io_gets dw_journal) (\<lambda>j.
          io_bind (io_lift (failed_attempt C j key saved)) (\<lambda>h.
          io_bind (lcd_query_account C lcd sender) (\<lambda>(_, current).
          io_bind (io_ensure (current > sequence)
            ''failed Cosmos transaction did not consume its sequence'') (\<lambda>_.
          io_return h)))))))"

definition retry_failed ::
  "cosmos_env \<Rightarrow> session \<Rightarrow> state \<Rightarrow> string \<Rightarrow> string \<Rightarrow> transaction \<Rightarrow> (deploy_world, bool) io" where
  "retry_failed C s st lcd key saved =
     (if op_retry_failed (ss_options s) \<noteq> Some key then io_return False
      else
        io_bind (io_lift (validate_progress st key)) (\<lambda>_.
        io_bind (prove_failed C s lcd key saved) (\<lambda>_.
        io_bind (ask (ce_machine C) (\<lambda>k. Inr (ev_confirm (ce_machine C) k))) (\<lambda>approved.
        if \<not> approved then io_raise (Paused ''retry declined'')
        else
          io_bind (commit (ce_machine C) (retire key (op_retry_gas_limit (ss_options s)))) (\<lambda>_.
          io_raise (Paused ''Failed attempt retired.''))))))"

subsection \<open>Only a proven failure is retired\<close>

text \<open>
  The evidence behind a retirement: on EVM a finalized, canonical, failed receipt of a transaction
  that competes for the same nonce, stored in the journal; on Cosmos a journaled answer with a
  failure code for an attempt with the same sender and sequence whose bytes have that hash.
\<close>

definition proven_failed ::
  "cosmos_env \<Rightarrow> session \<Rightarrow> string \<Rightarrow> transaction \<Rightarrow> deploy_world \<Rightarrow> bool" where
  "proven_failed C s key saved w =
     (if is_evm saved
      then \<exists>rc t. \<not> rc_status rc \<and> deep_enough (ce_machine C) Finalized rc (dw_calls w) \<and>
             recorded (ce_machine C) (Some s) rc w \<and> competes saved t \<and>
             tx_hash t = rc_transaction_hash rc
      else \<exists>t. (key, t) \<in> known (dw_journal w) \<and> \<not> is_evm t \<and> ctx_sender t = ctx_sender saved \<and>
             ctx_sequence t = ctx_sequence saved \<and> ce_sha256_hex C (tx_raw t) = ctx_hash t \<and>
             failed_on_chain (dw_journal w) (ctx_hash t))"

lemma failed_from_Inr:
  "failed_from C j sender sequence ts = Inr h \<Longrightarrow>
     \<exists>t \<in> set ts. \<not> is_evm t \<and> ctx_sender t = sender \<and> ctx_sequence t = sequence \<and>
       ctx_hash t = h \<and> ce_sha256_hex C (tx_raw t) = h \<and> failed_on_chain j h"
proof (induction C j sender sequence ts rule: failed_from.induct)
  case (3 C j sender sequence i raw h' signer f seq ts)
  then show ?case by (cases "signer = sender \<and> seq = sequence \<and> failed_on_chain j h'")
      (auto simp: result_simps is_evm_def)
qed auto

lemma deep_enough_mono: "deep_enough E policy rc n \<Longrightarrow> n \<le> m \<Longrightarrow> deep_enough E policy rc m"
  unfolding deep_enough_def by (meson order_less_le_trans)

lemma confirm_stable_actions [simp]:
  "confirm_stable E (\<lambda>w. jn_actions (dw_journal w) = a)"
proof -
  have "keeps (\<lambda>w. jn_actions (dw_journal w) = a) (commit E (journal_confirm h c))" for h c
  proof (rule keepsI)
    fix w r w' assume a: "jn_actions (dw_journal w) = a" and run: "commit E (journal_confirm h c) w = (r, w')"
    obtain r0 j where step: "journal_confirm h c (dw_journal w) = (r0, j)" by fastforce
    have "jn_actions j = a" using a step by (auto simp: journal_confirm_def)
    then show "jn_actions (dw_journal w') = a" using commit_run [OF run step] by simp
  qed
  then show ?thesis by (auto simp: confirm_stable_def quiet_stable_def quiet_def)
qed

lemma keeps_prove:
  assumes "confirm_stable E I"
  shows "keeps I (prove E s key saved)"
  using assms unfolding prove_def prove_with_provider_def
  by (intro knows_intros)
    (simp_all add: confirm_stable_def keeps_stable keeps_wait_receipt competing_attempts_def keeps_transaction)

lemma keeps_prove_failed:
  "confirm_stable (ce_machine C) I \<Longrightarrow> keeps I (prove_failed C s lcd key saved)"
  unfolding prove_failed_def
  by (intro knows_intros keeps_try)
    (simp_all add: keeps_prove keeps_confirmed, simp_all add: confirm_stable_def keeps_stable)

lemma prove_failed_proven:
  assumes "prove_failed C s lcd key saved w = (Inr h, w')" and "knows {(key, saved)} w"
  shows "proven_failed C s key saved w'"
proof (cases saved)
  case (EvmTx i raw hash sender nonce g)
  then obtain v where "prove_with_provider (ce_machine C) s key saved v = (Inr h, w')"
    using assms(1) by (auto simp: prove_failed_def prove_def io_runs)
  from prove_with_provider_finalized [OF this] show ?thesis
    using EvmTx by (auto simp: proven_failed_def is_evm_def)
next
  case (CosmosTxn i raw hash sender f sequence)
  then obtain v1 v2 r where tried: "io_try (confirmed C (Some s) lcd saved key) w = (Inr r, v1)"
    and failed: "failed_attempt C (dw_journal v1) key saved = Inr h"
    and queried: "lcd_query_account C lcd sender v1 = (Inr v2, w')"
    using assms(1) by (auto simp: prove_failed_def io_runs result_simps split: prod.splits)
  have "knows {(key, saved)} v1"
    by (rule keepsD [OF keeps_try [OF keeps_knows_confirmed] assms(2) tried])
  then have att: "t \<in> set (journal_attempts (dw_journal v1) key saved) \<Longrightarrow> (key, t) \<in> known (dw_journal v1)" for t
    by (auto simp: journal_attempts_def knows_def known_def)
  have "dw_journal w' = dw_journal v1"
    using quiet_run [OF keeps_query_account queried] by (simp add: quiet_def)
  then show ?thesis
    using failed att CosmosTxn failed_from_Inr [of C "dw_journal v1" sender sequence _ h]
    by (fastforce simp: proven_failed_def failed_attempt_def is_evm_def)
qed

lemma proven_failed_mono:
  assumes "proven_failed C s key saved w" and "dw_calls w \<le> dw_calls w'"
    and "jn_confirmations (dw_journal w') = jn_confirmations (dw_journal w)"
    and "known (dw_journal w) \<subseteq> known (dw_journal w')"
  shows "proven_failed C s key saved w'"
proof -
  have same: "journal_confirmation (dw_journal w') h = journal_confirmation (dw_journal w) h" for h
    using assms(3) by (simp add: journal_confirmation_def)
  show ?thesis
    using assms(1,4) deep_enough_mono [OF _ assms(2)]
    unfolding proven_failed_def recorded_def failed_on_chain_def same by (auto split: if_splits)
qed

lemma confirm_stable_sent [simp]: "confirm_stable E (\<lambda>w. dw_sent w = x)"
proof -
  have "keeps (\<lambda>w. dw_sent w = x) (commit E (journal_confirm h c))" for h c
    by (rule keepsI) (metis commit_run prod.collapse)
  then show ?thesis by (auto simp: confirm_stable_def quiet_stable_def quiet_def)
qed

lemma commit_calls: "commit E m w = (r, w') \<Longrightarrow> dw_calls w \<le> dw_calls w'"
  by (auto simp: commit_def write_journal_def Let_def split: prod.splits sum.splits write_outcome.splits)

lemma retire_keeps_confirmations:
  "retire key limit j = (r, j') \<Longrightarrow> jn_confirmations j' = jn_confirmations j"
  by (auto simp: retire_def io_bind_def push_attempt_def ok_or_def split: option.splits)

lemma retire_commit:
  assumes "commit E (retire key limit) w = (r, w')" and "journal_wf (dw_journal w)"
  shows "jn_confirmations (dw_journal w') = jn_confirmations (dw_journal w)"
    and "known (dw_journal w) \<subseteq> known (dw_journal w')" and "dw_sent w' = dw_sent w"
    and "dw_calls w \<le> dw_calls w'"
proof -
  obtain r0 j where step: "retire key limit (dw_journal w) = (r0, j)" by fastforce
  have j: "dw_journal w' = j" and "dw_sent w' = dw_sent w" using commit_run [OF assms(1) step] by auto
  then show "dw_sent w' = dw_sent w" by simp
  show "jn_confirmations (dw_journal w') = jn_confirmations (dw_journal w)"
    using retire_keeps_confirmations [OF step] j by simp
  show "known (dw_journal w) \<subseteq> known (dw_journal w')"
    using journal_step_known [OF assms(2), of "Retire key limit"] step j by simp
  show "dw_calls w \<le> dw_calls w'" by (rule commit_calls [OF assms(1)])
qed


subsection \<open>A sample retirement\<close>

definition sample_failing :: cosmos_env where
  "sample_failing = sample_cosmos_env\<lparr> ce_machine :=
     sample_env\<lparr> ev_receipt := \<lambda>_ _. Inr (Some (sample_receipt\<lparr> rc_status := False \<rparr>)) \<rparr> \<rparr>"

definition sample_retry :: session where
  "sample_retry = sample_session\<lparr> ss_options :=
     sample_options\<lparr> op_retry_failed := Some ''Operators/deploy'' \<rparr> \<rparr>"

definition sample_cursor :: state where
  "sample_cursor = sample_state\<lparr> st_steps :=
     [\<lparr> step_name = ''Operators'', step_status_of = Pending, step_kind_of = DeployCreate2 \<rparr>] \<rparr>"

definition sample_retirement :: "bool result \<times> deploy_world" where
  "sample_retirement =
     retry_failed sample_failing sample_retry sample_cursor ''http://lcd'' ''Operators/deploy''
       sample_saved sample_pending"

lemma sample_retirement_run: "session_get (dw_journal (snd sample_retirement)) ''Operators/deploy'' = None"
  by (simp add: sample_retirement_def retry_failed_def sample_retry_def sample_cursor_def sample_failing_def
      sample_cosmos_env_def validate_progress_def key_step_def next_pending_step_def prove_failed_def
      prove_def prove_with_provider_def validate_action_def sample_saved_def sample_pending_def retire_def
      push_attempt_def evm_eval journal_eval sample_eval)


end
