(* ===== verification/Deploy_Runner.thy ===== *)
theory Deploy_Runner
  imports Deploy_Recovery
begin

text \<open>
  The run of a hardened deployment (\<open>hardened/runner.rs\<close>, \<open>execute_step\<close> and
  \<open>resolve_evm_key\<close> of \<open>commands/deploy.rs\<close>).  A run first reconciles every journaled
  transaction, then executes the pending steps in order and saves the state after each.  The
  bodies of the steps (\<open>steps/*.rs\<close>), the previews, the evidence and the postconditions are
  arguments: they act on the state, the disk and the chain, and may fail.
\<close>

record run_world =
  rw_state :: state
  rw_saved :: "state option"
  rw_world :: deploy_world

definition on_chain :: "(deploy_world, 'a) io \<Rightarrow> (run_world, 'a) io" where
  "on_chain m w = (case m (rw_world w) of (r, v) \<Rightarrow> (r, w\<lparr> rw_world := v \<rparr>))"

definition save_run_state :: "evm_env \<Rightarrow> (run_world, unit) io" where
  "save_run_state E w =
     (let k = dw_calls (rw_world w);
          w' = w\<lparr> rw_world := (rw_world w)\<lparr> dw_calls := Suc k \<rparr> \<rparr>;
          new = Some (saved_state (rw_state w)) in
      case ev_write E k of
        Written \<Rightarrow> (Inr (), w'\<lparr> rw_saved := new \<rparr>)
      | FailedOld \<Rightarrow> (Inl (Report ''state write failed''), w')
      | FailedNew \<Rightarrow> (Inl (Report ''state write failed''), w'\<lparr> rw_saved := new \<rparr>))"

subsection \<open>Signing roles\<close>

definition resolve_evm_key :: "state \<Rightarrow> string \<Rightarrow> string result" where
  "resolve_evm_key st name =
     (if st_env st = Mainnet \<and>
         name \<in> {''Operators'', ''RegisterOperators'', ''TransferOperatorsOwnership''}
      then ok_or (st_deployer_private_key st) ''missing DEPLOYER_PRIVATE_KEY for mainnet Operators''
      else
        and_then (if name \<in> {''EvmCompatibilityCheck'', ''ConstAddressDeployer'', ''Create3Deployer''}
                  then Inr (st_deployer_private_key st)
                  else if name = ''DeployInterchainTokenService'' then Inr (st_its_deployer_private_key st)
                  else if name \<in> {''AxelarGateway'', ''Operators'', ''RegisterOperators'',
                      ''TransferOperatorsOwnership'', ''TransferGatewayOwnership''}
                  then Inr (st_gateway_deployer_private_key st)
                  else if name \<in> {''TransferGasServiceOwnership'', ''AxelarGasService''}
                  then Inr (st_gas_service_deployer_private_key st)
                  else Inl (Report ''unknown EVM signing role'')) (\<lambda>private_key.
        ok_or private_key ''missing deployment role key''))"

definition signer_for :: "state \<Rightarrow> string \<Rightarrow> string result" where
  "signer_for st name =
     (if name \<in> {''AddCosmWasmConfig'', ''PredictGatewayAddress'', ''InstantiateChainContracts'',
         ''WaitInstantiateProposal'', ''SaveDeployedContracts'', ''AddRewards'', ''RegisterItsOnHub'',
         ''WaitItsHubRegistration'', ''WaitForVerifierSet''}
      then Inr []
      else resolve_evm_key st name)"

subsection \<open>One step\<close>

record step_bodies =
  sb_evm_compat :: "string \<Rightarrow> (run_world, unit) io"
  sb_evm_deploy :: "string \<Rightarrow> string \<Rightarrow> string \<Rightarrow> string \<Rightarrow> (run_world, unit) io"
  sb_register_operators :: "string \<Rightarrow> (run_world, unit) io"
  sb_transfer_ownership :: "step \<Rightarrow> string \<Rightarrow> (run_world, unit) io"
  sb_deploy_gateway :: "nat \<Rightarrow> string \<Rightarrow> string \<Rightarrow> string \<Rightarrow> (run_world, unit) io"
  sb_predict_address :: "(run_world, unit) io"
  sb_config_edit :: "(run_world, unit) io"
  sb_cosmos_tx :: "step \<Rightarrow> string \<Rightarrow> (run_world, unit) io"
  sb_cosmos_poll :: "step \<Rightarrow> (run_world, unit) io"
  sb_cosmos_query :: "(run_world, unit) io"
  sb_initialize :: "(run_world, unit) io"
  sb_deploy_upgradable :: "nat \<Rightarrow> string \<Rightarrow> string \<Rightarrow> string \<Rightarrow> string \<Rightarrow> (run_world, unit) io"
  sb_deploy_its :: "nat \<Rightarrow> step \<Rightarrow> string \<Rightarrow> (run_world, unit) io"

definition with_key :: "string \<Rightarrow> (string \<Rightarrow> (run_world, unit) io) \<Rightarrow> (run_world, unit) io" where
  "with_key name f = io_bind (io_gets rw_state) (\<lambda>st. io_bind (io_lift (resolve_evm_key st name)) f)"

definition with_path :: "string option \<Rightarrow> string \<Rightarrow> (string \<Rightarrow> (run_world, unit) io) \<Rightarrow> (run_world, unit) io" where
  "with_path path msg f = io_bind (io_lift (ok_or path msg)) f"

definition execute_step ::
  "step_bodies \<Rightarrow> nat \<Rightarrow> step \<Rightarrow> string option \<Rightarrow> string option \<Rightarrow> (run_world, unit) io" where
  "execute_step B idx s artifact proxy =
     (let name = step_name s in
      case step_kind_of s of
        EvmCompat \<Rightarrow> with_key name (sb_evm_compat B)
      | DeployCreate \<Rightarrow> with_key name (\<lambda>key.
          with_path artifact ''deployment artifact path is missing'' (sb_evm_deploy B name ''deploy-create'' key))
      | DeployCreate2 \<Rightarrow> with_key name (\<lambda>key.
          with_path artifact ''deployment artifact path is missing'' (sb_evm_deploy B name ''deploy-create2'' key))
      | RegisterOperators \<Rightarrow> with_key name (sb_register_operators B)
      | TransferOwnership _ _ \<Rightarrow> with_key name (sb_transfer_ownership B s)
      | DeployGateway _ \<Rightarrow> with_path proxy ''proxy artifact path is missing'' (\<lambda>proxy.
          with_key name (\<lambda>key.
          with_path artifact ''deployment artifact path is missing'' (\<lambda>path.
          sb_deploy_gateway B idx key path proxy)))
      | PredictAddress \<Rightarrow> sb_predict_address B
      | ConfigEdit \<Rightarrow> sb_config_edit B
      | CosmosTx _ \<Rightarrow> sb_cosmos_tx B s name
      | CosmosPoll _ \<Rightarrow> sb_cosmos_poll B s
      | CosmosQuery \<Rightarrow> sb_cosmos_query B
      | WaitVerifierSet \<Rightarrow> sb_initialize B
      | DeployUpgradable _ _ \<Rightarrow> with_path artifact ''implementation artifact path is missing'' (\<lambda>implementation.
          with_path proxy ''proxy artifact path is missing'' (\<lambda>proxy.
          with_key name (\<lambda>key. sb_deploy_upgradable B idx name key implementation proxy)))
      | DeployIts _ _ _ _ _ _ _ _ \<Rightarrow> with_key name (sb_deploy_its B idx s))"

subsection \<open>A run\<close>

record runner_env =
  re_chain :: cosmos_env
  re_lcd :: "string result"
  re_bodies :: step_bodies
  re_artifacts :: "state \<Rightarrow> string \<Rightarrow> (string \<times> string option) option result"
  re_recover :: "string \<Rightarrow> string \<Rightarrow> (run_world, bool) io"
  re_show :: "step \<Rightarrow> (run_world, unit) io"
  re_handoff :: "(run_world, unit) io"
  re_postconditions :: "string option \<Rightarrow> (run_world, unit) io"
  re_evidence_check :: "(run_world, unit) io"
  re_evidence_capture :: "(run_world, unit) io"
  re_completed :: "(run_world, unit) io"

definition validate_activation :: "state \<Rightarrow> unit result" where
  "validate_activation st =
     and_then (ok_or (map_option fst (find (\<lambda>(_, s). step_name s = ''WaitForVerifierSet'')
         (enumerate 0 (st_steps st)))) ''missing verifier checkpoint'') (\<lambda>checkpoint.
     ensure (list_all (\<lambda>s. step_status_of s = Completed) (take checkpoint (st_steps st)))
       ''--activate is only valid at or after the verifier checkpoint'')"

text \<open>\<open>split('/').next()\<close>: the whole key when it has no slash.\<close>

definition step_of_key :: "string \<Rightarrow> string" where
  "step_of_key key = takeWhile (\<lambda>c. c \<noteq> CHR ''/'') key"

definition reconcile_one ::
  "cosmos_env \<Rightarrow> session \<Rightarrow> state \<Rightarrow> string \<Rightarrow> string \<times> transaction \<Rightarrow> (deploy_world, unit) io" where
  "reconcile_one C s st lcd entry =
     (case entry of (key, t) \<Rightarrow>
        io_bind (io_lift (signer_for st (step_of_key key))) (\<lambda>signer.
        io_bind (retry_failed C s st lcd key t) (\<lambda>retried.
        if retried then io_return ()
        else
          io_bind (reconcile (ce_machine C) (Some s) signer key t) (\<lambda>_.
          cosmos_reconcile C s st lcd key t))))"

text \<open>
  The body of the \<open>while\<close> loop, for the pending step at the cursor: the work of the step, then its
  completion, which is saved at once.
\<close>

definition step_work :: "runner_env \<Rightarrow> nat \<Rightarrow> step \<Rightarrow> (run_world, unit) io" where
  "step_work R idx s =
     io_bind (case step_kind_of s of
                CosmosTx key \<Rightarrow>
                  if key \<noteq> ''addRewards'' then re_recover R (step_name s) key else io_return False
              | _ \<Rightarrow> io_return False) (\<lambda>recovered.
     io_bind (if recovered then io_return () else re_show R s) (\<lambda>_.
     io_bind (io_gets rw_state) (\<lambda>st.
     io_bind (io_lift (signer_for st (step_name s))) (\<lambda>_.
     io_bind (io_lift (re_artifacts R st (step_name s))) (\<lambda>defaults.
     io_bind (if recovered then io_return ()
              else execute_step (re_bodies R) idx s (map_option fst defaults)
                (Option.bind defaults snd)) (\<lambda>_.
     io_bind (re_postconditions R (Some (step_name s))) (\<lambda>_.
     re_evidence_capture R)))))))"

definition complete_step :: "runner_env \<Rightarrow> nat \<Rightarrow> (run_world, unit) io" where
  "complete_step R idx =
     io_bind (io_gets (\<lambda>w. mark_step_completed (rw_state w) idx)) (\<lambda>marked.
     io_bind (io_lift (ok_or marked ''index out of bounds'')) (\<lambda>st'.
     io_bind (io_modify (\<lambda>w. w\<lparr> rw_state := st' \<rparr>)) (\<lambda>_.
     save_run_state (ce_machine (re_chain R)))))"

definition run_step :: "runner_env \<Rightarrow> bool \<Rightarrow> nat \<Rightarrow> step \<Rightarrow> (run_world, unit) io" where
  "run_step R activate idx s =
     (if step_name s = ''WaitForVerifierSet'' \<and> \<not> activate
      then io_bind (re_handoff R) (\<lambda>_. io_raise (Paused ''Deployment paused for verifier setup.''))
      else io_bind (step_work R idx s) (\<lambda>_. complete_step R idx))"

text \<open>The loop; running out of fuel is no result.\<close>

fun run_steps :: "runner_env \<Rightarrow> bool \<Rightarrow> nat \<Rightarrow> run_world \<Rightarrow> (unit result \<times> run_world) option" where
  "run_steps R activate 0 w = None"
| "run_steps R activate (Suc fuel) w =
     (case next_pending_step (rw_state w) of
        None \<Rightarrow> Some (Inr (), w)
      | Some (idx, s) \<Rightarrow>
          (case run_step R activate idx s w of
             (Inl e, w') \<Rightarrow> Some (Inl e, w')
           | (Inr _, w') \<Rightarrow> run_steps R activate fuel w'))"

definition execute_reconcile :: "runner_env \<Rightarrow> session \<Rightarrow> (run_world, unit) io" where
  "execute_reconcile R s =
     io_bind (io_gets (\<lambda>w. jn_actions (dw_journal (rw_world w)))) (\<lambda>transactions.
     io_bind (io_lift (re_lcd R)) (\<lambda>lcd.
     io_bind (io_lift (validate_options (ss_options s) transactions)) (\<lambda>_.
     io_bind (io_gets rw_state) (\<lambda>st.
     io_bind (io_lift (if deployment_uses_governance (st_env st) then Inr ()
                else all_ok (\<lambda>(_, t). if is_evm t then Inr () else validate_submission (re_chain R) t)
                  transactions)) (\<lambda>_.
     io_bind (on_chain (io_for transactions (reconcile_one (re_chain R) s st lcd))) (\<lambda>_.
     io_bind (re_evidence_check R) (\<lambda>_.
     re_postconditions R None)))))))"

definition execute_finish :: "runner_env \<Rightarrow> (run_world, unit) io" where
  "execute_finish R =
     io_bind (io_gets rw_state) (\<lambda>st.
     io_bind (io_ensure (list_all (\<lambda>s. step_status_of s = Completed) (st_steps st))
       ''incomplete deployment'') (\<lambda>_.
     re_completed R))"

definition execute ::
  "runner_env \<Rightarrow> session \<Rightarrow> bool \<Rightarrow> nat \<Rightarrow> run_world \<Rightarrow> (unit result \<times> run_world) option" where
  "execute R s activate fuel w =
     (case execute_reconcile R s w of
        (Inl e, w1) \<Rightarrow> Some (Inl e, w1)
      | (Inr _, w1) \<Rightarrow>
          (case run_steps R activate fuel w1 of
             None \<Rightarrow> None
           | Some (Inl e, w2) \<Rightarrow> Some (Inl e, w2)
           | Some (Inr _, w2) \<Rightarrow> Some (execute_finish R w2)))"

text \<open>
  How the run ends: a pause saves the state and exits with success, any other error is reported.
\<close>

definition finish_run :: "evm_env \<Rightarrow> unit result \<Rightarrow> (run_world, unit) io" where
  "finish_run E result =
     (case result of
        Inl (Paused _) \<Rightarrow> save_run_state E
      | Inl (Report msg) \<Rightarrow> io_raise (Report msg)
      | Inr _ \<Rightarrow> io_return ())"

definition same_deployment :: "state \<Rightarrow> state \<Rightarrow> bool" where
  "same_deployment a b =
     (st_env a = st_env b \<and> st_axelar_id a = st_axelar_id b \<and> st_target_json a = st_target_json b \<and>
      st_rpc_url a = st_rpc_url b \<and> st_cosm_salt a = st_cosm_salt b \<and> st_its_salt a = st_its_salt b \<and>
      st_its_proxy_salt a = st_its_proxy_salt b)"

text \<open>Under the run lock the state is read again and must still describe the same deployment.\<close>

definition reload_committed_state :: "state option \<Rightarrow> state \<Rightarrow> state result" where
  "reload_committed_state on_disk st =
     (case on_disk of
        None \<Rightarrow> Inr st
      | Some current \<Rightarrow>
          and_then (ensure (same_deployment current st \<and> st_hardened_plan current = st_hardened_plan st)
            ''deployment changed while acquiring its lock'') (\<lambda>_.
          Inr current))"

subsection \<open>Progress of a run\<close>

text \<open>
  The names and statuses of the steps.  The step bodies record addresses in the steps and
  never touch names or statuses; \<open>tame\<close> states that of every argument of the run.
\<close>

definition outline :: "state \<Rightarrow> (string \<times> step_status) list" where
  "outline st = map (\<lambda>s. (step_name s, step_status_of s)) (st_steps st)"

definition keeps_outline :: "(run_world, 'a) io \<Rightarrow> bool" where
  "keeps_outline m = (\<forall>v. keeps (\<lambda>w. outline (rw_state w) = v) m)"

definition tame_bodies :: "step_bodies \<Rightarrow> bool" where
  "tame_bodies B =
     ((\<forall>k. keeps_outline (sb_evm_compat B k)) \<and> (\<forall>n m k a. keeps_outline (sb_evm_deploy B n m k a)) \<and>
      (\<forall>k. keeps_outline (sb_register_operators B k)) \<and> (\<forall>s k. keeps_outline (sb_transfer_ownership B s k)) \<and>
      (\<forall>i k a p. keeps_outline (sb_deploy_gateway B i k a p)) \<and> keeps_outline (sb_predict_address B) \<and>
      keeps_outline (sb_config_edit B) \<and> (\<forall>s n. keeps_outline (sb_cosmos_tx B s n)) \<and>
      (\<forall>s. keeps_outline (sb_cosmos_poll B s)) \<and> keeps_outline (sb_cosmos_query B) \<and>
      keeps_outline (sb_initialize B) \<and> (\<forall>i n k a p. keeps_outline (sb_deploy_upgradable B i n k a p)) \<and>
      (\<forall>i s k. keeps_outline (sb_deploy_its B i s k)))"

definition tame :: "runner_env \<Rightarrow> bool" where
  "tame R =
     (tame_bodies (re_bodies R) \<and> (\<forall>n k. keeps_outline (re_recover R n k)) \<and>
      (\<forall>s. keeps_outline (re_show R s)) \<and> keeps_outline (re_handoff R) \<and>
      (\<forall>n. keeps_outline (re_postconditions R n)) \<and> keeps_outline (re_evidence_check R) \<and>
      keeps_outline (re_evidence_capture R) \<and> keeps_outline (re_completed R))"

lemma keeps_outline_intros:
  "keeps_outline (io_return x)" "keeps_outline (io_raise e)" "keeps_outline (io_lift r)"
  "keeps_outline (io_gets f)" "keeps_outline (io_ensure c msg)"
  "keeps_outline m \<Longrightarrow> (\<And>x. keeps_outline (g x)) \<Longrightarrow> keeps_outline (io_bind m g)"
  "(c \<Longrightarrow> keeps_outline m) \<Longrightarrow> (\<not> c \<Longrightarrow> keeps_outline m') \<Longrightarrow> keeps_outline (if c then m else m')"
  by (auto simp: keeps_outline_def intro: keeps_bind)

lemma keeps_outline_execute_step:
  "tame_bodies B \<Longrightarrow> keeps_outline (execute_step B idx s artifact proxy)"
  unfolding execute_step_def with_key_def with_path_def Let_def
  by (cases "step_kind_of s") (auto simp: tame_bodies_def intro!: keeps_outline_intros)

lemma keeps_outline_step_work:
  assumes "tame R"
  shows "keeps_outline (step_work R idx s)"
  using assms keeps_outline_execute_step [of "re_bodies R"]
  unfolding step_work_def
  by (intro keeps_outline_intros) (auto simp: tame_def split: step_kind.splits intro!: keeps_outline_intros)

lemma outline_facts:
  "length (outline st) = length (st_steps st)"
  "i < length (st_steps st) \<Longrightarrow> outline st ! i = (step_name (st_steps st ! i), step_status_of (st_steps st ! i))"
  by (simp_all add: outline_def)

lemma outline_mark:
  "mark_step_completed st i = Some st' \<Longrightarrow>
     outline st' = (outline st)[i := (fst (outline st ! i), Completed)] \<and> i < length (outline st)"
  by (auto simp: mark_step_completed_def outline_def map_update split: if_splits)

lemma outline_saved: "outline (saved_state st) = outline st"
  by (simp add: outline_def)

lemma save_run_state_effect:
  "save_run_state E w = (r, w') \<Longrightarrow> rw_state w' = rw_state w \<and>
     (is_ok r \<longrightarrow> rw_saved w' = Some (saved_state (rw_state w')))"
  by (auto simp: save_run_state_def Let_def split: write_outcome.splits)

lemma run_step_effect:
  assumes "tame R" and "next_pending_step (rw_state w) = Some (i, s)"
    and "run_step R activate i s w = (r, w')"
  shows "outline (rw_state w') = outline (rw_state w) \<and> \<not> is_ok r \<or>
    outline (rw_state w') = (outline (rw_state w))[i := (step_name s, Completed)] \<and>
      (activate \<or> step_name s \<noteq> ''WaitForVerifierSet'') \<and>
      (is_ok r \<longrightarrow> rw_saved w' = Some (saved_state (rw_state w')))"
proof -
  have i: "i < length (outline (rw_state w))" "fst (outline (rw_state w) ! i) = step_name s"
    using assms(2) by (auto simp: next_pending_step_Some outline_facts)
  have same: "outline (rw_state v) = outline (rw_state w)" if "keeps_outline m" "m w = (x, v)" for m :: "(run_world, unit) io" and x v
    using that keepsD [of "\<lambda>u. outline (rw_state u) = outline (rw_state w)" m w x v]
    by (auto simp: keeps_outline_def)
  show ?thesis
  proof (cases "step_name s = ''WaitForVerifierSet'' \<and> \<not> activate")
    case True
    obtain rh w1 where h: "re_handoff R w = (rh, w1)" by fastforce
    then have "outline (rw_state w1) = outline (rw_state w)"
      by (rule same [rotated]) (use assms(1) in \<open>simp add: tame_def\<close>)
    then show ?thesis
      using assms(3) True h by (cases rh) (auto simp: run_step_def io_bind_def)
  next
    case False
    obtain r1 w1 where work: "step_work R i s w = (r1, w1)" by fastforce
    have w1: "outline (rw_state w1) = outline (rw_state w)"
      by (rule same [OF keeps_outline_step_work [OF assms(1)] work])
    show ?thesis
    proof (cases r1)
      case (Inl e)
      with assms(3) False work w1 show ?thesis by (auto simp: run_step_def io_bind_def)
    next
      case (Inr u)
      then have run: "complete_step R i w1 = (r, w')"
        using assms(3) False work by (auto simp: run_step_def io_bind_def)
      have "i < length (st_steps (rw_state w1))" using i(1) w1 by (metis outline_facts(1))
      then obtain st' where mark: "mark_step_completed (rw_state w1) i = Some st'"
        by (simp add: mark_step_completed_def)
      then have "save_run_state (ce_machine (re_chain R)) (w1\<lparr> rw_state := st' \<rparr>) = (r, w')"
        using run by (simp add: complete_step_def io_bind_def)
      from save_run_state_effect [OF this] outline_mark [OF mark] w1 i(2) False show ?thesis by auto
    qed
  qed
qed

text \<open>The outline of a deployment whose steps are all completed, and the pending steps of one.\<close>

definition pending_of :: "(string \<times> step_status) list \<Rightarrow> nat" where
  "pending_of xs = length (filter (\<lambda>(_, status). status = Pending) xs)"

lemma pending_of_outline: "pending_of (outline st) = pending_count (st_steps st)"
  by (simp add: pending_of_def outline_def pending_count_def filter_map comp_def)

lemma pending_of_update:
  "i < length xs \<Longrightarrow> snd (xs ! i) = Pending \<Longrightarrow>
     Suc (pending_of (xs[i := (n, Completed)])) = pending_of xs"
proof (induction xs arbitrary: i)
  case (Cons x xs)
  then show ?case by (cases i; cases x) (auto simp: pending_of_def)
qed simp

lemma run_step_pending:
  assumes "tame R" and "next_pending_step (rw_state w) = Some (i, s)"
    and "run_step R activate i s w = (Inr u, w')"
  shows "Suc (pending_of (outline (rw_state w'))) = pending_of (outline (rw_state w))"
    and "rw_saved w' = Some (saved_state (rw_state w'))"
proof -
  have "i < length (outline (rw_state w))" "snd (outline (rw_state w) ! i) = Pending"
    using assms(2) by (auto simp: next_pending_step_Some outline_facts)
  then show "Suc (pending_of (outline (rw_state w'))) = pending_of (outline (rw_state w))"
    using run_step_effect [OF assms] by (auto simp: pending_of_update)
  show "rw_saved w' = Some (saved_state (rw_state w'))" using run_step_effect [OF assms] by auto
qed

lemma run_steps_ends:
  assumes "tame R"
  shows "pending_of (outline (rw_state w)) < fuel \<Longrightarrow>
    \<exists>r w'. run_steps R activate fuel w = Some (r, w')"
proof (induction fuel arbitrary: w)
  case (Suc fuel)
  show ?case
  proof (cases "next_pending_step (rw_state w)")
    case (Some p)
    obtain i s where p: "p = (i, s)" by (cases p)
    obtain r w1 where step: "run_step R activate i s w = (r, w1)" by fastforce
    show ?thesis
    proof (cases r)
      case (Inr u)
      then have "pending_of (outline (rw_state w1)) < fuel"
        using run_step_pending(1) [OF assms Some [unfolded p] step [unfolded Inr]] Suc.prems by simp
      then show ?thesis using Suc.IH [of w1] Some p step Inr by simp
    qed (use Some p step in simp)
  qed simp
qed simp

lemma run_steps_done:
  "run_steps R activate fuel w = Some (Inr u, w') \<Longrightarrow> next_pending_step (rw_state w') = None"
  by (induction R activate fuel w rule: run_steps.induct)
    (auto split: option.splits prod.splits sum.splits)

text \<open>Every step completed along the way is saved before the next one starts.\<close>

lemma run_steps_saved:
  assumes "tame R"
  shows "run_steps R activate fuel w = Some (Inr u, w') \<Longrightarrow> rw_saved w = Some (saved_state (rw_state w)) \<Longrightarrow>
    rw_saved w' = Some (saved_state (rw_state w'))"
proof (induction fuel arbitrary: w)
  case (Suc fuel)
  show ?case
  proof (cases "next_pending_step (rw_state w)")
    case (Some p)
    obtain i s where p: "p = (i, s)" by (cases p)
    then obtain w1 v where step: "run_step R activate i s w = (Inr v, w1)"
      and rest: "run_steps R activate fuel w1 = Some (Inr u, w')"
      using Suc.prems Some by (auto split: prod.splits sum.splits)
    show ?thesis
      using Suc.IH [OF rest] run_step_pending(2) [OF assms Some [unfolded p] step] by blast
  qed (use Suc.prems in simp)
qed simp

text \<open>
  C20: A run of the steps comes to an end.  With more fuel than there are pending steps the loop
  stops with a result, whatever the steps, the nodes and the disk do; when the result is
  success every step is completed, and the saved state, if it was current before, is the
  final state.
\<close>

theorem run_steps_completes:
  assumes "tame R" and "pending_count (st_steps (rw_state w)) < fuel"
  shows "\<exists>r w'. run_steps R activate fuel w = Some (r, w') \<and>
    (is_ok r \<longrightarrow> list_all (\<lambda>s. step_status_of s = Completed) (st_steps (rw_state w')) \<and>
      (rw_saved w = Some (saved_state (rw_state w)) \<longrightarrow> rw_saved w' = Some (saved_state (rw_state w'))))"
proof -
  obtain r w' where run: "run_steps R activate fuel w = Some (r, w')"
    using run_steps_ends [OF assms(1), of w fuel activate] assms(2) unfolding pending_of_outline by blast
  have "list_all (\<lambda>s. step_status_of s = Completed) (st_steps (rw_state w'))" if "r = Inr u" for u
    using run_steps_done [OF run [unfolded that]] by (simp add: next_pending_step_None list_all_iff)
  moreover have "rw_saved w' = Some (saved_state (rw_state w'))"
    if "r = Inr u" "rw_saved w = Some (saved_state (rw_state w))" for u
    using run_steps_saved [OF assms(1) run [unfolded that(1)] that(2)] .
  ultimately show ?thesis using run by (cases r) auto
qed

lemma run_steps_checkpoint:
  assumes "tame R"
  shows "run_steps R False fuel w = Some (r, w') \<Longrightarrow>
    c < length (outline (rw_state w)) \<Longrightarrow> outline (rw_state w) ! c = (''WaitForVerifierSet'', Pending) \<Longrightarrow>
    drop c (outline (rw_state w')) = drop c (outline (rw_state w)) \<and> \<not> is_ok r"
proof (induction fuel arbitrary: w)
  case (Suc fuel)
  let ?o = "outline (rw_state w)"
  have c: "c < length (st_steps (rw_state w))" "step_name (st_steps (rw_state w) ! c) = ''WaitForVerifierSet''"
    "step_status_of (st_steps (rw_state w) ! c) = Pending"
    using Suc.prems(2,3) by (auto simp: outline_facts)
  then have "next_pending_step (rw_state w) \<noteq> None"
    by (metis next_pending_step_None nth_mem step_status.distinct(1))
  then obtain i s where nxt: "next_pending_step (rw_state w) = Some (i, s)" by auto
  then have i: "i \<le> c" "i = c \<Longrightarrow> step_name s = ''WaitForVerifierSet''"
    using c by (auto simp: next_pending_step_Some) (metis not_le step_status.distinct(1))
  obtain r1 w1 where step: "run_step R False i s w = (r1, w1)" by fastforce
  have eff: "outline (rw_state w1) = ?o \<and> \<not> is_ok r1 \<or>
      outline (rw_state w1) = ?o[i := (step_name s, Completed)] \<and> step_name s \<noteq> ''WaitForVerifierSet''"
    using run_step_effect [OF assms nxt step] by auto
  then have keep: "drop c (outline (rw_state w1)) = drop c ?o"
    "length (outline (rw_state w1)) = length ?o" "outline (rw_state w1) ! c = ?o ! c"
    using i by (auto simp: drop_update_swap nth_list_update le_less)
  show ?case
  proof (cases r1)
    case (Inl e)
    then show ?thesis using Suc.prems(1) nxt step keep by auto
  next
    case (Inr u)
    then have "run_steps R False fuel w1 = Some (r, w')" using Suc.prems(1) nxt step by simp
    from Suc.IH [OF this] show ?thesis using keep Suc.prems(2,3) by simp
  qed
qed simp


subsection \<open>A sample run\<close>

definition sample_bodies :: step_bodies where
  "sample_bodies =
     \<lparr> sb_evm_compat = (\<lambda>_. io_return ()), sb_evm_deploy = (\<lambda>_ _ _ _. io_return ()),
       sb_register_operators = (\<lambda>_. io_return ()), sb_transfer_ownership = (\<lambda>_ _. io_return ()),
       sb_deploy_gateway = (\<lambda>_ _ _ _. io_return ()), sb_predict_address = io_return (),
       sb_config_edit = io_return (), sb_cosmos_tx = (\<lambda>_ _. io_return ()),
       sb_cosmos_poll = (\<lambda>_. io_return ()), sb_cosmos_query = io_return (), sb_initialize = io_return (),
       sb_deploy_upgradable = (\<lambda>_ _ _ _ _. io_return ()), sb_deploy_its = (\<lambda>_ _ _. io_return ()) \<rparr>"

definition sample_runner :: runner_env where
  "sample_runner =
     \<lparr> re_chain = sample_cosmos_env, re_lcd = Inr ''http://lcd'', re_bodies = sample_bodies,
       re_artifacts = (\<lambda>_ _. Inr None), re_recover = (\<lambda>_ _. io_return False),
       re_show = (\<lambda>_. io_return ()), re_handoff = io_return (), re_postconditions = (\<lambda>_. io_return ()),
       re_evidence_check = io_return (), re_evidence_capture = io_return (), re_completed = io_return () \<rparr>"

lemma sample_runner_tame: "tame sample_runner"
  by (simp add: tame_def tame_bodies_def sample_runner_def sample_bodies_def keeps_outline_intros
      del: io_apply)

definition sample_run :: run_world where
  "sample_run =
     (let st = sample_state\<lparr> st_steps :=
        [\<lparr> step_name = ''PredictGatewayAddress'', step_status_of = Pending, step_kind_of = PredictAddress \<rparr>,
         \<lparr> step_name = ''WaitForVerifierSet'', step_status_of = Pending, step_kind_of = WaitVerifierSet \<rparr>] \<rparr> in
      \<lparr> rw_state = st, rw_saved = Some (saved_state st), rw_world = sample_world \<rparr>)"

lemmas run_eval =
  run_step_def step_work_def complete_step_def execute_step_def save_run_state_def mark_step_completed_def
  next_pending_step_def signer_for_def io_bind_def Let_def numeral_3_eq_3 numeral_2_eq_2
  sample_runner_def sample_bodies_def sample_run_def sample_cosmos_env_def sample_env_def sample_world_def

lemma sample_run_activated: "\<exists>w'. run_steps sample_runner True 3 sample_run = Some (Inr (), w')"
  by (simp add: run_eval)

theorem run_steps_completes_witness:
  "\<exists>w'. run_steps sample_runner True 3 sample_run = Some (Inr (), w') \<and>
     list_all (\<lambda>s. step_status_of s = Completed) (st_steps (rw_state w')) \<and>
     rw_saved w' = Some (saved_state (rw_state w'))"
proof -
  have "pending_count (st_steps (rw_state sample_run)) < 3"
    and "rw_saved sample_run = Some (saved_state (rw_state sample_run))"
    by (simp_all add: sample_run_def Let_def pending_count_def)
  then show ?thesis
    using run_steps_completes [OF sample_runner_tame, of sample_run 3 True] sample_run_activated by auto
qed


end
