(* ===== verification/Deploy_Lifecycle.thy ===== *)
theory Deploy_Lifecycle
  imports Deploy_Runner
begin

text \<open>
  The life of a deployment: any number of process runs, each a sequence of sends and
  reconciliations that stops at its first error, each starting from the journal the previous
  one left on disk.
\<close>

subsection \<open>An interface for journaled operations\<close>

text \<open>
  What a sequence of operations needs of each one: from a good world it ends in a good one or
  fails in a safe one, and starting again from the disk turns a safe world into a good one.
\<close>

locale journaled =
  fixes good :: "'w \<Rightarrow> bool"
    and sound :: "'w \<Rightarrow> bool"
    and restart :: "'w \<Rightarrow> 'w"
    and perform :: "'o \<Rightarrow> ('w, unit) io"
  assumes perform_ok: "triple good (perform f) (\<lambda>_. good) (\<lambda>_. sound)"
    and good_sound: "good w \<Longrightarrow> sound w"
    and restart_good: "sound w \<Longrightarrow> good (restart w)"
begin

lemma process_ok: "triple good (io_for fs perform) (\<lambda>_. good) (\<lambda>_. sound)"
proof (induction fs)
  case Nil
  show ?case by (simp add: triple_def)
next
  case (Cons f fs)
  then show ?case by (simp del: io_apply) (rule triple_bind [OF perform_ok])
qed

lemma process_sound: "good w \<Longrightarrow> sound (snd (io_for fs perform w))"
  using process_ok [of fs] good_sound
  by (cases "io_for fs perform w"; cases "fst (io_for fs perform w)") (auto dest: triple_Inr triple_Inl)

lemma lifecycle_good: "good w \<Longrightarrow> good (fold (\<lambda>fs w. restart (snd (io_for fs perform w))) runs w)"
  by (induction runs arbitrary: w) (simp_all add: process_sound restart_good)

end

subsection \<open>The operations of a deployment\<close>

datatype chain_op =
    SendEvm "(string \<times> string) option" tx_request string
  | SendCosmos "string option" bytes string string string gas_price "any list"
  | Reconcile
  | DirectCheck string

text \<open>Each operation runs in a session, with the state the run has loaded and the chain's LCD.\<close>

fun run_op :: "cosmos_env \<Rightarrow> session \<times> state \<times> string \<times> chain_op \<Rightarrow> (deploy_world, unit) io" where
  "run_op C (s, st, lcd, SendEvm scope request label) =
     io_bind (send (ce_machine C) True (Some s) scope request label) (\<lambda>_. io_return ())"
| "run_op C (s, st, lcd, SendCosmos scope key address chain denom price messages) =
     io_bind (sign_and_broadcast_cosmos_tx C True (Some s) scope key address lcd chain denom price messages)
       (\<lambda>_. io_return ())"
| "run_op C (s, st, lcd, Reconcile) =
     io_bind (io_gets (\<lambda>w. jn_actions (dw_journal w))) (\<lambda>ts. io_for ts (reconcile_one C s st lcd))"
| "run_op C (s, st, lcd, DirectCheck checkpoint) = direct_check C s lcd checkpoint"

definition restart :: "deploy_world \<Rightarrow> deploy_world" where
  "restart w = w\<lparr> dw_journal := dw_disk w \<rparr>"

subsection \<open>Each operation is journaled\<close>

text \<open>
  The retry option goes on after a lookup whose journal write failed, so memory may run ahead of
  the disk.  What stays true then, and after any journal operation, is that both cover
  everything broadcast.
\<close>

definition covered :: "deploy_world \<Rightarrow> bool" where
  "covered w = (safe w \<and> journal_wf (dw_journal w) \<and> set (dw_sent w) \<subseteq> raws (dw_journal w))"

lemma holding_covered: "holding key A w \<Longrightarrow> covered w"
  by (auto simp: holding_def coherent_def covered_def safe_def)

lemma keeps_covered_commit: "keeps covered (commit E (journal_step f))"
proof (rule keepsI)
  fix w r w' assume c: "covered w" and run: "commit E (journal_step f) w = (r, w')"
  obtain r0 j where step: "journal_step f (dw_journal w) = (r0, j)" by fastforce
  have "known (dw_journal w) \<subseteq> known j" "journal_wf j"
    using c journal_step_known [of "dw_journal w" f] journal_step_wf [of "dw_journal w" f] step
    by (simp_all add: covered_def)
  then have "set (dw_sent w) \<subseteq> raws j" using c raws_mono by (meson covered_def order_trans)
  with \<open>journal_wf j\<close> show "covered w'"
    using c commit_run [OF run step] by (auto simp: covered_def safe_def)
qed

lemma confirm_stable_covered [simp]: "confirm_stable E covered"
  using keeps_covered_commit [of E "Confirm h c" for h c]
  by (auto simp: confirm_stable_def quiet_stable_def quiet_def covered_def safe_def)

lemma keeps_covered_retry [simp]: "keeps covered (retry_failed C s st lcd key saved)"
proof -
  have "keeps covered (commit (ce_machine C) (retire key limit))" for limit
    using keeps_covered_commit [of "ce_machine C" "Retire key limit"] by simp
  moreover have "keeps covered (ask E f)" for E and f :: "nat \<Rightarrow> bool result"
    using confirm_stable_covered by (simp add: confirm_stable_def keeps_stable)
  ultimately show ?thesis
    unfolding retry_failed_def by (intro knows_intros) (simp_all add: keeps_prove_failed)
qed

lemma retry_failed_Inr: "retry_failed C s st lcd key saved w = (Inr b, w') \<Longrightarrow> \<not> b \<and> w' = w"
  by (auto simp: retry_failed_def io_runs split: if_splits)

lemma steady_retry: "steady key A (retry_failed C s st lcd k saved)"
  unfolding steady_def
proof (rule triple_intro)
  show "holding key A w'" if "holding key A w" "retry_failed C s st lcd k saved w = (Inr x, w')" for w x w'
    using that by (auto dest: retry_failed_Inr)
  show "safe w'" if "holding key A w" "retry_failed C s st lcd k saved w = (Inl e, w')" for w e w'
    using keepsD [OF keeps_covered_retry holding_covered [OF that(1)] that(2)] by (simp add: covered_def)
qed

lemma keeps_knows_retry [simp]: "keeps (knows K) (retry_failed C s st lcd key saved)"
  unfolding retry_failed_def
  by (intro knows_intros) (simp_all add: keeps_knows_quiet keeps_prove_failed)

lemma keeps_knows_reconcile_one [simp]: "keeps (knows K) (reconcile_one C s st lcd entry)"
  unfolding reconcile_one_def by (intro knows_intros) simp_all

lemma reconcile_holding:
  "triple (holding k {t}) (reconcile E ss signer k t) (\<lambda>_. holding k {t}) (\<lambda>_. safe)"
  unfolding reconcile_def
  by (cases t) (auto intro!: triple_bind [OF resume_holding] triple_return)

lemma reconcile_one_holding:
  "triple (holding k {t}) (reconcile_one C s st lcd (k, t)) (\<lambda>_. holding key {}) (\<lambda>_. safe)"
  unfolding reconcile_one_def prod.case
  apply (rule steady_then, rule steady_quiet, (simp; fail))
  apply (rule steady_then [OF steady_retry])
  apply (rule triple_if, rule triple_return, simp add: holding_def)
  apply (rule triple_bind [OF reconcile_holding], rule cosmos_reconcile_holding)
  done

lemma reconcile_all_holding:
  "triple (\<lambda>w. holding [] {} w \<and> knows (set ts) w) (io_for ts (reconcile_one C s st lcd))
     (\<lambda>_. holding [] {}) (\<lambda>_. safe)"
proof (induction ts)
  case Nil
  show ?case by (simp add: triple_def)
next
  case (Cons e ts)
  obtain k t where e: "e = (k, t)" by (cases e)
  have "triple (\<lambda>w. holding [] {} w \<and> knows (set (e # ts)) w) (reconcile_one C s st lcd e)
      (\<lambda>_ w. holding [] {} w \<and> knows (set ts) w) (\<lambda>_. safe)"
  proof (rule triple_intro)
    fix w x w' assume pre: "holding [] {} w \<and> knows (set (e # ts)) w"
      and run: "reconcile_one C s st lcd e w = (Inr x, w')"
    have "holding k {t} w" using pre e by (auto simp: holding_def knows_def)
    then show "holding [] {} w' \<and> knows (set ts) w'"
      using triple_Inr [OF reconcile_one_holding] run e pre
        keepsD [OF keeps_knows_reconcile_one _ run, of "set ts"] by (auto simp: knows_def)
  next
    fix w err w' assume pre: "holding [] {} w \<and> knows (set (e # ts)) w"
      and run: "reconcile_one C s st lcd e w = (Inl err, w')"
    have "holding k {t} w" using pre e by (auto simp: holding_def knows_def)
    then show "safe w'" using triple_Inl [OF reconcile_one_holding] run e by blast
  qed
  then show ?case unfolding io_for.simps by (rule triple_bind) (rule Cons.IH)
qed


lemma restart_holding: "safe w \<Longrightarrow> holding [] {} (restart w)"
  by (simp add: restart_def holding_def coherent_def safe_def)

lemma actions_known: "journal_wf j \<Longrightarrow> set (jn_actions j) \<subseteq> known j"
  by (auto simp: known_def journal_wf_def bt_get_def bt_wf_distinct intro: map_of_is_SomeI)

lemma direct_check_holding:
  "triple (holding [] {}) (direct_check C s lcd checkpoint) (\<lambda>_. holding [] {}) (\<lambda>_. safe)"
proof -
  have rest: "triple (\<lambda>w. case found of Some t \<Rightarrow> holding k {t} w | None \<Rightarrow> holding [] {} w)
      (io_bind (io_lift (ok_or found msg)) (\<lambda>saved.
       io_bind (io_lift (validate_submission C saved)) (\<lambda>_.
       io_bind (cosmos_resume C (Some s) lcd saved k) (\<lambda>_. io_return ()))))
      (\<lambda>_. holding [] {}) (\<lambda>_. safe)" for found k msg
  proof (cases found)
    case None
    then show ?thesis by (auto simp: triple_def io_bind_def holding_safe)
  next
    case (Some t)
    have "triple (holding k {t}) (io_bind (io_lift (validate_submission C t)) (\<lambda>_.
        io_bind (cosmos_resume C (Some s) lcd t k) (\<lambda>_. io_return ()))) (\<lambda>_. holding [] {}) (\<lambda>_. safe)"
      by (rule steady_then, rule steady_quiet, simp)
        (rule triple_bind [OF cosmos_resume_holding], rule triple_return)
    with Some show ?thesis by (simp add: triple_def io_bind_def)
  qed
  show ?thesis
    unfolding direct_check_def Let_def
    apply (rule steady_then, rule steady_quiet, (simp; fail))
    apply (rule triple_bind [OF session_get_holding])
    apply (rule rest)
    done
qed

lemma run_op_holding:
  "triple (holding [] {}) (run_op C f) (\<lambda>_. holding [] {}) (\<lambda>_. safe)"
proof (cases "(C, f)" rule: run_op.cases)
  case (1 C s st lcd scope request label)
  then show ?thesis by (auto intro!: triple_bind [OF send_holding] triple_return)
next
  case (2 C s st lcd scope key address chain denom price messages)
  have "triple (holding [] {}) (sign_and_broadcast_cosmos_tx C True (Some s) scope key address lcd chain
      denom price messages) (\<lambda>_. holding [] {}) (\<lambda>_. safe)"
    unfolding sign_and_broadcast_cosmos_tx_def
    by (rule steady_then, rule steady_quiet, simp, simp, rule cosmos_send_holding)
  with 2 show ?thesis by (auto intro!: triple_bind triple_return)
next
  case (3 C s st lcd)
  have "triple (holding [] {}) (io_gets (\<lambda>w. jn_actions (dw_journal w)))
      (\<lambda>ts w. holding [] {} w \<and> knows (set ts) w) (\<lambda>_. safe)"
    by (auto simp: triple_def knows_def holding_def coherent_def actions_known)
  with 3 show ?thesis by (auto intro!: triple_bind reconcile_all_holding)
next
  case (4 C s st lcd checkpoint)
  then show ?thesis by (simp add: direct_check_holding)
qed

interpretation wa: journaled "holding [] {}" safe restart "run_op C" for C
  by unfold_locales (rule run_op_holding, rule holding_safe, assumption, rule restart_holding, assumption)

text \<open>
  C1: Nothing is ever broadcast that the journal on disk does not record.  Take any number of
  process runs, each performing any sequence of sends and reconciliations on either chain in
  any session and stopping at its first error, each starting from the journal the run before it
  left on disk.  Whatever the nodes, the disk and the operator answer, at the end every raw
  transaction ever broadcast is in the journal on disk.
\<close>

theorem deployment_write_ahead:
  assumes "coherent w" and "set (dw_sent w) \<subseteq> raws (dw_disk w)"
    and "w' = fold (\<lambda>fs w. restart (snd (io_for fs (run_op C) w))) runs w"
  shows "set (dw_sent w') \<subseteq> raws (dw_disk w')"
proof -
  have "holding [] {} w" using assms(1,2) by (simp add: holding_empty safe_def coherent_def)
  then have "holding [] {} w'" using wa.lifecycle_good assms(3) by blast
  then show ?thesis by (simp add: holding_def safe_def)
qed


definition sample_op :: "session \<times> state \<times> string \<times> chain_op" where
  "sample_op = (sample_session, sample_state, ''http://lcd'',
     SendEvm (Some (''Operators'', ''key'')) sample_request ''deploy'')"

definition sample_life :: deploy_world where
  "sample_life =
     fold (\<lambda>fs w. restart (snd (io_for fs (run_op sample_cosmos_env) w))) [[sample_op]] sample_world"

lemma sample_life_sent: "dw_sent sample_life = [[1, 2, 3]]"
proof -
  obtain v where send: "sample_send = (Inr sample_receipt, v)" and sent: "dw_sent v = [[1, 2, 3]]"
    using sample_send_run by (metis prod.collapse)
  have "ce_machine sample_cosmos_env = sample_env" by (simp add: sample_cosmos_env_def)
  then have life: "sample_life = restart v"
    using send by (simp add: sample_life_def sample_op_def io_bind_def sample_send_def)
  show ?thesis unfolding life restart_def using sent by simp
qed

theorem deployment_write_ahead_witness:
  "dw_sent sample_life = [[1, 2, 3]] \<and> set (dw_sent sample_life) \<subseteq> raws (dw_disk sample_life)"
  using deployment_write_ahead [OF sample_world_coherent _ sample_life_def] sample_life_sent
  by (simp add: sample_world_def)

end
