(* ===== verification/Load_Sizing.thy ===== *)
theory Load_Sizing
  imports Axe_Decimal
begin

text \<open>
  Sizing of a load-test run (\<open>load_test/scheduling/run_sizing.rs\<close>) and the sustained send
  schedule (\<open>load_test/scheduling/sustained.rs\<close>).  \<open>usize\<close> has 64 bits.  The tasks a run spawns
  are the pairs of key index and nonce it passes to its task factory, in order; a shutdown may
  arrive before any tick and before any task.
\<close>

record sustained_plan =
  sp_tps :: u64
  sp_duration_secs :: u64
  sp_key_cycle :: u64

definition total_transactions :: "sustained_plan \<Rightarrow> u64" where
  "total_transactions P = saturating_mul (sp_tps P) (sp_duration_secs P)"

datatype run_mode = Burst u64 | Sustained sustained_plan

record run_sizing =
  rz_mode :: run_mode
  rz_num_keys :: u64
  rz_total_expected :: u64

definition nonzero :: "u64 \<Rightarrow> string \<Rightarrow> u64 result" where
  "nonzero value flag = (if value = 0 then Inl (Report (flag @ '' must be greater than zero'')) else Inr value)"

definition from_values :: "u64 \<Rightarrow> u64 option \<Rightarrow> u64 option \<Rightarrow> u64 \<Rightarrow> run_sizing result" where
  "from_values num_txs tps duration_secs key_cycle =
     (case (tps, duration_secs) of
        (None, None) \<Rightarrow>
          and_then (nonzero num_txs ''--num-txs'') (\<lambda>num_txs.
          Inr \<lparr> rz_mode = Burst num_txs, rz_num_keys = num_txs, rz_total_expected = num_txs \<rparr>)
      | (Some tps, Some duration_secs) \<Rightarrow>
          and_then (nonzero tps ''--tps'') (\<lambda>tps.
          and_then (nonzero duration_secs ''--duration-secs'') (\<lambda>duration_secs.
          and_then (nonzero key_cycle ''--key-cycle'') (\<lambda>key_cycle.
          and_then (ok_or (checked_mul tps duration_secs)
            ''--tps multiplied by --duration-secs exceeds the supported transaction count'') (\<lambda>total_expected.
          and_then (ok_or (checked_mul tps key_cycle)
            ''--tps multiplied by --key-cycle exceeds the supported wallet count'') (\<lambda>num_keys.
          Inr \<lparr> rz_mode = Sustained \<lparr> sp_tps = tps, sp_duration_secs = duration_secs, sp_key_cycle = key_cycle \<rparr>,
                rz_num_keys = num_keys, rz_total_expected = total_expected \<rparr>)))))
      | _ \<Rightarrow> Inl (Report ''--tps and --duration-secs must be provided together for a sustained load test''))"

definition is_burst :: "run_sizing \<Rightarrow> bool" where
  "is_burst z = (case rz_mode z of Burst _ \<Rightarrow> True | Sustained _ \<Rightarrow> False)"

definition burst_transactions :: "run_sizing \<Rightarrow> u64 option" where
  "burst_transactions z = (case rz_mode z of Burst n \<Rightarrow> Some n | Sustained _ \<Rightarrow> None)"

definition require_burst :: "run_sizing \<Rightarrow> u64 result" where
  "require_burst z = ok_or (burst_transactions z) ''supports burst mode only''"

definition sustained :: "run_sizing \<Rightarrow> sustained_plan option" where
  "sustained z = (case rz_mode z of Burst _ \<Rightarrow> None | Sustained P \<Rightarrow> Some P)"

definition transactions_per_key :: "run_sizing \<Rightarrow> u64" where
  "transactions_per_key z =
     (case rz_mode z of
        Burst _ \<Rightarrow> 1
      | Sustained P \<Rightarrow> div_ceil (sp_duration_secs P) (sp_key_cycle P))"

subsection \<open>The sustained schedule\<close>

definition scheduled_key_index :: "u64 \<Rightarrow> u64 \<Rightarrow> sustained_plan \<Rightarrow> u64" where
  "scheduled_key_index tick offset P = (tick mod sp_key_cycle P) * sp_tps P + offset"

record send_state =
  sn_nonces :: "u64 list option"
  sn_fired :: "(u64 \<times> u64 option) list"

text \<open>Reading and bumping the local nonce of a key; an index out of range panics.\<close>

definition take_nonce :: "u64 list option \<Rightarrow> u64 \<Rightarrow> (u64 option \<times> u64 list option) result" where
  "take_nonce nonces key =
     (case nonces of
        None \<Rightarrow> Inr (None, None)
      | Some ns \<Rightarrow>
          if unat key < length ns
          then Inr (Some (ns ! unat key), Some (ns[unat key := ns ! unat key + 1]))
          else Inl (Report ''index out of bounds''))"

definition fire :: "sustained_plan \<Rightarrow> nat \<Rightarrow> nat \<Rightarrow> send_state \<Rightarrow> send_state result" where
  "fire P tick i s =
     (let key = scheduled_key_index (of_nat tick) (of_nat i) P in
      and_then (take_nonce (sn_nonces s) key) (\<lambda>(nonce, ns).
      Inr (s\<lparr> sn_nonces := ns, sn_fired := sn_fired s @ [(key, nonce)] \<rparr>)))"

fun fire_offsets ::
  "sustained_plan \<Rightarrow> (nat \<Rightarrow> nat \<Rightarrow> bool) \<Rightarrow> nat \<Rightarrow> nat list \<Rightarrow> send_state \<Rightarrow> send_state result" where
  "fire_offsets P requested tick [] s = Inr s"
| "fire_offsets P requested tick (i # rest) s =
     (if requested tick i then Inr s
      else and_then (fire P tick i s) (fire_offsets P requested tick rest))"

fun send_ticks ::
  "sustained_plan \<Rightarrow> (nat \<Rightarrow> bool) \<Rightarrow> (nat \<Rightarrow> nat \<Rightarrow> bool) \<Rightarrow> nat list \<Rightarrow> send_state \<Rightarrow> send_state result" where
  "send_ticks P cancelled requested [] s = Inr s"
| "send_ticks P cancelled requested (tick # rest) s =
     (if cancelled tick then Inr s
      else and_then (fire_offsets P requested tick [0..<unat (sp_tps P)] s)
             (send_ticks P cancelled requested rest))"

definition run_sustained_loop ::
  "sustained_plan \<Rightarrow> (nat \<Rightarrow> bool) \<Rightarrow> (nat \<Rightarrow> nat \<Rightarrow> bool) \<Rightarrow> u64 list option \<Rightarrow> send_state result" where
  "run_sustained_loop P cancelled requested nonces =
     send_ticks P cancelled requested [0..<unat (sp_duration_secs P)] \<lparr> sn_nonces = nonces, sn_fired = [] \<rparr>"

subsection \<open>The schedule stays within the sized key pool\<close>

lemma nonzero_Inr [result_simps]: "(nonzero v f = Inr x) = (v \<noteq> 0 \<and> x = v)"
  by (auto simp: nonzero_def)

lemma sustained_sizing:
  assumes "from_values n tps dur kc = Inr z" and "rz_mode z = Sustained P"
  shows "0 < unat (sp_tps P)" "0 < unat (sp_duration_secs P)" "0 < unat (sp_key_cycle P)"
    "unat (rz_total_expected z) = unat (sp_tps P) * unat (sp_duration_secs P)"
    "unat (rz_num_keys z) = unat (sp_tps P) * unat (sp_key_cycle P)"
  using assms by (auto simp: from_values_def result_simps checked_simps unat_gt_0 split: option.splits)

lemma slot_bound:
  fixes r i tps kc :: nat
  assumes "i < tps" and "r < kc"
  shows "r * tps + i < tps * kc"
proof -
  have "r * tps + i < (r + 1) * tps" using assms(1) by simp
  also have "\<dots> \<le> kc * tps" using assms(2) by (intro mult_le_mono1) simp
  finally show ?thesis by (simp add: mult.commute)
qed

lemma scheduled_key_index_unat:
  assumes z: "from_values n tps dur kc = Inr z" "rz_mode z = Sustained P"
    and t: "t < unat (sp_duration_secs P)" and i: "i < unat (sp_tps P)"
  shows "unat (scheduled_key_index (of_nat t) (of_nat i) P) =
    (t mod unat (sp_key_cycle P)) * unat (sp_tps P) + i"
proof -
  note sizes = sustained_sizing [OF z]
  have "t < 2 ^ 64" and "i < 2 ^ 64"
    using t i unsigned_less [of "sp_duration_secs P", where 'a = nat] unsigned_less [of "sp_tps P", where 'a = nat]
    by simp_all
  then have words: "unat (of_nat t :: u64) = t" "unat (of_nat i :: u64) = i"
    by (simp_all add: unat_of_nat)
  define r where "r = t mod unat (sp_key_cycle P)"
  have "r < unat (sp_key_cycle P)" using sizes(3) by (simp add: r_def)
  then have "r * unat (sp_tps P) + i < unat (rz_num_keys z)"
    using slot_bound [OF i] sizes(5) by simp
  then have small: "r * unat (sp_tps P) + i < 2 ^ 64"
    using unsigned_less [of "rz_num_keys z", where 'a = nat] by simp
  moreover have "unat ((of_nat t :: u64) mod sp_key_cycle P) = r"
    by (simp add: unat_mod words r_def)
  ultimately have "unat (scheduled_key_index (of_nat t) (of_nat i) P) = r * unat (sp_tps P) + i"
    by (simp add: scheduled_key_index_def unat_word_ariths words)
  then show ?thesis by (simp add: r_def)
qed

lemma slot_inj:
  fixes r r' i i' tps :: nat
  assumes "i < tps" and "i' < tps" and "r * tps + i = r' * tps + i'"
  shows "r = r'" and "i = i'"
proof -
  have "(r * tps + i) div tps = r" "(r' * tps + i') div tps = r'" using assms(1,2) by simp_all
  then show "r = r'" using assms(3) by simp
  then show "i = i'" using assms(3) by simp
qed

lemma slot_eq:
  fixes r r' i i' tps :: nat
  assumes "i < tps" and "i' < tps"
  shows "(r * tps + i = r' * tps + i') = (i = i' \<and> r = r')"
proof
  assume "r * tps + i = r' * tps + i'"
  then show "i = i' \<and> r = r'" using slot_inj [OF assms] by simp
qed simp

lemma same_key:
  assumes z: "from_values n tps dur kc = Inr z" "rz_mode z = Sustained P"
    and "t < unat (sp_duration_secs P)" "i < unat (sp_tps P)"
    and "t' < unat (sp_duration_secs P)" "i' < unat (sp_tps P)"
  shows "(scheduled_key_index (of_nat t) (of_nat i) P = scheduled_key_index (of_nat t') (of_nat i') P) =
    (i = i' \<and> t mod unat (sp_key_cycle P) = t' mod unat (sp_key_cycle P))"
  unfolding word_unat_eq_iff scheduled_key_index_unat [OF z assms(3,4)]
    scheduled_key_index_unat [OF z assms(5,6)]
  by (rule slot_eq [OF assms(4,6)])

lemma residue_card:
  fixes d c r :: nat
  assumes "0 < c"
  shows "card {t. t < d \<and> t mod c = r} \<le> (d + c - 1) div c"
proof -
  let ?S = "{t. t < d \<and> t mod c = r}"
  have "inj_on (\<lambda>t. t div c) ?S"
    by (rule inj_onI) (metis (mono_tags, lifting) div_mult_mod_eq mem_Collect_eq)
  moreover have "(\<lambda>t. t div c) ` ?S \<subseteq> {..<(d + c - 1) div c}"
  proof
    fix q assume "q \<in> (\<lambda>t. t div c) ` ?S"
    then obtain t where t: "t < d" and q: "q = t div c" by blast
    have "(q + 1) * c \<le> t + c" using q by (simp add: div_times_less_eq_dividend)
    then have "(q + 1) * c \<le> d + c - 1" using t by linarith
    then have "q + 1 \<le> (d + c - 1) div c" using assms by (simp add: less_eq_div_iff_mult_less_eq)
    then show "q \<in> {..<(d + c - 1) div c}" by simp
  qed
  ultimately have "card ?S \<le> card {..<(d + c - 1) div c}" by (intro card_inj_on_le) simp_all
  then show ?thesis by simp
qed

lemma key_use_card:
  assumes z: "from_values n tps dur kc = Inr z" "rz_mode z = Sustained P"
  shows "card {(t, i). t < unat (sp_duration_secs P) \<and> i < unat (sp_tps P) \<and>
      scheduled_key_index (of_nat t) (of_nat i) P = k} \<le> unat (transactions_per_key z)"
proof -
  let ?U = "{(t, i). t < unat (sp_duration_secs P) \<and> i < unat (sp_tps P) \<and>
      scheduled_key_index (of_nat t) (of_nat i) P = k}"
  note sizes = sustained_sizing [OF z]
  have per_key: "unat (transactions_per_key z) =
      (unat (sp_duration_secs P) + unat (sp_key_cycle P) - 1) div unat (sp_key_cycle P)"
    using sizes(3) z(2) by (simp add: transactions_per_key_def unat_div_ceil word_less_nat_alt)
  show ?thesis
  proof (cases "?U = {}")
    case False
    then obtain t0 i0 where u0: "(t0, i0) \<in> ?U" by auto
    have "inj_on fst ?U"
      using same_key [OF z] by (intro inj_onI) auto
    moreover have "fst ` ?U \<subseteq> {t. t < unat (sp_duration_secs P) \<and> t mod unat (sp_key_cycle P) = t0 mod unat (sp_key_cycle P)}"
      using same_key [OF z] u0 by fastforce
    ultimately have "card ?U \<le> card {t. t < unat (sp_duration_secs P) \<and>
        t mod unat (sp_key_cycle P) = t0 mod unat (sp_key_cycle P)}"
      by (intro card_inj_on_le) simp_all
    also have "\<dots> \<le> unat (transactions_per_key z)" unfolding per_key by (rule residue_card [OF sizes(3)])
    finally show ?thesis .
  qed (simp only: card.empty le0)
qed

subsection \<open>Nonces of a sustained run\<close>

definition uses :: "nat \<Rightarrow> (u64 \<times> u64 option) list \<Rightarrow> nat" where
  "uses k fired = length (filter (\<lambda>f. unat (fst f) = k) fired)"

definition numbered :: "u64 list \<Rightarrow> (u64 \<times> u64 option) list \<Rightarrow> bool" where
  "numbered ns fired =
     (\<forall>j < length fired. case fired ! j of (key, nonce) \<Rightarrow>
        nonce = Some (ns ! unat key + of_nat (uses (unat key) (take j fired))))"

definition issued :: "u64 list \<Rightarrow> send_state \<Rightarrow> bool" where
  "issued ns s =
     (numbered ns (sn_fired s) \<and>
      (\<exists>ns'. sn_nonces s = Some ns' \<and> length ns' = length ns \<and>
         (\<forall>k < length ns. ns' ! k = ns ! k + of_nat (uses k (sn_fired s)))))"

definition tick_keys :: "sustained_plan \<Rightarrow> nat \<Rightarrow> nat list \<Rightarrow> u64 list" where
  "tick_keys P t offsets = map (\<lambda>i. scheduled_key_index (of_nat t) (of_nat i) P) offsets"

lemma uses_snoc: "uses k (fired @ [(key, nonce)]) = uses k fired + (if unat key = k then 1 else 0)"
  by (simp add: uses_def)

lemma numbered_snoc:
  assumes "numbered ns fired" and "nonce = Some (ns ! unat key + of_nat (uses (unat key) fired))"
  shows "numbered ns (fired @ [(key, nonce)])"
  unfolding numbered_def
proof (intro allI impI)
  fix j assume "j < length (fired @ [(key, nonce)])"
  then consider "j < length fired" | "j = length fired" by fastforce
  then show "case (fired @ [(key, nonce)]) ! j of (key', nonce') \<Rightarrow>
      nonce' = Some (ns ! unat key' + of_nat (uses (unat key') (take j (fired @ [(key, nonce)]))))"
    using assms by cases (simp_all add: numbered_def nth_append)
qed

lemma fire_issued:
  assumes "issued ns s" and key: "key = scheduled_key_index (of_nat t) (of_nat i) P" "unat key < length ns"
  obtains s' where "fire P t i s = Inr s'" "issued ns s'" "map fst (sn_fired s') = map fst (sn_fired s) @ [key]"
proof -
  obtain ns' where ns': "sn_nonces s = Some ns'" "length ns' = length ns"
      "\<forall>k < length ns. ns' ! k = ns ! k + of_nat (uses k (sn_fired s))"
    and num: "numbered ns (sn_fired s)"
    using assms(1) by (auto simp: issued_def)
  let ?s = "s\<lparr> sn_nonces := Some (ns'[unat key := ns' ! unat key + 1]),
    sn_fired := sn_fired s @ [(key, Some (ns' ! unat key))] \<rparr>"
  have "fire P t i s = Inr ?s"
    using ns'(1,2) key by (simp add: fire_def take_nonce_def Let_def)
  moreover have "issued ns ?s"
    using ns' key(2) numbered_snoc [OF num] by (simp add: issued_def uses_snoc nth_list_update)
  ultimately show thesis using that by simp
qed

lemma fire_offsets_issued:
  assumes "issued ns s" and "\<And>i. i \<in> set offsets \<Longrightarrow> unat (scheduled_key_index (of_nat t) (of_nat i) P) < length ns"
  shows "\<exists>s' m. fire_offsets P requested t offsets s = Inr s' \<and> issued ns s' \<and> m \<le> length offsets \<and>
    map fst (sn_fired s') = map fst (sn_fired s) @ tick_keys P t (take m offsets) \<and>
    ((\<forall>i. \<not> requested t i) \<longrightarrow> m = length offsets)"
  using assms
proof (induction offsets arbitrary: s)
  case Nil
  then show ?case by (simp add: tick_keys_def)
next
  case (Cons i offsets)
  show ?case
  proof (cases "requested t i")
    case True
    then have "fire_offsets P requested t (i # offsets) s = Inr s" and "\<not> (\<forall>i. \<not> requested t i)" by auto
    then show ?thesis using Cons.prems(1) by (intro exI [of _ s] exI [of _ 0]) (simp add: tick_keys_def)
  next
    case False
    obtain s1 where s1: "fire P t i s = Inr s1" "issued ns s1"
        "map fst (sn_fired s1) = map fst (sn_fired s) @ [scheduled_key_index (of_nat t) (of_nat i) P]"
      using fire_issued [OF Cons.prems(1) refl Cons.prems(2)] by auto
    obtain s' m where "fire_offsets P requested t offsets s1 = Inr s'" "issued ns s'" "m \<le> length offsets"
        "map fst (sn_fired s') = map fst (sn_fired s1) @ tick_keys P t (take m offsets)"
        "(\<forall>i. \<not> requested t i) \<longrightarrow> m = length offsets"
      using Cons.IH [OF s1(2)] Cons.prems(2) by (metis list.set_intros(2))
    then show ?thesis
      using False s1 by (intro exI [of _ s'] exI [of _ "Suc m"]) (simp add: tick_keys_def)
  qed
qed

lemma send_ticks_issued:
  assumes "issued ns s"
    and "\<And>t i. t \<in> set ticks \<Longrightarrow> i < unat (sp_tps P) \<Longrightarrow> unat (scheduled_key_index (of_nat t) (of_nat i) P) < length ns"
  shows "\<exists>s'. send_ticks P cancelled requested ticks s = Inr s' \<and> issued ns s' \<and>
    length (sn_fired s') \<le> length (sn_fired s) + unat (sp_tps P) * length ticks \<and>
    ((\<forall>t. \<not> cancelled t) \<and> (\<forall>t i. \<not> requested t i) \<longrightarrow>
      map fst (sn_fired s') = map fst (sn_fired s) @ concat (map (\<lambda>t. tick_keys P t [0..<unat (sp_tps P)]) ticks))"
  using assms
proof (induction ticks arbitrary: s)
  case (Cons t ticks)
  show ?case
  proof (cases "cancelled t")
    case False
    have "unat (scheduled_key_index (of_nat t) (of_nat i) P) < length ns" if "i \<in> set [0..<unat (sp_tps P)]" for i
      using Cons.prems(2) [of t i] that by simp
    from fire_offsets_issued [OF Cons.prems(1) this, where requested = requested]
    obtain s1 m where s1: "fire_offsets P requested t [0..<unat (sp_tps P)] s = Inr s1" "issued ns s1"
        "m \<le> length [0..<unat (sp_tps P)]"
        "map fst (sn_fired s1) = map fst (sn_fired s) @ tick_keys P t (take m [0..<unat (sp_tps P)])"
        "(\<forall>i. \<not> requested t i) \<longrightarrow> m = length [0..<unat (sp_tps P)]"
      by blast
    have "length (map fst (sn_fired s1)) = length (sn_fired s) + m" unfolding s1(4) using s1(3) by (simp add: tick_keys_def)
    then have len: "length (sn_fired s1) \<le> length (sn_fired s) + unat (sp_tps P)" using s1(3) by simp
    obtain s' where s': "send_ticks P cancelled requested ticks s1 = Inr s'" "issued ns s'"
        "length (sn_fired s') \<le> length (sn_fired s1) + unat (sp_tps P) * length ticks"
        "(\<forall>t. \<not> cancelled t) \<and> (\<forall>t i. \<not> requested t i) \<longrightarrow>
          map fst (sn_fired s') = map fst (sn_fired s1) @ concat (map (\<lambda>t. tick_keys P t [0..<unat (sp_tps P)]) ticks)"
      using Cons.IH [OF s1(2)] Cons.prems(2) by (metis list.set_intros(2))
    have "send_ticks P cancelled requested (t # ticks) s = Inr s'" using False s1(1) s'(1) by simp
    moreover have "length (sn_fired s') \<le> length (sn_fired s) + unat (sp_tps P) * length (t # ticks)"
      using s'(3) len by simp
    moreover have "map fst (sn_fired s') = map fst (sn_fired s) @
        concat (map (\<lambda>t. tick_keys P t [0..<unat (sp_tps P)]) (t # ticks))"
      if "(\<forall>t. \<not> cancelled t) \<and> (\<forall>t i. \<not> requested t i)"
      using that s'(4) s1(4,5) by simp
    ultimately show ?thesis using s'(2) by blast
  qed (use Cons.prems(1) in auto)
qed (use assms in simp)

lemma scheduled_key_in_pool:
  assumes z: "from_values n tps dur kc = Inr z" "rz_mode z = Sustained P"
    and "t < unat (sp_duration_secs P)" "i < unat (sp_tps P)"
  shows "scheduled_key_index (of_nat t) (of_nat i) P < rz_num_keys z"
  unfolding word_less_nat_alt scheduled_key_index_unat [OF assms] sustained_sizing(5) [OF z]
  using assms(4) sustained_sizing(3) [OF z] by (intro slot_bound) simp_all


definition sample_plan :: sustained_plan where
  "sample_plan = \<lparr> sp_tps = 2, sp_duration_secs = 5, sp_key_cycle = 3 \<rparr>"

definition sample_sizing :: run_sizing where
  "sample_sizing = \<lparr> rz_mode = Sustained sample_plan, rz_num_keys = 6, rz_total_expected = 10 \<rparr>"

lemma sample_sizing: "from_values 0 (Some 2) (Some 5) 3 = Inr sample_sizing" "rz_mode sample_sizing = Sustained sample_plan"
  by (simp_all add: from_values_def nonzero_def checked_mul_def sample_sizing_def sample_plan_def)


text \<open>
  C23: Every transaction of a sustained run carries the next nonce of its key.  Whatever the
  shutdown does, the run does not panic, and the j-th task that uses a key gets that key's
  prefetched nonce plus the number of tasks that used the key before it, so no nonce repeats
  and none is skipped; a run that is not interrupted fires exactly the scheduled keys in order.
\<close>

theorem sustained_nonces_consecutive:
  assumes "from_values num_txs tps duration_secs key_cycle = Inr z" and "rz_mode z = Sustained P"
    and "length ns = unat (rz_num_keys z)"
  shows "\<exists>s. run_sustained_loop P cancelled requested (Some ns) = Inr s \<and>
    numbered ns (sn_fired s) \<and> length (sn_fired s) \<le> unat (rz_total_expected z) \<and>
    ((\<forall>t. \<not> cancelled t) \<and> (\<forall>t i. \<not> requested t i) \<longrightarrow>
      map fst (sn_fired s) =
        concat (map (\<lambda>t. tick_keys P t [0..<unat (sp_tps P)]) [0..<unat (sp_duration_secs P)]))"
proof -
  let ?start = "\<lparr> sn_nonces = Some ns, sn_fired = [] \<rparr>"
  have "issued ns ?start" by (simp add: issued_def numbered_def uses_def)
  moreover have "unat (scheduled_key_index (of_nat t) (of_nat i) P) < length ns"
    if "t \<in> set [0..<unat (sp_duration_secs P)]" "i < unat (sp_tps P)" for t i
    using scheduled_key_in_pool [OF assms(1,2)] that assms(3) by (simp add: word_less_nat_alt)
  ultimately show ?thesis
    using send_ticks_issued [of ns ?start "[0..<unat (sp_duration_secs P)]" P cancelled requested]
      sustained_sizing(4) [OF assms(1,2)]
    by (auto simp: run_sustained_loop_def issued_def)
qed

theorem sustained_nonces_consecutive_witness:
  "from_values 0 (Some 2) (Some 5) 3 = Inr sample_sizing \<and>
   (\<exists>s. run_sustained_loop sample_plan (\<lambda>t. t = 4) (\<lambda>t i. False) (Some [10, 20, 30, 40, 50, 60]) = Inr s \<and>
     numbered [10, 20, 30, 40, 50, 60] (sn_fired s) \<and>
     sn_fired s = [(0, Some 10), (1, Some 20), (2, Some 30), (3, Some 40), (4, Some 50), (5, Some 60),
       (0, Some 11), (1, Some 21)])"
proof -
  have "length [10, 20, 30, 40, 50, 60 :: u64] = unat (rz_num_keys sample_sizing)"
    by (simp add: sample_sizing_def)
  note ok = sustained_nonces_consecutive [OF sample_sizing this, of "\<lambda>t. t = 4" "\<lambda>t i. False"]
  have "run_sustained_loop sample_plan (\<lambda>t. t = 4) (\<lambda>t i. False) (Some [10, 20, 30, 40, 50, 60]) =
    Inr \<lparr> sn_nonces = Some [12, 22, 31, 41, 51, 61],
      sn_fired = [(0, Some 10), (1, Some 20), (2, Some 30), (3, Some 40), (4, Some 50), (5, Some 60),
        (0, Some 11), (1, Some 21)] \<rparr>"
    by (simp add: run_sustained_loop_def fire_def take_nonce_def scheduled_key_index_def sample_plan_def upt_rec)
  then show ?thesis using ok sample_sizing(1) by auto
qed

end
