(* ===== verification/Load_Metrics.thy ===== *)
theory Load_Metrics
  imports Complex_Main Rpc_Retry Axe_Json Load_Sizing
begin

text \<open>
  Per-transaction outcomes and the load-test report (\<open>load_test/support/metrics.rs\<close>) and the
  rate-limit retry (\<open>load_test/scheduling/retry.rs\<close>).  A float is an exact rational here: the
  rounding of \<open>f64\<close> is not modelled.  An \<open>Instant\<close> is a number of nanoseconds.
\<close>

type_synonym secs = rat

definition secs_between :: "nat \<Rightarrow> nat \<Rightarrow> secs" where
  "secs_between start now = of_nat (now - start) / 1000000000"

subsection \<open>Outcomes\<close>

datatype tx_failure_kind = RateLimited | OtherFailure

record tx_failure =
  tf_reason :: string
  tf_kind :: tx_failure_kind

definition classified :: "string \<Rightarrow> tx_failure" where
  "classified reason =
     \<lparr> tf_reason = reason, tf_kind = (if contains ''429'' reason then RateLimited else OtherFailure) \<rparr>"

datatype tx_outcome = TxSucceeded | TxFailed tx_failure

definition outcome_failed :: "string \<Rightarrow> tx_outcome" where
  "outcome_failed error = TxFailed (classified error)"

definition from_external :: "bool \<Rightarrow> string option \<Rightarrow> string \<Rightarrow> tx_outcome" where
  "from_external success error fallback =
     (if success then TxSucceeded
      else outcome_failed (case error of Some e \<Rightarrow> e | None \<Rightarrow> fallback))"

definition outcome_is_success :: "tx_outcome \<Rightarrow> bool" where
  "outcome_is_success out = (out = TxSucceeded)"

definition outcome_error :: "tx_outcome \<Rightarrow> string option" where
  "outcome_error out = (case out of TxSucceeded \<Rightarrow> None | TxFailed f \<Rightarrow> Some (tf_reason f))"

definition outcome_is_rate_limited :: "tx_outcome \<Rightarrow> bool" where
  "outcome_is_rate_limited out = (case out of TxSucceeded \<Rightarrow> False | TxFailed f \<Rightarrow> tf_kind f = RateLimited)"

text \<open>The two report fields an outcome is written as, and how they are read back.\<close>

definition serialize_outcome :: "tx_outcome \<Rightarrow> json" where
  "serialize_outcome out =
     JObject [(''success'', JBool (outcome_is_success out)),
       (''error'', case outcome_error out of None \<Rightarrow> JNull | Some e \<Rightarrow> JString e)]"

definition deserialize_outcome :: "json \<Rightarrow> tx_outcome result" where
  "deserialize_outcome v =
     and_then (case json_get ''success'' v of
                 Some (JBool b) \<Rightarrow> Inr b
               | Some _ \<Rightarrow> Inl (Report ''invalid type'')
               | None \<Rightarrow> Inl (Report ''missing field'')) (\<lambda>success.
     and_then (case json_get ''error'' v of
                 None \<Rightarrow> Inr None
               | Some JNull \<Rightarrow> Inr None
               | Some (JString e) \<Rightarrow> Inr (Some e)
               | Some _ \<Rightarrow> Inl (Report ''invalid type'')) (\<lambda>error.
     case (success, error) of
       (True, None) \<Rightarrow> Inr TxSucceeded
     | (False, Some e) \<Rightarrow> Inr (outcome_failed e)
     | (True, Some _) \<Rightarrow> Inl (Report ''successful transaction cannot contain an error'')
     | (False, None) \<Rightarrow> Inl (Report ''failed transaction must contain an error reason'')))"

subsection \<open>Transaction metrics\<close>

record amplifier_timing =
  at_voted_secs :: "secs option"
  at_routed_secs :: "secs option"
  at_hub_approved_secs :: "secs option"
  at_approved_secs :: "secs option"
  at_executed_secs :: "secs option"
  at_executed_ok :: "bool option"
  at_stored_message :: "string option"

definition no_timing :: amplifier_timing where
  "no_timing = \<lparr> at_voted_secs = None, at_routed_secs = None, at_hub_approved_secs = None,
     at_approved_secs = None, at_executed_secs = None, at_executed_ok = None, at_stored_message = None \<rparr>"

record tx_metrics =
  tm_signature :: string
  tm_submit_time_ms :: u64
  tm_confirm_time_ms :: "u64 option"
  tm_latency_ms :: "u64 option"
  tm_compute_units :: "u64 option"
  tm_slot :: "u64 option"
  tm_outcome :: tx_outcome
  tm_payload_hash :: string
  tm_source_address :: string
  tm_payload :: bytes
  tm_send_instant :: "nat option"
  tm_gmp_destination_chain :: string
  tm_gmp_destination_address :: string
  tm_amplifier_timing :: "amplifier_timing option"

definition from_outcome :: "string \<Rightarrow> u64 \<Rightarrow> tx_outcome \<Rightarrow> tx_metrics" where
  "from_outcome signature submit_time_ms out =
     \<lparr> tm_signature = signature, tm_submit_time_ms = submit_time_ms, tm_confirm_time_ms = None,
       tm_latency_ms = None, tm_compute_units = None, tm_slot = None, tm_outcome = out,
       tm_payload_hash = [], tm_source_address = [], tm_payload = [], tm_send_instant = None,
       tm_gmp_destination_chain = [], tm_gmp_destination_address = [], tm_amplifier_timing = None \<rparr>"

definition metrics_succeeded :: "string \<Rightarrow> u64 \<Rightarrow> tx_metrics" where
  "metrics_succeeded signature submit_time_ms = from_outcome signature submit_time_ms TxSucceeded"

definition metrics_failed :: "string \<Rightarrow> u64 \<Rightarrow> string \<Rightarrow> tx_metrics" where
  "metrics_failed signature submit_time_ms error =
     from_outcome signature submit_time_ms (outcome_failed error)"

definition metrics_is_success :: "tx_metrics \<Rightarrow> bool" where
  "metrics_is_success m = outcome_is_success (tm_outcome m)"

definition metrics_is_rate_limited :: "tx_metrics \<Rightarrow> bool" where
  "metrics_is_rate_limited m = outcome_is_rate_limited (tm_outcome m)"

definition mark_failed :: "tx_metrics \<Rightarrow> string \<Rightarrow> tx_metrics" where
  "mark_failed m error = m\<lparr> tm_outcome := outcome_failed error \<rparr>"

definition map_error :: "(string \<Rightarrow> string) \<Rightarrow> tx_metrics \<Rightarrow> tx_metrics" where
  "map_error rewrite m =
     (case tm_outcome m of
        TxSucceeded \<Rightarrow> m
      | TxFailed f \<Rightarrow> m\<lparr> tm_outcome := TxFailed (f\<lparr> tf_reason := rewrite (tf_reason f) \<rparr>) \<rparr>)"

subsection \<open>The report\<close>

datatype compute_unit_summary = Include | Omit

record report_input =
  ri_num_txs :: u64
  ri_num_keys :: u64
  ri_total_submitted :: u64
  ri_test_duration_secs :: secs
  ri_compute_unit_summary :: compute_unit_summary

text \<open>
  The derived fields of a report; the identity of the run is copied into it unchanged and left
  out here.  Like the program's release build, the sum of \<open>u64\<close> values wraps.
\<close>

record load_test_report =
  lr_num_txs :: u64
  lr_num_keys :: u64
  lr_total_submitted :: u64
  lr_total_confirmed :: u64
  lr_total_failed :: u64
  lr_test_duration_secs :: secs
  lr_tps_submitted :: rat
  lr_tps_confirmed :: rat
  lr_landing_rate :: rat
  lr_latency_ms :: "rat option \<times> u64 option \<times> u64 option"
  lr_compute_units :: "rat option \<times> u64 option \<times> u64 option"
  lr_transactions :: "tx_metrics list"

definition u64_rat :: "u64 \<Rightarrow> rat" where
  "u64_rat n = of_nat (unat n)"

definition summarize :: "u64 list \<Rightarrow> rat option \<times> u64 option \<times> u64 option" where
  "summarize values =
     (case values of
        [] \<Rightarrow> (None, None, None)
      | v # vs \<Rightarrow>
          (Some (u64_rat (sum_list values) / of_nat (length values)),
           Some (fold min vs v), Some (fold max vs v)))"

definition ratio :: "rat \<Rightarrow> rat \<Rightarrow> rat" where
  "ratio a b = (if b > 0 then a / b else 0)"

definition from_transactions :: "report_input \<Rightarrow> tx_metrics list \<Rightarrow> load_test_report" where
  "from_transactions input transactions =
     (let total_confirmed = of_nat (length (filter metrics_is_success transactions)) in
      \<lparr> lr_num_txs = ri_num_txs input,
        lr_num_keys = ri_num_keys input,
        lr_total_submitted = ri_total_submitted input,
        lr_total_confirmed = total_confirmed,
        lr_total_failed = of_nat (length (filter (\<lambda>m. \<not> metrics_is_success m) transactions)),
        lr_test_duration_secs = ri_test_duration_secs input,
        lr_tps_submitted = ratio (u64_rat (ri_total_submitted input)) (ri_test_duration_secs input),
        lr_tps_confirmed = ratio (u64_rat total_confirmed) (ri_test_duration_secs input),
        lr_landing_rate = ratio (u64_rat total_confirmed) (u64_rat (ri_total_submitted input)),
        lr_latency_ms = summarize (List.map_filter tm_latency_ms transactions),
        lr_compute_units =
          (case ri_compute_unit_summary input of
             Include \<Rightarrow> summarize (List.map_filter tm_compute_units transactions)
           | Omit \<Rightarrow> (None, None, None)),
        lr_transactions = transactions \<rparr>)"

subsection \<open>Retry of rate-limited submissions\<close>

definition MAX_RATE_LIMIT_RETRIES :: nat where "MAX_RATE_LIMIT_RETRIES = 5"

text \<open>The clock of the run is the list of sleeps, in seconds.\<close>

fun rate_limited_from :: "nat \<Rightarrow> nat \<Rightarrow> (nat \<Rightarrow> tx_metrics) \<Rightarrow> nat list \<Rightarrow> tx_metrics \<times> nat list" where
  "rate_limited_from left attempt submit slept =
     (let result = submit attempt in
      case left of
        0 \<Rightarrow> (result, slept)
      | Suc n \<Rightarrow>
          if metrics_is_success result \<or> \<not> metrics_is_rate_limited result then (result, slept)
          else rate_limited_from n (attempt + 1) submit (slept @ [push_bit attempt 4]))"

definition rate_limited :: "(nat \<Rightarrow> tx_metrics) \<Rightarrow> tx_metrics \<times> nat list" where
  "rate_limited submit = rate_limited_from MAX_RATE_LIMIT_RETRIES 0 submit []"

subsection \<open>What a report says\<close>

lemma unat_sum_list:
  "sum_list (map unat xs) < 2 ^ 64 \<Longrightarrow> unat (sum_list xs) = sum_list (map unat xs)" for xs :: "u64 list"
  by (induction xs) (simp_all add: unat_word_ariths)

lemma u64_rat_mono: "(u64_rat a \<le> u64_rat b) = (a \<le> b)"
  unfolding u64_rat_def of_nat_le_iff word_le_nat_alt ..

lemma sum_list_bounds:
  fixes xs :: "nat list"
  assumes "\<forall>x \<in> set xs. lo \<le> x \<and> x \<le> hi"
  shows "length xs * lo \<le> sum_list xs" "sum_list xs \<le> length xs * hi"
  using assms by (induction xs) auto

lemma summarize_bounds:
  assumes "sum_list (map unat values) < 2 ^ 64" and "values \<noteq> []"
  shows "\<exists>avg lo hi. summarize values = (Some avg, Some lo, Some hi) \<and>
    u64_rat lo \<le> avg \<and> avg \<le> u64_rat hi \<and> lo \<in> set values \<and> hi \<in> set values \<and>
    (\<forall>v \<in> set values. lo \<le> v \<and> v \<le> hi)"
proof -
  obtain v vs where vs: "values = v # vs" using assms(2) by (cases "values") auto
  define lo hi where "lo = fold min vs v" and "hi = fold max vs v"
  have eqs: "lo = Min (set values)" "hi = Max (set values)"
    unfolding lo_def hi_def vs Min.set_eq_fold Max.set_eq_fold by simp_all
  have within: "\<forall>w \<in> set values. lo \<le> w \<and> w \<le> hi" unfolding eqs by (simp add: vs)
  have ends: "lo \<in> set values" "hi \<in> set values" unfolding eqs using Min_in Max_in vs by (metis List.finite_set list.discI set_empty2)+
  let ?n = "length values"
  have bounds: "?n * unat lo \<le> unat (sum_list values)" "unat (sum_list values) \<le> ?n * unat hi"
    using sum_list_bounds [of "map unat values" "unat lo" "unat hi"] within
    by (simp_all add: unat_sum_list [OF assms(1)] word_le_nat_alt)
  have pos: "0 < (of_nat ?n :: rat)" using vs by simp
  have "u64_rat lo * of_nat ?n \<le> u64_rat (sum_list values)" "u64_rat (sum_list values) \<le> u64_rat hi * of_nat ?n"
    using bounds unfolding u64_rat_def of_nat_mult [symmetric] of_nat_le_iff by (simp_all add: mult.commute)
  then have "u64_rat lo \<le> u64_rat (sum_list values) / of_nat ?n" "u64_rat (sum_list values) / of_nat ?n \<le> u64_rat hi"
    using pos by (simp_all add: pos_le_divide_eq pos_divide_le_eq)
  moreover have "summarize values = (Some (u64_rat (sum_list values) / of_nat ?n), Some lo, Some hi)"
    by (simp add: summarize_def vs lo_def hi_def)
  ultimately show ?thesis using within ends by blast
qed

lemma confirmed_and_failed:
  assumes "length ms < 2 ^ 64"
  shows "unat (of_nat (length (filter metrics_is_success ms)) :: u64) +
    unat (of_nat (length (filter (\<lambda>m. \<not> metrics_is_success m) ms)) :: u64) = length ms"
proof -
  have "length (filter metrics_is_success ms) \<le> length ms" "length (filter (\<lambda>m. \<not> metrics_is_success m) ms) \<le> length ms"
    by simp_all
  then have "length (filter metrics_is_success ms) < 2 ^ 64" "length (filter (\<lambda>m. \<not> metrics_is_success m) ms) < 2 ^ 64"
    using assms by linarith+
  then have "unat (of_nat (length (filter metrics_is_success ms)) :: u64) = length (filter metrics_is_success ms)"
    "unat (of_nat (length (filter (\<lambda>m. \<not> metrics_is_success m) ms)) :: u64) = length (filter (\<lambda>m. \<not> metrics_is_success m) ms)"
    by (simp_all add: unat_of_nat)
  then show ?thesis by (simp add: sum_length_filter_compl)
qed


definition sample_metrics :: "tx_metrics list" where
  "sample_metrics =
     [(metrics_succeeded ''a'' 0)\<lparr> tm_latency_ms := Some 40 \<rparr>, metrics_failed ''b'' 0 ''HTTP 429'',
      (metrics_succeeded ''c'' 0)\<lparr> tm_latency_ms := Some 20 \<rparr>]"

definition sample_input :: report_input where
  "sample_input = \<lparr> ri_num_txs = 3, ri_num_keys = 3, ri_total_submitted = 3,
     ri_test_duration_secs = 2, ri_compute_unit_summary = Omit \<rparr>"


lemma rate_limited_success: "metrics_is_success m \<Longrightarrow> \<not> metrics_is_rate_limited m"
  by (simp add: metrics_is_success_def metrics_is_rate_limited_def outcome_is_success_def outcome_is_rate_limited_def)

declare rate_limited_from.simps [simp del]

lemma rate_limited_from_runs:
  "\<exists>n. n \<le> left \<and>
     rate_limited_from left attempt submit slept =
       (submit (attempt + n), slept @ map (\<lambda>k. 4 * 2 ^ k) [attempt..<attempt + n]) \<and>
     (\<forall>k. attempt \<le> k \<and> k < attempt + n \<longrightarrow> metrics_is_rate_limited (submit k)) \<and>
     (n < left \<longrightarrow> \<not> metrics_is_rate_limited (submit (attempt + n)))"
proof (induction left arbitrary: attempt slept)
  case 0
  have "rate_limited_from 0 attempt submit slept = (submit attempt, slept)"
    by (simp add: rate_limited_from.simps [of 0])
  then show ?case by (intro exI [of _ 0]) auto
next
  case (Suc left)
  show ?case
  proof (cases "metrics_is_rate_limited (submit attempt)")
    case False
    then have "rate_limited_from (Suc left) attempt submit slept = (submit attempt, slept)"
      by (simp add: rate_limited_from.simps [of "Suc left"])
    with False show ?thesis by (intro exI [of _ 0]) auto
  next
    case True
    obtain n where n: "n \<le> left"
        "rate_limited_from left (attempt + 1) submit (slept @ [push_bit attempt 4]) =
          (submit (attempt + 1 + n), (slept @ [push_bit attempt 4]) @ map (\<lambda>k. 4 * 2 ^ k) [attempt + 1..<attempt + 1 + n])"
        "\<forall>k. attempt + 1 \<le> k \<and> k < attempt + 1 + n \<longrightarrow> metrics_is_rate_limited (submit k)"
        "n < left \<longrightarrow> \<not> metrics_is_rate_limited (submit (attempt + 1 + n))"
      using Suc.IH [of "attempt + 1" "slept @ [push_bit attempt 4]"] by blast
    have "metrics_is_rate_limited (submit k)" if "attempt \<le> k \<and> k < attempt + Suc n" for k
      using that True n(3) by (cases "k = attempt") auto
    moreover have "[attempt..<attempt + Suc n] = attempt # [attempt + 1..<attempt + 1 + n]"
      by (simp add: upt_rec [of attempt])
    moreover have "rate_limited_from (Suc left) attempt submit slept =
        rate_limited_from left (attempt + 1) submit (slept @ [push_bit attempt 4])"
      using True rate_limited_success [of "submit attempt"]
      by (auto simp: rate_limited_from.simps [of "Suc left"] Let_def)
    ultimately show ?thesis
      using n(1,2,4) by (intro exI [of _ "Suc n"]) (simp add: push_bit_eq_mult)
  qed
qed

text \<open>
  C27: A rate-limited submission is retried at most five times, on the schedule of 4, 8, 16, 32
  and 64 seconds.  Every attempt but the last was answered with a rate limit, the result is that
  of the last attempt, and it is a rate-limit failure only when all five retries are used up.
\<close>

theorem rate_limited_schedule:
  "\<exists>n. n \<le> MAX_RATE_LIMIT_RETRIES \<and>
     rate_limited submit = (submit n, take n [4, 8, 16, 32, 64]) \<and>
     (\<forall>k < n. metrics_is_rate_limited (submit k)) \<and>
     (n < MAX_RATE_LIMIT_RETRIES \<longrightarrow> \<not> metrics_is_rate_limited (submit n))"
proof -
  obtain n where n: "n \<le> MAX_RATE_LIMIT_RETRIES"
      "rate_limited submit = (submit n, map (\<lambda>k. 4 * 2 ^ k) [0..<n])"
      "\<forall>k < n. metrics_is_rate_limited (submit k)"
      "n < MAX_RATE_LIMIT_RETRIES \<longrightarrow> \<not> metrics_is_rate_limited (submit n)"
    using rate_limited_from_runs [of MAX_RATE_LIMIT_RETRIES 0 submit "[]"] by (auto simp: rate_limited_def)
  have "map (\<lambda>k. 4 * 2 ^ k :: nat) [0..<n] = take n (map (\<lambda>k. 4 * 2 ^ k) [0..<5])"
    using n(1) by (simp add: take_map MAX_RATE_LIMIT_RETRIES_def)
  also have "map (\<lambda>k. 4 * 2 ^ k :: nat) [0..<5] = [4, 8, 16, 32, 64]" by (simp add: upt_rec)
  finally show ?thesis using n by auto
qed

definition sample_limited :: "nat \<Rightarrow> tx_metrics" where
  "sample_limited k = (if k < 2 then metrics_failed ''s'' 0 ''HTTP 429'' else metrics_succeeded ''s'' 0)"

theorem rate_limited_schedule_witness: "rate_limited sample_limited = (sample_limited 2, [4, 8])"
proof -
  obtain n where n: "n \<le> MAX_RATE_LIMIT_RETRIES" "rate_limited sample_limited = (sample_limited n, take n [4, 8, 16, 32, 64])"
      "\<forall>k < n. metrics_is_rate_limited (sample_limited k)"
      "n < MAX_RATE_LIMIT_RETRIES \<longrightarrow> \<not> metrics_is_rate_limited (sample_limited n)"
    using rate_limited_schedule by blast
  have limited: "metrics_is_rate_limited (sample_limited k) = (k < 2)" for k
    by (simp add: sample_limited_def metrics_is_rate_limited_def outcome_is_rate_limited_def metrics_failed_def
        metrics_succeeded_def from_outcome_def outcome_failed_def classified_def)
  have "\<not> n < 2" using n(4) by (auto simp: limited MAX_RATE_LIMIT_RETRIES_def)
  moreover have "\<not> 2 < n" using n(3) by (auto simp: limited)
  ultimately have "n = 2" by simp
  then show ?thesis using n(2) by simp
qed

end
