(* ===== verification/Load_Submission.thy ===== *)
theory Load_Submission
  imports Load_Metrics "HOL-Library.Multiset"
begin

text \<open>
  The submission drivers (\<open>load_test/scheduling/submitter.rs\<close>).  A burst run keeps a bounded set
  of tasks in flight and reacts to whichever finishes first, so it is a step relation: the
  order of completions, the metrics of a job and the answers of the shutdown flag are left
  open.  \<open>metric_of\<close> says which metrics a job can end with, \<open>stops\<close> which answers the shutdown
  flag can give, and \<open>breaks\<close> whether a task can fail to complete at all.
\<close>

record 'j burst =
  bu_filling :: bool
  bu_jobs :: "(nat \<times> 'j) list"
  bu_tasks :: "(nat \<times> 'j) list"
  bu_metrics :: "(nat \<times> tx_metrics) list"
  bu_submitted :: nat
  bu_join_error :: bool

definition burst_start :: "'j list \<Rightarrow> 'j burst" where
  "burst_start jobs =
     \<lparr> bu_filling = True, bu_jobs = enumerate 0 jobs, bu_tasks = [], bu_metrics = [],
       bu_submitted = 0, bu_join_error = False \<rparr>"

definition spawn_submission :: "'j burst \<Rightarrow> 'j burst" where
  "spawn_submission s =
     (case bu_jobs s of
        [] \<Rightarrow> s
      | job # rest \<Rightarrow>
          s\<lparr> bu_jobs := rest, bu_tasks := bu_tasks s @ [job], bu_submitted := bu_submitted s + 1 \<rparr>)"

text \<open>After a task is joined: one more job, unless a task broke or a shutdown was requested.\<close>

definition refill :: "bool \<Rightarrow> 'j burst \<Rightarrow> 'j burst" where
  "refill stop s = (if \<not> bu_join_error s \<and> \<not> stop then spawn_submission s else s)"

inductive burst_step ::
  "('j \<Rightarrow> tx_metrics set) \<Rightarrow> bool set \<Rightarrow> bool \<Rightarrow> nat \<Rightarrow> 'j burst \<Rightarrow> 'j burst \<Rightarrow> bool"
  for metric_of stops breaks max_concurrent where
  fill:
    "bu_filling s \<Longrightarrow> length (bu_tasks s) < max max_concurrent 1 \<Longrightarrow> False \<in> stops \<Longrightarrow> bu_jobs s \<noteq> [] \<Longrightarrow>
     burst_step metric_of stops breaks max_concurrent s (spawn_submission s)"
| filled:
    "bu_filling s \<Longrightarrow> \<not> length (bu_tasks s) < max max_concurrent 1 \<or> True \<in> stops \<or> bu_jobs s = [] \<Longrightarrow>
     burst_step metric_of stops breaks max_concurrent s (s\<lparr> bu_filling := False \<rparr>)"
| join_ok:
    "\<not> bu_filling s \<Longrightarrow> bu_tasks s = before @ (i, job) # after \<Longrightarrow> m \<in> metric_of job \<Longrightarrow> stop \<in> stops \<Longrightarrow>
     burst_step metric_of stops breaks max_concurrent s
       (refill stop (s\<lparr> bu_tasks := before @ after, bu_metrics := bu_metrics s @ [(i, m)] \<rparr>))"
| join_err:
    "\<not> bu_filling s \<Longrightarrow> bu_tasks s = before @ (i, job) # after \<Longrightarrow> breaks \<Longrightarrow>
     burst_step metric_of stops breaks max_concurrent s
       (s\<lparr> bu_tasks := before @ after, bu_join_error := True \<rparr>)"

inductive_cases burst_stepE: "burst_step metric_of stops breaks max_concurrent s s'"

definition burst_ended :: "'j burst \<Rightarrow> bool" where
  "burst_ended s = (\<not> bu_filling s \<and> bu_tasks s = [])"

record burst_result =
  br_metrics :: "tx_metrics list"
  br_total_submitted :: nat

definition burst_finish :: "'j burst \<Rightarrow> burst_result result" where
  "burst_finish s =
     (if bu_join_error s then Inl (Report ''send phase failed: task did not complete'')
      else Inr \<lparr> br_metrics = map snd (sort_key fst (bu_metrics s)), br_total_submitted = bu_submitted s \<rparr>)"

text \<open>
  Serial submission: \<open>requested k\<close> answers the shutdown flag before job \<open>k\<close>, \<open>paced k\<close> whether its
  pacing tick came before a shutdown.
\<close>

fun serial_from ::
  "('j \<Rightarrow> tx_metrics) \<Rightarrow> (nat \<Rightarrow> bool) \<Rightarrow> bool \<Rightarrow> (nat \<Rightarrow> bool) \<Rightarrow> nat \<Rightarrow> 'j list \<Rightarrow> tx_metrics list" where
  "serial_from submit requested pacing paced k [] = []"
| "serial_from submit requested pacing paced k (job # jobs) =
     (if requested k then []
      else if pacing \<and> \<not> paced k then []
      else submit job # serial_from submit requested pacing paced (k + 1) jobs)"

definition run_serial ::
  "('j \<Rightarrow> tx_metrics) \<Rightarrow> (nat \<Rightarrow> bool) \<Rightarrow> bool \<Rightarrow> (nat \<Rightarrow> bool) \<Rightarrow> 'j list \<Rightarrow> burst_result" where
  "run_serial submit requested pacing paced jobs =
     (let metrics = serial_from submit requested pacing paced 0 jobs in
      \<lparr> br_metrics = metrics, br_total_submitted = length metrics \<rparr>)"

text \<open>Joining the tasks of a sustained run, in the order they complete; an error aborts the rest.\<close>

definition collect_sustained_metrics :: "(string + tx_metrics) list \<Rightarrow> tx_metrics list result" where
  "collect_sustained_metrics joined =
     (if list_ex (\<lambda>j. \<not> is_ok j) joined then Inl (Report ''sustained send task failed'')
      else Inr (List.map_filter (\<lambda>j. case j of Inr m \<Rightarrow> Some m | Inl _ \<Rightarrow> None) joined))"

subsection \<open>Invariant of a burst\<close>

definition first_indices :: "nat \<Rightarrow> nat multiset" where
  "first_indices n = mset [0..<n]"

lemma first_indices_simps [simp]: "first_indices 0 = {#}" "first_indices (Suc n) = add_mset n (first_indices n)"
  unfolding first_indices_def by (simp_all add: upt_Suc_append del: mset_upt)

definition burst_inv :: "('j \<Rightarrow> tx_metrics set) \<Rightarrow> nat \<Rightarrow> 'j list \<Rightarrow> 'j burst \<Rightarrow> bool" where
  "burst_inv metric_of max_concurrent jobs s =
     (bu_submitted s \<le> length jobs \<and>
      bu_jobs s = drop (bu_submitted s) (enumerate 0 jobs) \<and>
      length (bu_tasks s) \<le> max max_concurrent 1 \<and>
      (\<forall>(i, job) \<in> set (bu_tasks s). job = jobs ! i) \<and>
      (\<not> bu_join_error s \<longrightarrow>
        mset (map fst (bu_tasks s)) + mset (map fst (bu_metrics s)) = first_indices (bu_submitted s)) \<and>
      (\<forall>(i, m) \<in> set (bu_metrics s). m \<in> metric_of (jobs ! i)))"

lemma burst_inv_start: "burst_inv metric_of c jobs (burst_start jobs)"
  by (simp add: burst_inv_def burst_start_def)

lemma enumerate_drop_Cons:
  assumes "drop n (enumerate 0 jobs) = job # rest"
  shows "n < length jobs" "job = (n, jobs ! n)" "rest = drop (Suc n) (enumerate 0 jobs)"
proof -
  show n: "n < length jobs"
    using assms by (metis drop_all length_enumerate list.distinct(1) not_le)
  then have "drop n (enumerate 0 jobs) = (n, jobs ! n) # drop (Suc n) (enumerate 0 jobs)"
    by (simp add: Cons_nth_drop_Suc [symmetric] nth_enumerate_eq)
  then show "job = (n, jobs ! n)" "rest = drop (Suc n) (enumerate 0 jobs)" using assms by simp_all
qed

lemma burst_inv_spawn:
  assumes "burst_inv metric_of c jobs s" and "length (bu_tasks s) < max c 1"
  shows "burst_inv metric_of c jobs (spawn_submission s)"
proof (cases "bu_jobs s")
  case (Cons job rest)
  then have "drop (bu_submitted s) (enumerate 0 jobs) = job # rest"
    using assms(1) by (simp add: burst_inv_def)
  note next_job = enumerate_drop_Cons [OF this]
  have spawn: "spawn_submission s = s\<lparr> bu_jobs := rest, bu_tasks := bu_tasks s @ [job], bu_submitted := Suc (bu_submitted s) \<rparr>"
    using Cons by (simp add: spawn_submission_def)
  show ?thesis
    unfolding spawn burst_inv_def using assms next_job(1)
    by (auto simp: burst_inv_def next_job(2,3))
qed (use assms in \<open>simp add: spawn_submission_def\<close>)

lemma burst_inv_refill:
  assumes "burst_inv metric_of c jobs s" and "length (bu_tasks s) < max c 1"
  shows "burst_inv metric_of c jobs (refill stop s)"
  unfolding refill_def by (rule if_split [THEN iffD2]) (simp only: assms burst_inv_spawn [OF assms] simp_thms)

lemma burst_inv_join:
  assumes "burst_inv metric_of c jobs s" and "bu_tasks s = before @ (i, job) # after" and "m \<in> metric_of job"
  shows "burst_inv metric_of c jobs (s\<lparr> bu_tasks := before @ after, bu_metrics := bu_metrics s @ [(i, m)] \<rparr>)"
  using assms by (auto simp: burst_inv_def)

lemma burst_inv_step:
  assumes "burst_step metric_of stops breaks c s s'" and "burst_inv metric_of c jobs s"
  shows "burst_inv metric_of c jobs s'"
  using assms(1)
proof cases
  case fill
  then show ?thesis using burst_inv_spawn [OF assms(2)] by simp
next
  case filled
  then show ?thesis using assms(2) by (simp add: burst_inv_def)
next
  case (join_ok before i job after m stop)
  let ?s = "s\<lparr> bu_tasks := before @ after, bu_metrics := bu_metrics s @ [(i, m)] \<rparr>"
  have "burst_inv metric_of c jobs ?s" using burst_inv_join [OF assms(2)] join_ok by simp
  moreover have "length (bu_tasks ?s) < max c 1"
    using assms(2) join_ok(3) by (simp add: burst_inv_def)
  ultimately have "burst_inv metric_of c jobs (refill stop ?s)" by (rule burst_inv_refill)
  then show ?thesis unfolding join_ok(1) .
next
  case (join_err before i job after)
  then show ?thesis using assms(2) by (auto simp: burst_inv_def)
qed

lemma burst_reachable:
  assumes "(burst_step metric_of stops breaks c)\<^sup>*\<^sup>* (burst_start jobs) s"
  shows "burst_inv metric_of c jobs s"
  using assms by induction (auto intro: burst_inv_start burst_inv_step)

text \<open>Without a shutdown the task pool is only drained once no job is left.\<close>

definition burst_busy :: "'j burst \<Rightarrow> bool" where
  "burst_busy s = (bu_filling s \<or> bu_join_error s \<or> bu_jobs s = [] \<or> bu_tasks s \<noteq> [])"

lemma burst_busy_step:
  assumes "burst_step metric_of {False} breaks c s s'" and "burst_busy s"
  shows "burst_busy s'"
  using assms(1)
proof cases
  case filled
  then show ?thesis using assms(2) by (cases "bu_tasks s") (auto simp: burst_busy_def)
next
  case (join_ok before i job after m stop)
  then show ?thesis using assms(2)
    by (cases "bu_jobs s") (auto simp: burst_busy_def refill_def spawn_submission_def)
qed (use assms(2) in \<open>auto simp: burst_busy_def spawn_submission_def split: list.splits\<close>)

lemma burst_busy_reachable:
  assumes "(burst_step metric_of {False} breaks c)\<^sup>*\<^sup>* (burst_start jobs) s"
  shows "burst_busy s"
  using assms
proof induction
  case base
  then show ?case by (simp add: burst_busy_def burst_start_def)
qed (rule burst_busy_step)

lemma sort_key_first_indices:
  assumes "mset (map fst xs) = first_indices n"
  shows "map fst (sort_key fst xs) = [0..<n]"
proof -
  have "sorted (map fst (sort_key fst xs))" by simp
  moreover have "mset (map fst (sort_key fst xs)) = mset [0..<n]"
    using assms by (simp add: first_indices_def del: mset_upt)
  ultimately show ?thesis by (metis properties_for_sort sorted_sort_id sorted_upt)
qed

text \<open>
  C24: A burst reports every transaction it submitted, in job order.  However the tasks interleave
  and whenever a shutdown arrives, the pool never holds more than the allowed number of tasks;
  when the run ends without a broken task, the result holds one metric for each of the first
  \<open>total_submitted\<close> jobs, at the position of its job; and with no shutdown these are all jobs.
\<close>

theorem burst_collects_submissions:
  assumes "(burst_step metric_of stops breaks max_concurrent)\<^sup>*\<^sup>* (burst_start jobs) s"
  shows "length (bu_tasks s) \<le> max max_concurrent 1 \<and>
    (burst_ended s \<and> burst_finish s = Inr r \<longrightarrow>
      length (br_metrics r) = br_total_submitted r \<and> br_total_submitted r \<le> length jobs \<and>
      list_all2 (\<lambda>job m. m \<in> metric_of job) (take (br_total_submitted r) jobs) (br_metrics r) \<and>
      (stops = {False} \<longrightarrow> br_total_submitted r = length jobs))"
proof (intro conjI impI)
  note inv = burst_reachable [OF assms]
  show "length (bu_tasks s) \<le> max max_concurrent 1" using inv by (simp add: burst_inv_def)
  assume ended: "burst_ended s \<and> burst_finish s = Inr r"
  define n where "n = bu_submitted s"
  have r: "r = \<lparr> br_metrics = map snd (sort_key fst (bu_metrics s)), br_total_submitted = n \<rparr>" and ok: "\<not> bu_join_error s"
    using ended by (auto simp: burst_finish_def n_def split: if_splits)
  then have "map fst (sort_key fst (bu_metrics s)) = [0..<n]"
    using inv ended by (intro sort_key_first_indices) (simp add: burst_inv_def burst_ended_def n_def)
  then have len: "length (sort_key fst (bu_metrics s)) = n" and idx: "\<And>k. k < n \<Longrightarrow> fst (sort_key fst (bu_metrics s) ! k) = k"
    by (metis length_map length_upt minus_nat.diff_0, metis add.left_neutral length_map length_upt minus_nat.diff_0 nth_map nth_upt)
  have le: "n \<le> length jobs" using inv by (simp add: burst_inv_def n_def)
  show "length (br_metrics r) = br_total_submitted r" using len by (simp add: r)
  show "br_total_submitted r \<le> length jobs" using le by (simp add: r)
  show "list_all2 (\<lambda>job m. m \<in> metric_of job) (take (br_total_submitted r) jobs) (br_metrics r)"
  proof (rule list_all2_all_nthI)
    show "length (take (br_total_submitted r) jobs) = length (br_metrics r)" using len le by (simp add: r)
    fix k assume "k < length (take (br_total_submitted r) jobs)"
    then have k: "k < n" by (simp add: r)
    then have "sort_key fst (bu_metrics s) ! k \<in> set (bu_metrics s)"
      using len by (metis nth_mem set_sort)
    then show "br_metrics r ! k \<in> metric_of (take (br_total_submitted r) jobs ! k)"
      using inv idx [OF k] k len by (auto simp: burst_inv_def r)
  qed
  assume "stops = {False}"
  then have "burst_busy s" using burst_busy_reachable assms by blast
  then have "bu_jobs s = []" using ended ok by (simp add: burst_busy_def burst_ended_def)
  then show "br_total_submitted r = length jobs"
    using inv le by (simp add: burst_inv_def r n_def)
qed

theorem burst_collects_submissions_witness:
  "\<exists>s. (burst_step (\<lambda>job. {metrics_succeeded job 0}) {False} False 1)\<^sup>*\<^sup>* (burst_start [''a'', ''b'']) s \<and>
     burst_ended s \<and>
     burst_finish s = Inr \<lparr> br_metrics = [metrics_succeeded ''a'' 0, metrics_succeeded ''b'' 0], br_total_submitted = 2 \<rparr> \<and>
     br_total_submitted \<lparr> br_metrics = [metrics_succeeded ''a'' 0, metrics_succeeded ''b'' 0], br_total_submitted = 2 \<rparr> =
       length [''a'', ''b'']"
proof -
  let ?step = "burst_step (\<lambda>job. {metrics_succeeded job 0}) {False} False (1 :: nat)"
  let ?s0 = "burst_start [''a'', ''b'']"
  let ?s1 = "spawn_submission ?s0"
  let ?s2 = "?s1\<lparr> bu_filling := False \<rparr>"
  let ?s3 = "refill False (?s2\<lparr> bu_tasks := [] @ [], bu_metrics := bu_metrics ?s2 @ [(0, metrics_succeeded ''a'' 0)] \<rparr>)"
  let ?s4 = "refill False (?s3\<lparr> bu_tasks := [] @ [], bu_metrics := bu_metrics ?s3 @ [(1, metrics_succeeded ''b'' 0)] \<rparr>)"
  note eval = burst_start_def spawn_submission_def refill_def
  have "?step ?s0 ?s1" by (rule burst_step.fill) (simp_all add: eval)
  moreover have "?step ?s1 ?s2" by (rule burst_step.filled) (simp_all add: eval)
  moreover have "?step ?s2 ?s3" by (rule burst_step.join_ok [where job = "''a''"]) (simp_all add: eval)
  moreover have "?step ?s3 ?s4" by (rule burst_step.join_ok [where job = "''b''"]) (simp_all add: eval)
  ultimately have run: "?step\<^sup>*\<^sup>* ?s0 ?s4" by (meson converse_rtranclp_into_rtranclp rtranclp.rtrancl_refl)
  let ?r = "\<lparr> br_metrics = [metrics_succeeded ''a'' 0, metrics_succeeded ''b'' 0], br_total_submitted = 2 \<rparr>"
  have ended: "burst_ended ?s4 \<and> burst_finish ?s4 = Inr ?r"
    by (simp add: eval burst_ended_def burst_finish_def)
  then have "br_total_submitted ?r = length [''a'', ''b'']"
    using burst_collects_submissions [OF run, of ?r] by blast
  then show ?thesis using run ended by blast
qed

subsection \<open>A burst comes to an end\<close>

definition burst_size :: "'j burst \<Rightarrow> nat" where
  "burst_size s = 2 * length (bu_jobs s) + length (bu_tasks s) + (if bu_filling s then 1 else 0)"

lemma burst_size_spawn: "burst_size (spawn_submission s) \<le> burst_size s"
  "bu_jobs s \<noteq> [] \<Longrightarrow> burst_size (spawn_submission s) < burst_size s"
  by (auto simp: burst_size_def spawn_submission_def split: list.splits)

lemma burst_size_step: "burst_step metric_of stops breaks c s s' \<Longrightarrow> burst_size s' < burst_size s"
proof (induction rule: burst_step.induct)
  case (join_ok s before i job after m stop)
  let ?s = "s\<lparr> bu_tasks := before @ after, bu_metrics := bu_metrics s @ [(i, m)] \<rparr>"
  have "burst_size (refill stop ?s) \<le> burst_size ?s"
    by (simp add: refill_def burst_size_spawn(1))
  also have "\<dots> < burst_size s" using join_ok(2) by (simp add: burst_size_def)
  finally show ?case .
qed (auto simp: burst_size_spawn(2), auto simp: burst_size_def)

text \<open>
  C25: A burst always finishes.  No sequence of steps is longer than twice the number of jobs plus
  one, and as long as every job can produce a metric and the shutdown flag answers, a run that
  has not ended can take another step.
\<close>

theorem burst_finishes:
  assumes "(burst_step metric_of stops breaks max_concurrent ^^ n) (burst_start jobs) s"
    and "\<And>job. metric_of job \<noteq> {}" and "stops \<noteq> {}"
  shows "n \<le> 2 * length jobs + 1 \<and>
    (burst_ended s \<or> (\<exists>s'. burst_step metric_of stops breaks max_concurrent s s'))"
proof
  have "burst_size s + n \<le> burst_size (burst_start jobs)"
    using assms(1)
  proof (induction n arbitrary: s)
    case (Suc n)
    then obtain t where "(burst_step metric_of stops breaks max_concurrent ^^ n) (burst_start jobs) t"
      "burst_step metric_of stops breaks max_concurrent t s" by auto
    then show ?case using Suc.IH burst_size_step by fastforce
  qed simp
  then show "n \<le> 2 * length jobs + 1" by (simp add: burst_size_def burst_start_def)
  show "burst_ended s \<or> (\<exists>s'. burst_step metric_of stops breaks max_concurrent s s')"
  proof (cases "bu_filling s")
    case True
    then show ?thesis using assms(3) burst_step.fill burst_step.filled by (metis (full_types) ex_in_conv)
  next
    case False
    show ?thesis
    proof (cases "bu_tasks s")
      case (Cons task rest)
      obtain i job where "task = (i, job)" by force
      moreover obtain m stop where "m \<in> metric_of job" "stop \<in> stops" using assms(2,3) by blast
      ultimately show ?thesis using burst_step.join_ok [of s "[]" i job rest] False Cons by fastforce
    qed (use False in \<open>simp add: burst_ended_def\<close>)
  qed
qed

theorem burst_finishes_witness:
  "\<exists>s. (burst_step (\<lambda>job. {metrics_succeeded job 0}) {False} False 1 ^^ 1) (burst_start [''a'']) s \<and>
     (\<exists>s'. burst_step (\<lambda>job. {metrics_succeeded job 0}) {False} False 1 s s')"
proof -
  let ?step = "burst_step (\<lambda>job. {metrics_succeeded job 0}) {False} False (1 :: nat)"
  let ?s1 = "spawn_submission (burst_start [''a''])"
  have "?step (burst_start [''a'']) ?s1" by (rule burst_step.fill) (simp_all add: burst_start_def)
  then have one: "(?step ^^ 1) (burst_start [''a'']) ?s1" by (simp add: eq_OO)
  have "\<not> burst_ended ?s1" by (simp add: burst_ended_def burst_start_def spawn_submission_def)
  moreover have "burst_ended ?s1 \<or> (\<exists>s'. ?step ?s1 s')"
    using burst_finishes [OF one] by simp
  ultimately show ?thesis using one by blast
qed

end
