(* ===== verification/Lcd_Query.thy ===== *)
theory Lcd_Query
  imports Axe_Json Rpc_Retry
begin

text \<open>
  Contract queries through the Cosmos LCD with their public fallbacks (\<open>cosmos/rpc.rs\<close>) and the
  classification of their errors.  The HTTP client, the JSON codec and base64 are arguments.  An
  error keeps what the code inspects: the status and the shortened body; the label of the
  endpoint's role is left out.
\<close>

datatype cosmwasm_query_error =
    EncodeError
  | TransportError
  | BodyReadError
  | HttpError nat string
  | InvalidJson string
  | MissingData string
  | Exhausted

datatype cosmwasm_query_pending = OutgoingMessage | ExecutableMessage

definition contract_error_body :: "cosmwasm_query_error \<Rightarrow> string option" where
  "contract_error_body e = (case e of HttpError _ body \<Rightarrow> Some body | _ \<Rightarrow> None)"

fun is_transient :: "cosmwasm_query_error \<Rightarrow> bool" where
  "is_transient TransportError = True"
| "is_transient BodyReadError = True"
| "is_transient (InvalidJson _) = True"
| "is_transient Exhausted = True"
| "is_transient (HttpError status _) = (status \<in> {429, 502, 503, 504})"
| "is_transient EncodeError = False"
| "is_transient (MissingData _) = False"

definition is_pending :: "cosmwasm_query_error \<Rightarrow> cosmwasm_query_pending \<Rightarrow> bool" where
  "is_pending e query =
     (case contract_error_body e of
        None \<Rightarrow> False
      | Some text \<Rightarrow>
          (let body = map to_lower text in
           case query of
             OutgoingMessage \<Rightarrow>
               contains ''failed to query outgoing messages'' body \<or>
               contains ''message with id'' body \<and> contains ''not found'' body
           | ExecutableMessage \<Rightarrow>
               contains ''not approved'' body \<or> contains ''failed to query executable messages'' body))"

subsection \<open>Endpoints\<close>

definition LCD_FALLBACKS_MAINNET :: "string list" where
  "LCD_FALLBACKS_MAINNET = [''https://rest.lavenderfive.com/axelar'', ''https://axelar-rest.publicnode.com'']"

definition LCD_FALLBACKS_TESTNET :: "string list" where
  "LCD_FALLBACKS_TESTNET = [''https://axelar-testnet-api.polkachu.com'']"

definition lcd_fallbacks_for :: "string \<Rightarrow> string list" where
  "lcd_fallbacks_for primary =
     (if contains ''testnet'' primary then LCD_FALLBACKS_TESTNET
      else if contains ''stagenet'' primary \<or> contains ''devnet'' primary then []
      else LCD_FALLBACKS_MAINNET)"

text \<open>What an HTTP request gives: no response, or a status with a body that may not be readable.\<close>

datatype http_answer = SendFailed | Answered nat "string option"

text \<open>
  \<open>le_override\<close> is \<open>AXELAR_LCD_URL\<close>; \<open>le_hardened\<close> holds while a deployment requires or runs a
  hardened session.
\<close>

record 'w lcd_env =
  le_override :: "string option"
  le_hardened :: bool
  le_encode :: "json \<Rightarrow> string option"
  le_base64 :: "string \<Rightarrow> string"
  le_parse :: "string \<Rightarrow> json option"
  le_get :: "string \<Rightarrow> 'w \<Rightarrow> http_answer \<times> 'w"

definition lcd_primary :: "'w lcd_env \<Rightarrow> string \<Rightarrow> string" where
  "lcd_primary L lcd = trim_slashes (case le_override L of Some url \<Rightarrow> url | None \<Rightarrow> lcd)"

definition lcd_candidates :: "'w lcd_env \<Rightarrow> string \<Rightarrow> string list" where
  "lcd_candidates L lcd =
     (let primary = lcd_primary L lcd in
      primary #
      (if le_override L = None \<and> \<not> le_hardened L
       then filter (\<lambda>fb. fb \<noteq> primary) (lcd_fallbacks_for primary) else []))"

definition read_answer :: "'w lcd_env \<Rightarrow> http_answer \<Rightarrow> cosmwasm_query_error + json" where
  "read_answer L answer =
     (case answer of
        SendFailed \<Rightarrow> Inl TransportError
      | Answered status None \<Rightarrow> Inl BodyReadError
      | Answered status (Some body) \<Rightarrow>
          if \<not> (200 \<le> status \<and> status < 300) then Inl (HttpError status (take 200 body))
          else
            (case le_parse L body of
               None \<Rightarrow> Inl (InvalidJson (take 200 body))
             | Some resp \<Rightarrow>
                 (case json_get ''data'' resp of
                    None \<Rightarrow> Inl (MissingData (take 200 body))
                  | Some data \<Rightarrow> Inr data)))"

definition smart_query_url :: "string \<Rightarrow> string \<Rightarrow> string \<Rightarrow> string" where
  "smart_query_url endpoint contract query_b64 =
     endpoint @ ''/cosmwasm/wasm/v1/contract/'' @ contract @ ''/smart/'' @ query_b64"

fun query_endpoints ::
  "'w lcd_env \<Rightarrow> string \<Rightarrow> string \<Rightarrow> string list \<Rightarrow> cosmwasm_query_error option \<Rightarrow> 'w
   \<Rightarrow> (cosmwasm_query_error + json) \<times> 'w" where
  "query_endpoints L contract query_b64 [] last_err w =
     (Inl (case last_err of Some e \<Rightarrow> e | None \<Rightarrow> Exhausted), w)"
| "query_endpoints L contract query_b64 (endpoint # rest) last_err w =
     (case le_get L (smart_query_url endpoint contract query_b64) w of
        (answer, w') \<Rightarrow>
          (case read_answer L answer of
             Inr data \<Rightarrow> (Inr data, w')
           | Inl e \<Rightarrow> query_endpoints L contract query_b64 rest (Some e) w'))"

definition lcd_cosmwasm_smart_query_typed ::
  "'w lcd_env \<Rightarrow> string \<Rightarrow> string \<Rightarrow> json \<Rightarrow> 'w \<Rightarrow> (cosmwasm_query_error + json) \<times> 'w" where
  "lcd_cosmwasm_smart_query_typed L lcd contract query_msg w =
     (case le_encode L query_msg of
        None \<Rightarrow> (Inl EncodeError, w)
      | Some query_json \<Rightarrow>
          query_endpoints L contract (le_base64 L query_json) (lcd_candidates L lcd) None w)"

definition lcd_cosmwasm_smart_query ::
  "'w lcd_env \<Rightarrow> string \<Rightarrow> string \<Rightarrow> json \<Rightarrow> ('w, json) io" where
  "lcd_cosmwasm_smart_query L lcd contract query_msg w =
     (case lcd_cosmwasm_smart_query_typed L lcd contract query_msg w of
        (Inr data, w') \<Rightarrow> (Inr data, w')
      | (Inl _, w') \<Rightarrow>
          (Inl (Report (if le_hardened L then ''Deployment contract query failed.''
             else ''Tip: set AXELAR_LCD_URL to a working endpoint'')), w'))"

subsection \<open>Which answer a query returns\<close>

text \<open>The endpoints asked one after the other, each with a fresh world and its own error.\<close>

inductive refused ::
  "'w lcd_env \<Rightarrow> string \<Rightarrow> string \<Rightarrow> string list \<Rightarrow> 'w \<Rightarrow> cosmwasm_query_error list \<Rightarrow> 'w \<Rightarrow> bool"
  for L contract query_b64 where
  refused_none: "refused L contract query_b64 [] w [] w"
| refused_more:
    "le_get L (smart_query_url endpoint contract query_b64) w = (answer, w1) \<Longrightarrow>
     read_answer L answer = Inl e \<Longrightarrow> refused L contract query_b64 rest w1 es w' \<Longrightarrow>
     refused L contract query_b64 (endpoint # rest) w (e # es) w'"

lemma query_endpoints_runs:
  "query_endpoints L contract b64 endpoints last_err w = (r, w') \<Longrightarrow>
   (case r of
      Inr data \<Rightarrow> \<exists>before endpoint after es w1 answer.
        endpoints = before @ endpoint # after \<and> refused L contract b64 before w es w1 \<and>
        le_get L (smart_query_url endpoint contract b64) w1 = (answer, w') \<and> read_answer L answer = Inr data
    | Inl e \<Rightarrow> \<exists>es. refused L contract b64 endpoints w es w' \<and>
        e = (if es = [] then (case last_err of Some e \<Rightarrow> e | None \<Rightarrow> Exhausted) else last es))"
proof (induction endpoints arbitrary: last_err w)
  case Nil
  then have "r = Inl (case last_err of Some e \<Rightarrow> e | None \<Rightarrow> Exhausted)" and "w' = w" by simp_all
  then show ?case using refused_none [of L contract b64 w] by (simp del: option.case_cong) (metis)
next
  case (Cons endpoint rest)
  obtain answer w1 where get: "le_get L (smart_query_url endpoint contract b64) w = (answer, w1)" by force
  show ?case
  proof (cases "read_answer L answer")
    case (Inr data)
    then have "r = Inr data" "w' = w1" using Cons.prems get by simp_all
    then show ?thesis using get Inr refused_none by fastforce
  next
    case (Inl e0)
    then have run: "query_endpoints L contract b64 rest (Some e0) w1 = (r, w')" using Cons.prems get by simp
    note more = refused_more [of L _ contract b64, OF get Inl]
    show ?thesis
    proof (cases r)
      case (Inr data)
      then obtain before endpoint' after es w2 answer' where
        ih: "rest = before @ endpoint' # after" "refused L contract b64 before w1 es w2"
          "le_get L (smart_query_url endpoint' contract b64) w2 = (answer', w')" "read_answer L answer' = Inr data"
        using Cons.IH [OF run] by auto
      have "endpoint # rest = (endpoint # before) @ endpoint' # after" using ih(1) by simp
      then show ?thesis unfolding Inr sum.case using more [OF ih(2)] ih(3,4) by blast
    next
      case (Inl e)
      then obtain es where "refused L contract b64 rest w1 es w'" "e = (if es = [] then e0 else last es)"
        using Cons.IH [OF run] by auto
      then show ?thesis unfolding Inl sum.case using more by (intro exI [of _ "e0 # es"]) auto
    qed
  qed
qed

lemma refused_length: "refused L contract b64 endpoints w es w' \<Longrightarrow> length es = length endpoints"
  by (induction rule: refused.induct) simp_all

text \<open>
  C28: A contract query returns the data of the first endpoint that serves it.  Endpoints are asked
  in order, the configured one first; every endpoint before the one that answered was asked once
  and refused, and when all refuse, the error is that of the last one.  Under an explicit LCD
  override or in a hardened deployment only the primary endpoint is ever asked.
\<close>

theorem smart_query_first_healthy:
  assumes "lcd_cosmwasm_smart_query_typed L lcd contract query w = (r, w')"
    and "le_encode L query = Some text" and "b64 = le_base64 L text"
  shows "(le_hardened L \<or> le_override L \<noteq> None \<longrightarrow> lcd_candidates L lcd = [lcd_primary L lcd]) \<and>
    hd (lcd_candidates L lcd) = lcd_primary L lcd \<and>
    (case r of
       Inr data \<Rightarrow> \<exists>before endpoint after es w1 answer.
         lcd_candidates L lcd = before @ endpoint # after \<and> refused L contract b64 before w es w1 \<and>
         le_get L (smart_query_url endpoint contract b64) w1 = (answer, w') \<and> read_answer L answer = Inr data
     | Inl e \<Rightarrow> \<exists>es. refused L contract b64 (lcd_candidates L lcd) w es w' \<and> es \<noteq> [] \<and> e = last es)"
proof (intro conjI)
  have run: "query_endpoints L contract b64 (lcd_candidates L lcd) None w = (r, w')"
    using assms by (simp add: lcd_cosmwasm_smart_query_typed_def)
  have nonempty: "lcd_candidates L lcd \<noteq> []" by (simp add: lcd_candidates_def Let_def)
  show "le_hardened L \<or> le_override L \<noteq> None \<longrightarrow> lcd_candidates L lcd = [lcd_primary L lcd]"
    "hd (lcd_candidates L lcd) = lcd_primary L lcd"
    by (auto simp: lcd_candidates_def Let_def)
  show "case r of
       Inr data \<Rightarrow> \<exists>before endpoint after es w1 answer.
         lcd_candidates L lcd = before @ endpoint # after \<and> refused L contract b64 before w es w1 \<and>
         le_get L (smart_query_url endpoint contract b64) w1 = (answer, w') \<and> read_answer L answer = Inr data
     | Inl e \<Rightarrow> \<exists>es. refused L contract b64 (lcd_candidates L lcd) w es w' \<and> es \<noteq> [] \<and> e = last es"
  proof (cases r)
    case (Inl e)
    then obtain es where es: "refused L contract b64 (lcd_candidates L lcd) w es w'"
        "e = (if es = [] then Exhausted else last es)"
      using query_endpoints_runs [OF run] by auto
    then have "es \<noteq> []" using nonempty refused_length by fastforce
    then show ?thesis unfolding Inl sum.case using es by auto
  next
    case (Inr data)
    then show ?thesis using query_endpoints_runs [OF run] by simp
  qed
qed

text \<open>A primary that is down for one call and a fallback that serves a null.\<close>

definition sample_lcd :: "nat lcd_env" where
  "sample_lcd =
     \<lparr> le_override = None, le_hardened = False, le_encode = (\<lambda>_. Some ''{}''), le_base64 = (\<lambda>s. s),
       le_parse = (\<lambda>_. Some (JObject [(''data'', JNull)])),
       le_get = (\<lambda>url n. (if n = 0 then Answered 502 (Some ''bad gateway'') else Answered 200 (Some ''ok''), Suc n)) \<rparr>"

lemma sample_lcd_run:
  "lcd_cosmwasm_smart_query_typed sample_lcd ''https://lcd-axelar/'' ''c'' JNull 0 = (Inr JNull, 2)"
  by (simp add: lcd_cosmwasm_smart_query_typed_def lcd_candidates_def lcd_primary_def lcd_fallbacks_for_def
      LCD_FALLBACKS_MAINNET_def trim_slashes_def sample_lcd_def read_answer_def Let_def)

theorem smart_query_first_healthy_witness:
  "lcd_cosmwasm_smart_query_typed sample_lcd ''https://lcd-axelar/'' ''c'' JNull 0 = (Inr JNull, 2) \<and>
   hd (lcd_candidates sample_lcd ''https://lcd-axelar/'') = ''https://lcd-axelar'' \<and>
   (\<exists>before endpoint after es w1 answer.
      lcd_candidates sample_lcd ''https://lcd-axelar/'' = before @ endpoint # after \<and>
      refused sample_lcd ''c'' ''{}'' before 0 es w1 \<and>
      le_get sample_lcd (smart_query_url endpoint ''c'' ''{}'') w1 = (answer, 2) \<and>
      read_answer sample_lcd answer = Inr JNull)"
proof -
  have "le_encode sample_lcd JNull = Some ''{}''" "''{}'' = le_base64 sample_lcd ''{}''"
    by (simp_all add: sample_lcd_def)
  note ok = smart_query_first_healthy [OF sample_lcd_run this]
  have "lcd_primary sample_lcd ''https://lcd-axelar/'' = ''https://lcd-axelar''"
    by (simp add: lcd_primary_def sample_lcd_def trim_slashes_def)
  then show ?thesis using ok sample_lcd_run by simp
qed

end
