(* ===== verification/Verify_State.thy ===== *)
theory Verify_State
  imports Load_Metrics Axe_Network
begin

text \<open>
  The state of a transaction under verification (\<open>verification/engine/state.rs\<close>) and its
  construction from metrics (\<open>engine/pending.rs\<close>).  Every operation returns whether it was applied
  together with the new state, as the methods do.  Hex decoding and Keccak come from libraries
  and are arguments.
\<close>

datatype phase = Voted | Routed | HubApproved | DiscoverSecondLeg | Approved | Executed

fun can_transition_to :: "phase \<Rightarrow> phase \<Rightarrow> bool" where
  "can_transition_to Voted to = (to \<in> {Routed, HubApproved, Approved})"
| "can_transition_to Routed to = (to \<in> {HubApproved, Approved})"
| "can_transition_to HubApproved to = (to \<in> {DiscoverSecondLeg, Approved})"
| "can_transition_to DiscoverSecondLeg to = (to \<in> {Routed, Approved})"
| "can_transition_to Approved to = (to = Executed)"
| "can_transition_to Executed to = False"

datatype verification_failure = ErrorFailure string | TimedOut string

fun failure_text :: "verification_failure \<Rightarrow> string" where
  "failure_text (ErrorFailure reason) = reason"
| "failure_text (TimedOut reason) = reason"

datatype verification_state =
    Active phase
  | Succeeded bool
  | Failed phase verification_failure

record second_leg =
  sl_message_id :: string
  sl_payload_hash :: b256
  sl_source_address :: string
  sl_destination_address :: string

record pending_tx_input =
  pi_idx :: nat
  pi_message_id :: string
  pi_send_instant :: nat
  pi_source_address :: string
  pi_contract_addr :: address
  pi_payload_hash :: "b256 option"
  pi_payload_hash_hex :: string
  pi_command_id :: "b256 option"
  pi_gmp_destination_chain :: string
  pi_gmp_destination_address :: string
  pi_initial_phase :: phase

record pending_tx =
  pt_idx :: nat
  pt_message_id :: string
  pt_send_instant :: nat
  pt_source_address :: string
  pt_contract_addr :: address
  pt_payload_hash :: "b256 option"
  pt_payload_hash_hex :: string
  pt_command_id :: "b256 option"
  pt_gmp_destination_chain :: string
  pt_gmp_destination_address :: string
  pt_timing :: amplifier_timing
  pt_state :: verification_state
  pt_second_leg :: "second_leg option"

definition new_pending :: "pending_tx_input \<Rightarrow> pending_tx" where
  "new_pending input =
     \<lparr> pt_idx = pi_idx input, pt_message_id = pi_message_id input, pt_send_instant = pi_send_instant input,
       pt_source_address = pi_source_address input, pt_contract_addr = pi_contract_addr input,
       pt_payload_hash = pi_payload_hash input, pt_payload_hash_hex = pi_payload_hash_hex input,
       pt_command_id = pi_command_id input, pt_gmp_destination_chain = pi_gmp_destination_chain input,
       pt_gmp_destination_address = pi_gmp_destination_address input, pt_timing = no_timing,
       pt_state = Active (pi_initial_phase input), pt_second_leg = None \<rparr>"

definition phase_of :: "pending_tx \<Rightarrow> phase option" where
  "phase_of tx = (case pt_state tx of Active p \<Rightarrow> Some p | Failed p _ \<Rightarrow> Some p | Succeeded _ \<Rightarrow> None)"

definition is_phase :: "pending_tx \<Rightarrow> phase \<Rightarrow> bool" where
  "is_phase tx p = (pt_state tx = Active p)"

definition is_active :: "pending_tx \<Rightarrow> bool" where
  "is_active tx = (case pt_state tx of Active _ \<Rightarrow> True | _ \<Rightarrow> False)"

definition transition_to :: "phase \<Rightarrow> pending_tx \<Rightarrow> bool \<times> pending_tx" where
  "transition_to p tx =
     (case pt_state tx of
        Active current \<Rightarrow>
          if can_transition_to current p then (True, tx\<lparr> pt_state := Active p \<rparr>) else (False, tx)
      | _ \<Rightarrow> (False, tx))"

definition discover_second_leg :: "second_leg \<Rightarrow> phase \<Rightarrow> pending_tx \<Rightarrow> bool \<times> pending_tx" where
  "discover_second_leg leg p tx =
     (case pt_state tx of
        Active current \<Rightarrow>
          if current \<noteq> DiscoverSecondLeg \<or> \<not> can_transition_to current p then (False, tx)
          else (True, tx\<lparr> pt_second_leg := Some leg, pt_state := Active p \<rparr>)
      | _ \<Rightarrow> (False, tx))"

definition option_or :: "'a option \<Rightarrow> 'a option \<Rightarrow> 'a option" where
  "option_or a b = (case a of Some x \<Rightarrow> Some x | None \<Rightarrow> b)"

definition approve_destination :: "b256 option \<Rightarrow> pending_tx \<Rightarrow> bool \<times> pending_tx" where
  "approve_destination command_id tx =
     (if \<not> is_phase tx Approved then (False, tx)
      else (True, tx\<lparr> pt_command_id := option_or command_id (pt_command_id tx), pt_state := Active Executed \<rparr>))"

definition execute_destination :: "b256 option \<Rightarrow> pending_tx \<Rightarrow> bool \<times> pending_tx" where
  "execute_destination command_id tx =
     (if pt_state tx \<in> {Active Approved, Active Executed}
      then (True, tx\<lparr> pt_command_id := option_or command_id (pt_command_id tx), pt_state := Succeeded False \<rparr>)
      else (False, tx))"

definition succeed :: "bool \<Rightarrow> pending_tx \<Rightarrow> bool \<times> pending_tx" where
  "succeed recovered_via_api tx =
     (if is_active tx then (True, tx\<lparr> pt_state := Succeeded recovered_via_api \<rparr>) else (False, tx))"

definition fail_with :: "verification_failure \<Rightarrow> pending_tx \<Rightarrow> bool \<times> pending_tx" where
  "fail_with failure tx =
     (case pt_state tx of
        Active p \<Rightarrow> (True, tx\<lparr> pt_state := Failed p failure \<rparr>)
      | _ \<Rightarrow> (False, tx))"

definition fail_tx :: "string \<Rightarrow> pending_tx \<Rightarrow> bool \<times> pending_tx" where
  "fail_tx reason = fail_with (ErrorFailure reason)"

definition time_out :: "string \<Rightarrow> pending_tx \<Rightarrow> bool \<times> pending_tx" where
  "time_out label = fail_with (TimedOut (label @ '': timed out''))"

definition is_failed :: "pending_tx \<Rightarrow> bool" where
  "is_failed tx = (case pt_state tx of Failed _ _ \<Rightarrow> True | _ \<Rightarrow> False)"

definition failure_reason :: "pending_tx \<Rightarrow> string option" where
  "failure_reason tx = (case pt_state tx of Failed _ f \<Rightarrow> Some (failure_text f) | _ \<Rightarrow> None)"

definition is_timed_out :: "pending_tx \<Rightarrow> bool" where
  "is_timed_out tx = (case pt_state tx of Failed _ (TimedOut _) \<Rightarrow> True | _ \<Rightarrow> False)"

definition recovered_via_api :: "pending_tx \<Rightarrow> bool" where
  "recovered_via_api tx = (pt_state tx = Succeeded True)"

definition phase_counts :: "pending_tx list \<Rightarrow> nat \<times> nat \<times> nat \<times> nat \<times> nat" where
  "phase_counts txs =
     (let n = \<lambda>slot. length (filter (\<lambda>tx. slot (pt_timing tx) \<noteq> None) txs) in
      (n at_voted_secs, n at_routed_secs, n at_hub_approved_secs, n at_approved_secs, n at_executed_secs))"

subsection \<open>From metrics to pending transactions\<close>

text \<open>A 32-byte string as a word, most significant byte first.\<close>

definition b256_of_bytes :: "bytes \<Rightarrow> b256" where
  "b256_of_bytes bs = foldl (\<lambda>acc b. push_bit 8 acc + ucast b) 0 bs"

definition parse_payload_hash :: "(string \<Rightarrow> bytes option) \<Rightarrow> string \<Rightarrow> b256 result" where
  "parse_payload_hash hex_decode hex_str =
     and_then (ok_or (hex_decode (case strip_prefix ''0x'' hex_str of Some s \<Rightarrow> s | None \<Rightarrow> hex_str))
       ''invalid hex string'') (\<lambda>bs.
     if length bs \<noteq> 32 then Inl (Report ''payload_hash must be 32 bytes'')
     else Inr (b256_of_bytes bs))"

definition parse_first_leg_payload_hash ::
  "(string \<Rightarrow> bytes option) \<Rightarrow> tx_metrics \<Rightarrow> bool \<Rightarrow> b256 option result" where
  "parse_first_leg_payload_hash hex_decode tx required =
     (if tm_payload_hash tx = []
      then if required then Inl (Report ''missing payload_hash for confirmed tx'') else Inr None
      else
        (case parse_payload_hash hex_decode (tm_payload_hash tx) of
           Inl _ \<Rightarrow> Inl (Report ''invalid payload_hash for confirmed tx'')
         | Inr h \<Rightarrow> Inr (Some h)))"

datatype source_chain_type = Svm | EvmSource | StellarSource | SuiSource

definition solana_call_contract_index :: "network \<Rightarrow> nat" where
  "solana_call_contract_index n = (if n = DevnetAmplifier then 1 else 2)"

definition message_id_for_source :: "tx_metrics \<Rightarrow> source_chain_type \<Rightarrow> network \<Rightarrow> string" where
  "message_id_for_source tx source_type n =
     (case source_type of
        Svm \<Rightarrow>
          if CHR ''-'' \<in> set (tm_signature tx) then tm_signature tx
          else tm_signature tx @ ''-'' @ show_nat (solana_call_contract_index n) @ ''.1''
      | _ \<Rightarrow> tm_signature tx)"

text \<open>
  The pending entry of a confirmed transaction; \<open>now\<close> replaces a missing send time.  The batch
  and streaming constructors differ in the fields they fill from the route.
\<close>

definition pending_from ::
  "tx_metrics \<Rightarrow> nat \<Rightarrow> nat \<Rightarrow> string \<Rightarrow> address \<Rightarrow> b256 option \<Rightarrow> b256 option \<Rightarrow> string \<Rightarrow> string \<Rightarrow> phase
   \<Rightarrow> pending_tx" where
  "pending_from tx now idx message_id contract payload_hash command_id chain addr p =
     new_pending
       \<lparr> pi_idx = idx, pi_message_id = message_id,
         pi_send_instant = (case tm_send_instant tx of Some t \<Rightarrow> t | None \<Rightarrow> now),
         pi_source_address = tm_source_address tx, pi_contract_addr = contract,
         pi_payload_hash = payload_hash, pi_payload_hash_hex = tm_payload_hash tx,
         pi_command_id = command_id, pi_gmp_destination_chain = chain,
         pi_gmp_destination_address = addr, pi_initial_phase = p \<rparr>"

definition pending_tx_for_its_batch ::
  "(string \<Rightarrow> bytes option) \<Rightarrow> nat \<Rightarrow> tx_metrics \<Rightarrow> nat \<Rightarrow> phase \<Rightarrow> pending_tx result" where
  "pending_tx_for_its_batch hex_decode now tx idx p =
     and_then (parse_first_leg_payload_hash hex_decode tx (p = Voted)) (\<lambda>payload_hash.
     Inr (pending_from tx now idx (tm_signature tx) 0 payload_hash None
       (tm_gmp_destination_chain tx) (tm_gmp_destination_address tx) p))"

definition pending_tx_for_gmp_batch ::
  "(string \<Rightarrow> bytes option) \<Rightarrow> nat \<Rightarrow> tx_metrics \<Rightarrow> nat \<Rightarrow> string \<Rightarrow> address \<Rightarrow> b256 option \<Rightarrow> string \<Rightarrow> string
   \<Rightarrow> phase \<Rightarrow> pending_tx result" where
  "pending_tx_for_gmp_batch hex_decode now tx idx message_id contract command_id chain addr p =
     and_then (parse_first_leg_payload_hash hex_decode tx True) (\<lambda>payload_hash.
     Inr (pending_from tx now idx message_id contract payload_hash command_id chain addr p))"

definition tx_to_pending_solana ::
  "(string \<Rightarrow> bytes option) \<Rightarrow> (string \<Rightarrow> b256) \<Rightarrow> nat \<Rightarrow> tx_metrics \<Rightarrow> nat \<Rightarrow> string \<Rightarrow> bool
   \<Rightarrow> source_chain_type \<Rightarrow> network \<Rightarrow> bool \<Rightarrow> pending_tx result" where
  "tx_to_pending_solana hex_decode keccak now tx idx source_chain has_voting_verifier source_type n legacy_route =
     and_then (parse_first_leg_payload_hash hex_decode tx True) (\<lambda>payload_hash.
     let message_id = message_id_for_source tx source_type n in
     Inr (pending_from tx now idx message_id 0 payload_hash
       (Some (keccak (source_chain @ ''-'' @ message_id))) [] []
       (if has_voting_verifier then Voted else if legacy_route then Approved else Routed)))"

definition tx_to_pending_stellar ::
  "(string \<Rightarrow> bytes option) \<Rightarrow> nat \<Rightarrow> tx_metrics \<Rightarrow> bool \<Rightarrow> address \<Rightarrow> pending_tx result" where
  "tx_to_pending_stellar hex_decode now tx has_voting_verifier contract =
     and_then (parse_first_leg_payload_hash hex_decode tx True) (\<lambda>payload_hash.
     Inr (pending_from tx now 0 (tm_signature tx) contract payload_hash None [] []
       (if has_voting_verifier then Voted else Routed)))"

definition tx_to_pending_xrpl ::
  "(string \<Rightarrow> bytes option) \<Rightarrow> nat \<Rightarrow> tx_metrics \<Rightarrow> bool \<Rightarrow> pending_tx result" where
  "tx_to_pending_xrpl hex_decode now tx has_voting_verifier =
     and_then (parse_first_leg_payload_hash hex_decode tx has_voting_verifier) (\<lambda>payload_hash.
     Inr (pending_from tx now 0 (tm_signature tx) 0 payload_hash None
       (tm_gmp_destination_chain tx) (tm_gmp_destination_address tx)
       (if has_voting_verifier then Voted else HubApproved)))"

definition tx_to_pending_its ::
  "(string \<Rightarrow> bytes option) \<Rightarrow> nat \<Rightarrow> tx_metrics \<Rightarrow> bool \<Rightarrow> pending_tx result" where
  "tx_to_pending_its hex_decode now tx has_voting_verifier =
     and_then (parse_first_leg_payload_hash hex_decode tx has_voting_verifier) (\<lambda>payload_hash.
     Inr (pending_from tx now 0 (tm_signature tx) 0 payload_hash None
       (tm_gmp_destination_chain tx) (tm_gmp_destination_address tx)
       (if has_voting_verifier then Voted else HubApproved)))"

definition its_initial_phase :: "bool \<Rightarrow> tx_metrics list \<Rightarrow> nat list \<Rightarrow> phase" where
  "its_initial_phase has_voting_verifier metrics confirmed_txs =
     (if has_voting_verifier \<and> list_all (\<lambda>i. tm_payload_hash (metrics ! i) \<noteq> []) confirmed_txs
      then Voted else HubApproved)"

definition confirmed_indices :: "tx_metrics list \<Rightarrow> nat list" where
  "confirmed_indices metrics =
     map fst (filter (\<lambda>(_, m). metrics_is_success m \<and> tm_signature m \<noteq> []) (enumerate 0 metrics))"

text \<open>
  The task of a sustained run: a confirmed transaction is handed to the verifier, and one that
  cannot be verified is reported as failed.
\<close>

definition submission_task ::
  "(tx_metrics \<Rightarrow> pending_tx result) \<Rightarrow> bool \<Rightarrow> tx_metrics \<Rightarrow> tx_metrics \<times> pending_tx option" where
  "submission_task to_pending verifying metrics =
     (if metrics_is_success metrics \<and> verifying
      then
        (case to_pending metrics of
           Inr pending \<Rightarrow> (metrics, Some pending)
         | Inl e \<Rightarrow> (mark_failed metrics (''failed to build verification state: '' @ report_text e), None))
      else (metrics, None))"

subsection \<open>The state machine\<close>

text \<open>Any sequence of the operations, in any order and with any arguments.\<close>

datatype tx_op =
    TransitionTo phase
  | DiscoverLeg second_leg phase
  | ApproveDestination "b256 option"
  | ExecuteDestination "b256 option"
  | Succeed bool
  | Fail string
  | TimeOut string

fun run_op :: "tx_op \<Rightarrow> pending_tx \<Rightarrow> bool \<times> pending_tx" where
  "run_op (TransitionTo p) tx = transition_to p tx"
| "run_op (DiscoverLeg leg p) tx = discover_second_leg leg p tx"
| "run_op (ApproveDestination c) tx = approve_destination c tx"
| "run_op (ExecuteDestination c) tx = execute_destination c tx"
| "run_op (Succeed b) tx = succeed b tx"
| "run_op (Fail reason) tx = fail_tx reason tx"
| "run_op (TimeOut label) tx = time_out label tx"

definition run_ops :: "tx_op list \<Rightarrow> pending_tx \<Rightarrow> pending_tx" where
  "run_ops ops tx = fold (\<lambda>op t. snd (run_op op t)) ops tx"

lemmas op_defs =
  transition_to_def discover_second_leg_def approve_destination_def execute_destination_def
  succeed_def fail_tx_def time_out_def fail_with_def is_active_def is_phase_def

lemma op_rejected: "\<not> fst (run_op op tx) \<Longrightarrow> snd (run_op op tx) = tx"
  by (cases op; cases "pt_state tx"; simp add: op_defs split: if_split_asm; blast)

lemma op_settled: "\<not> is_active tx \<Longrightarrow> snd (run_op op tx) = tx"
  by (cases op; cases "pt_state tx"; simp add: op_defs)

text \<open>What one accepted operation does to an active transaction in phase \<open>p\<close>.\<close>

inductive tx_step :: "phase \<Rightarrow> verification_state \<Rightarrow> bool" where
  step_stay: "tx_step p (Active p)"
| step_phase: "can_transition_to p q \<Longrightarrow> tx_step p (Active q)"
| step_succeeded: "tx_step p (Succeeded b)"
| step_failed: "tx_step p (Failed p f)"

lemma op_step: "pt_state tx = Active p \<Longrightarrow> tx_step p (pt_state (snd (run_op op tx)))"
  by (cases op; cases p; simp add: op_defs tx_step.intros)

lemma op_leg:
  "pt_second_leg tx = None \<Longrightarrow> pt_second_leg (snd (run_op op tx)) \<noteq> None \<Longrightarrow> pt_state tx = Active DiscoverSecondLeg"
  by (cases op; cases "pt_state tx"; simp add: op_defs split: if_split_asm)

lemma op_message_id: "pt_message_id (snd (run_op op tx)) = pt_message_id tx"
  by (cases op; cases "pt_state tx"; simp add: op_defs)

lemma run_ops_snoc: "run_ops (ops @ [op]) tx = snd (run_op op (run_ops ops tx))"
  by (simp add: run_ops_def)

definition machine_inv :: "phase \<Rightarrow> pending_tx \<Rightarrow> pending_tx \<Rightarrow> bool" where
  "machine_inv p tx tx' =
     ((\<forall>q. pt_state tx' = Active q \<or> (\<exists>f. pt_state tx' = Failed q f) \<longrightarrow> can_transition_to\<^sup>*\<^sup>* p q) \<and>
      (pt_second_leg tx = None \<and> pt_second_leg tx' \<noteq> None \<longrightarrow> can_transition_to\<^sup>*\<^sup>* p DiscoverSecondLeg) \<and>
      pt_message_id tx' = pt_message_id tx)"

lemma run_ops_machine: "pt_state tx = Active p \<Longrightarrow> machine_inv p tx (run_ops ops tx)"
proof (induction ops rule: rev_induct)
  case Nil
  then show ?case by (auto simp: run_ops_def machine_inv_def)
next
  case (snoc op ops)
  let ?t = "run_ops ops tx" and ?t' = "run_ops (ops @ [op]) tx"
  have IH: "machine_inv p tx ?t" using snoc by blast
  have "pt_second_leg tx = None \<and> pt_second_leg ?t' \<noteq> None \<longrightarrow> can_transition_to\<^sup>*\<^sup>* p DiscoverSecondLeg"
    using IH op_leg [of ?t op] by (cases "pt_second_leg ?t") (auto simp: machine_inv_def run_ops_snoc)
  moreover have "can_transition_to\<^sup>*\<^sup>* p q" if "pt_state ?t' = Active q \<or> (\<exists>f. pt_state ?t' = Failed q f)" for q
  proof (cases "is_active ?t")
    case True
    then obtain r where r: "pt_state ?t = Active r" by (auto simp: is_active_def split: verification_state.splits)
    have reach: "can_transition_to\<^sup>*\<^sup>* p r" using IH r by (auto simp: machine_inv_def)
    have "tx_step r (pt_state ?t')" unfolding run_ops_snoc by (rule op_step [OF r])
    then show ?thesis using that reach by (cases rule: tx_step.cases) (auto intro: rtranclp.rtrancl_into_rtrancl)
  next
    case False
    then have "?t' = ?t" by (simp add: run_ops_snoc op_settled)
    then show ?thesis using IH that by (simp only: machine_inv_def)
  qed
  ultimately show ?case using IH by (auto simp: machine_inv_def run_ops_snoc op_message_id)
qed

lemma run_ops_settled: "\<not> is_active tx \<Longrightarrow> run_ops ops tx = tx"
  by (induction ops rule: rev_induct) (auto simp: run_ops_snoc op_settled run_ops_def [of "[]"])


definition sample_tx :: pending_tx where
  "sample_tx =
     new_pending
       \<lparr> pi_idx = 0, pi_message_id = ''0xa-1'', pi_send_instant = 0, pi_source_address = [],
         pi_contract_addr = 0, pi_payload_hash = None, pi_payload_hash_hex = [], pi_command_id = None,
         pi_gmp_destination_chain = [], pi_gmp_destination_address = [], pi_initial_phase = Voted \<rparr>"


end
