(* ===== verification/Verify_Env.thy ===== *)
theory Verify_Env
  imports Verify_State Lcd_Query
begin

text \<open>
  The machine a verification run polls: a clock in nanoseconds and the number of calls made so
  far.  Every remote read is answered by a function of the environment that also sees the number
  of the call, so two reads of the same thing may differ; it takes the time the environment gives
  it.  The chain clients, the JSON codec, hex decoding, Keccak and program-derived addresses are
  fields of the environment.  Also the GMP API lookups of \<open>gmp_api.rs\<close> and \<open>gmp_api/types.rs\<close> that
  verification uses.
\<close>

record verify_world =
  vw_now :: nat
  vw_calls :: nat

text \<open>The members of a GMP record that verification reads.\<close>

record express_record =
  er_status :: "string option"
  er_executed :: bool

record leg_info =
  li_message_id :: string
  li_payload_hash :: string
  li_source_address :: string
  li_destination_address :: string

record verify_env =
  vn_latency :: "nat \<Rightarrow> nat"
  vn_jitter :: "nat \<Rightarrow> u64 \<Rightarrow> nat"
  vn_lcd_override :: "string option"
  vn_get :: "nat \<Rightarrow> string \<Rightarrow> http_answer"
  vn_encode :: "json \<Rightarrow> string option"
  vn_base64 :: "string \<Rightarrow> string"
  vn_parse :: "string \<Rightarrow> json option"
  vn_hex :: "string \<Rightarrow> bytes option"
  vn_keccak :: "string \<Rightarrow> b256"
  vn_parse_address :: "string \<Rightarrow> address option"
  vn_post_search :: "nat \<Rightarrow> string \<Rightarrow> json \<Rightarrow> express_record list result"
  vn_discover :: "nat \<Rightarrow> string \<Rightarrow> string \<Rightarrow> leg_info option result"
  vn_message_approved :: "nat \<Rightarrow> string \<Rightarrow> string \<Rightarrow> string \<Rightarrow> address \<Rightarrow> b256 \<Rightarrow> bool result"
  vn_message_executed :: "nat \<Rightarrow> string \<Rightarrow> string \<Rightarrow> bool result"
  vn_command_executed :: "nat \<Rightarrow> b256 \<Rightarrow> bool result"
  vn_find_approval :: "nat \<Rightarrow> address \<Rightarrow> b256 \<Rightarrow> b256 option \<Rightarrow> u64 \<Rightarrow> b256 option result"
  vn_message_pda :: "network \<Rightarrow> b256 \<Rightarrow> string"
  vn_accounts :: "nat \<Rightarrow> string list \<Rightarrow> bytes option list result"
  vn_stellar_approved :: "nat \<Rightarrow> string \<Rightarrow> string \<Rightarrow> string \<Rightarrow> string \<Rightarrow> b256 \<Rightarrow> bool option result"
  vn_stellar_executed :: "nat \<Rightarrow> string \<Rightarrow> string \<Rightarrow> bool option result"
  vn_sui_approved :: "nat \<Rightarrow> string \<Rightarrow> string \<Rightarrow> string \<Rightarrow> bool result"
  vn_sui_executed :: "nat \<Rightarrow> string \<Rightarrow> string \<Rightarrow> string \<Rightarrow> bool result"
  vn_xrpl_inbound :: "nat \<Rightarrow> string \<Rightarrow> string \<Rightarrow> string option result"

abbreviation seconds :: "nat \<Rightarrow> nat" where
  "seconds n \<equiv> n * 1000000000"

definition advance :: "verify_env \<Rightarrow> verify_world \<Rightarrow> verify_world" where
  "advance V w = w\<lparr> vw_now := vw_now w + vn_latency V (vw_calls w), vw_calls := Suc (vw_calls w) \<rparr>"

definition read_net :: "verify_env \<Rightarrow> (nat \<Rightarrow> 'a result) \<Rightarrow> (verify_world, 'a) io" where
  "read_net V f w = (f (vw_calls w), advance V w)"

definition sleep_for :: "nat \<Rightarrow> (verify_world, unit) io" where
  "sleep_for d = io_modify (\<lambda>w. w\<lparr> vw_now := vw_now w + d \<rparr>)"

text \<open>The backoff of a retried read, in milliseconds before its random spread.\<close>

definition backoff :: "verify_env \<Rightarrow> u64 \<Rightarrow> verify_world \<Rightarrow> verify_world" where
  "backoff V ms w = w\<lparr> vw_now := vw_now w + vn_jitter V (vw_calls w) ms, vw_calls := Suc (vw_calls w) \<rparr>"

text \<open>A computation under a deadline: no result when it runs longer.\<close>

definition deadline :: "nat \<Rightarrow> (verify_world, 'a) io \<Rightarrow> (verify_world, 'a result option) io" where
  "deadline limit m w =
     (case m w of (r, w') \<Rightarrow>
        if vw_now w' - vw_now w \<le> limit then (Inr (Some r), w')
        else (Inr None, w'\<lparr> vw_now := vw_now w + limit \<rparr>))"

definition lcd_of :: "verify_env \<Rightarrow> verify_world lcd_env" where
  "lcd_of V =
     \<lparr> le_override = vn_lcd_override V, le_hardened = False, le_encode = vn_encode V,
       le_base64 = vn_base64 V, le_parse = vn_parse V,
       le_get = (\<lambda>url w. (vn_get V (vw_calls w) url, advance V w)) \<rparr>"

subsection \<open>GMP API\<close>

definition base_url :: "network \<Rightarrow> string option" where
  "base_url n =
     (case n of
        Mainnet \<Rightarrow> Some ''https://api.axelarscan.io''
      | Testnet \<Rightarrow> Some ''https://testnet.api.axelarscan.io''
      | Stagenet \<Rightarrow> Some ''https://stagenet.api.axelarscan.io''
      | DevnetAmplifier \<Rightarrow> None)"

definition record_is_executed :: "express_record \<Rightarrow> bool" where
  "record_is_executed r =
     ((case er_status r of Some s \<Rightarrow> eq_ignore_ascii_case s ''executed'' | None \<Rightarrow> False) \<or> er_executed r)"

definition record_is_failed :: "express_record \<Rightarrow> bool" where
  "record_is_failed r = (case er_status r of Some s \<Rightarrow> eq_ignore_ascii_case s ''error'' | None \<Rightarrow> False)"

definition first_record :: "express_record list \<Rightarrow> express_record option" where
  "first_record rs = (case rs of [] \<Rightarrow> None | r # _ \<Rightarrow> Some r)"

definition post_search :: "verify_env \<Rightarrow> string \<Rightarrow> json \<Rightarrow> (verify_world, express_record list) io" where
  "post_search V base body = read_net V (\<lambda>k. vn_post_search V k (base @ ''/gmp/searchGMP'') body)"

definition search_by_message_id :: "verify_env \<Rightarrow> string \<Rightarrow> string \<Rightarrow> (verify_world, express_record option) io" where
  "search_by_message_id V base message_id =
     io_bind (post_search V base (JObject [(''messageId'', JString message_id)])) (\<lambda>records.
     io_return (first_record records))"

definition search_by_tx :: "verify_env \<Rightarrow> string \<Rightarrow> string \<Rightarrow> (verify_world, express_record option) io" where
  "search_by_tx V base tx =
     io_bind (post_search V base (JObject [(''txHash'', JString tx)])) (\<lambda>records.
     io_return (first_record records))"

subsection \<open>Time only moves forward\<close>

definition since :: "nat \<Rightarrow> verify_world \<Rightarrow> bool" where
  "since t w = (t \<le> vw_now w)"

lemma since_advance: "since t w \<Longrightarrow> since t (advance V w)"
  by (simp add: since_def advance_def)

lemma since_backoff: "since t w \<Longrightarrow> since t (backoff V ms w)"
  by (simp add: since_def backoff_def)

lemma keeps_read_net [hoare_rules, simp]: "keeps (since t) (read_net V f)"
  by (simp add: keeps_def read_net_def since_advance)

lemma keeps_sleep_for [hoare_rules, simp]: "keeps (since t) (sleep_for d)"
  by (simp add: keeps_def sleep_for_def since_def)

lemma keeps_deadline [hoare_rules]:
  assumes "\<And>t. keeps (since t) m"
  shows "keeps (since t) (deadline limit m)"
proof (rule keepsI)
  fix w r w' assume "since t w" and run: "deadline limit m w = (r, w')"
  obtain r0 w0 where m: "m w = (r0, w0)" by force
  have "since t w0" using assms \<open>since t w\<close> m by (blast dest: keepsD)
  then show "since t w'"
    using run m \<open>since t w\<close> by (auto simp: deadline_def since_def split: if_splits)
qed

lemma keeps_retry_all [hoare_rules]:
  "keeps (since t) m \<Longrightarrow> keeps (since t) (retry_all (backoff V) m)"
  unfolding retry_all_def retry_async_def by (rule keeps_retry_from) (simp_all add: since_backoff)

lemma keeps_search [hoare_rules, simp]:
  "keeps (since t) (search_by_message_id V base message_id)" "keeps (since t) (search_by_tx V base tx)"
  by (auto simp: search_by_message_id_def search_by_tx_def post_search_def intro!: keeps_bind)

lemma query_endpoints_since:
  "since t w \<Longrightarrow> since t (snd (query_endpoints (lcd_of V) contract b64 endpoints last_err w))"
proof (induction endpoints arbitrary: last_err w)
  case (Cons e es)
  then show ?case by (simp add: lcd_of_def since_advance split: sum.splits)
qed simp

lemma smart_query_since:
  "since t w \<Longrightarrow> since t (snd (lcd_cosmwasm_smart_query_typed (lcd_of V) lcd contract query w))"
  by (simp add: lcd_cosmwasm_smart_query_typed_def query_endpoints_since split: option.splits)

end
