(* ===== verification/Verify_Destinations.thy ===== *)
theory Verify_Destinations
  imports Verify_Env
begin

text \<open>
  The destination side of verification: the chain adapters of \<open>pipeline/destination.rs\<close>, their
  counterparts for the second leg of an ITS transfer in \<open>pipeline.rs\<close>, and the reads of
  \<open>checks/evm.rs\<close>, \<open>checks/solana.rs\<close> and \<open>legacy.rs\<close>.  Requests that the program sends
  concurrently are made one after the other here.  What every adapter promises the polling loop
  is the locale \<open>destination_verifier\<close>; each adapter is an interpretation of it.
\<close>

datatype destination_status =
    DPending
  | DApproved "b256 option"
  | DExecuted "b256 option"

type_synonym destination_observation = "nat \<times> destination_status"

type_synonym destination_check =
  "string \<Rightarrow> pending_tx list \<Rightarrow> nat list \<Rightarrow> (verify_world, destination_observation list) io"

record destination_adapter =
  da_approval_label :: string
  da_execution_label :: string
  da_needs_contract_address :: bool
  da_check :: destination_check

text \<open>Indexing a list out of range panics.\<close>

definition at_index :: "'a list \<Rightarrow> nat \<Rightarrow> 'a result" where
  "at_index xs i = (if i < length xs then Inr (xs ! i) else Inl (Report ''index out of bounds''))"

definition successes :: "'a result list \<Rightarrow> 'a list" where
  "successes rs = List.map_filter (\<lambda>r. case r of Inr x \<Rightarrow> Some x | Inl _ \<Rightarrow> None) rs"

definition required_payload_hash :: "pending_tx \<Rightarrow> b256 result" where
  "required_payload_hash tx = ok_or (pt_payload_hash tx) ''tx has no first-leg payload_hash''"

definition required_second_leg :: "pending_tx \<Rightarrow> second_leg result" where
  "required_second_leg tx = ok_or (pt_second_leg tx) ''tx has no discovered second leg''"

definition required_second_leg_payload_hash :: "pending_tx \<Rightarrow> b256 result" where
  "required_second_leg_payload_hash tx = and_then (required_second_leg tx) (\<lambda>leg. Inr (sl_payload_hash leg))"

subsection \<open>EVM\<close>

definition check_evm_is_message_approved ::
  "verify_env \<Rightarrow> string \<Rightarrow> string \<Rightarrow> string \<Rightarrow> address \<Rightarrow> b256 \<Rightarrow> (verify_world, bool) io" where
  "check_evm_is_message_approved V source_chain message_id source_address contract_addr payload_hash =
     retry_all (backoff V)
       (read_net V (\<lambda>k. vn_message_approved V k source_chain message_id source_address contract_addr payload_hash))"

definition check_evm_is_message_executed ::
  "verify_env \<Rightarrow> string \<Rightarrow> string \<Rightarrow> (verify_world, bool) io" where
  "check_evm_is_message_executed V source_chain message_id =
     retry_all (backoff V) (read_net V (\<lambda>k. vn_message_executed V k source_chain message_id))"

definition check_evm_command_executed :: "verify_env \<Rightarrow> b256 \<Rightarrow> (verify_world, bool) io" where
  "check_evm_command_executed V command_id =
     retry_all (backoff V) (read_net V (\<lambda>k. vn_command_executed V k command_id))"

definition amplifier_status :: "bool \<Rightarrow> phase \<Rightarrow> bool \<Rightarrow> bool \<Rightarrow> destination_status" where
  "amplifier_status require_observed_approval p approved executed =
     (if p = Approved \<and> executed then DExecuted None
      else if p = Approved \<and> approved then DApproved None
      else if p = Approved \<and> \<not> require_observed_approval then DExecuted None
      else if p = Executed \<and> \<not> approved then DExecuted None
      else DPending)"

text \<open>A transaction that succeeded is skipped; a missing payload hash fails the whole check.\<close>

definition amplifier_request :: "pending_tx list \<Rightarrow> nat \<Rightarrow> (nat \<times> phase \<times> pending_tx \<times> b256) option result" where
  "amplifier_request txs i =
     and_then (at_index txs i) (\<lambda>tx.
     case phase_of tx of
       None \<Rightarrow> Inr None
     | Some p \<Rightarrow> and_then (required_payload_hash tx) (\<lambda>h. Inr (Some (i, p, tx, h))))"

definition amplifier_observe ::
  "verify_env \<Rightarrow> bool \<Rightarrow> string \<Rightarrow> nat \<times> phase \<times> pending_tx \<times> b256 \<Rightarrow> (verify_world, destination_observation) io" where
  "amplifier_observe V require_observed_approval source_chain request =
     (case request of (i, p, tx, h) \<Rightarrow>
        io_bind (check_evm_is_message_approved V source_chain (pt_message_id tx) (pt_source_address tx)
          (pt_contract_addr tx) h) (\<lambda>approved.
        io_bind (check_evm_is_message_executed V source_chain (pt_message_id tx)) (\<lambda>executed.
        io_return (i, amplifier_status require_observed_approval p approved executed))))"

definition check_evm_amplifier_destination :: "verify_env \<Rightarrow> bool \<Rightarrow> destination_check" where
  "check_evm_amplifier_destination V require_observed_approval source_chain txs indices =
     io_bind (io_lift (map_ok (amplifier_request txs) indices)) (\<lambda>requests.
     io_bind (io_map (\<lambda>r. io_try (amplifier_observe V require_observed_approval source_chain r))
       (List.map_filter id requests)) (\<lambda>results.
     io_return (successes results)))"

definition source_tx_hash_from_message_id :: "verify_env \<Rightarrow> string \<Rightarrow> b256 result" where
  "source_tx_hash_from_message_id V message_id =
     and_then (ok_or (rsplit_once (CHR ''-'') message_id) ''malformed EVM message id'') (\<lambda>(hash_str, _).
     and_then (ok_or (vn_hex V (case strip_prefix ''0x'' hash_str of Some s \<Rightarrow> s | None \<Rightarrow> hash_str))
       ''bad tx hash in message id'') (\<lambda>bs.
     if length bs \<noteq> 32 then Inl (Report ''tx hash in message id is not 32 bytes'')
     else Inr (b256_of_bytes bs)))"

definition find_approval ::
  "verify_env \<Rightarrow> address \<Rightarrow> b256 \<Rightarrow> b256 option \<Rightarrow> u64 \<Rightarrow> (verify_world, b256 option) io" where
  "find_approval V contract_addr payload_hash source_tx_hash from_block =
     read_net V (\<lambda>k. vn_find_approval V k contract_addr payload_hash source_tx_hash from_block)"

definition executed_or_approved :: "verify_env \<Rightarrow> b256 \<Rightarrow> (verify_world, destination_status) io" where
  "executed_or_approved V command_id =
     io_bind (check_evm_command_executed V command_id) (\<lambda>executed.
     io_return (if executed then DExecuted (Some command_id) else DApproved (Some command_id)))"

definition executed_or_pending :: "verify_env \<Rightarrow> pending_tx \<Rightarrow> (verify_world, destination_status) io" where
  "executed_or_pending V tx =
     io_bind (io_lift (ok_or (pt_command_id tx) ''legacy tx in Executed phase without a commandId'')) (\<lambda>command_id.
     io_bind (check_evm_command_executed V command_id) (\<lambda>executed.
     io_return (if executed then DExecuted (Some command_id) else DPending)))"

definition legacy_approval_status ::
  "verify_env \<Rightarrow> pending_tx \<Rightarrow> u64 \<Rightarrow> bool \<Rightarrow> (verify_world, destination_status) io" where
  "legacy_approval_status V tx from_block match_by_payload =
     io_bind (io_lift (required_payload_hash tx)) (\<lambda>payload_hash.
     io_bind (if match_by_payload then find_approval V (pt_contract_addr tx) payload_hash None from_block
              else
                io_bind (io_lift (source_tx_hash_from_message_id V (pt_message_id tx))) (\<lambda>source_tx_hash.
                find_approval V (pt_contract_addr tx) payload_hash (Some source_tx_hash) from_block)) (\<lambda>found.
     case found of
       None \<Rightarrow> io_return DPending
     | Some command_id \<Rightarrow> executed_or_approved V command_id))"

definition legacy_tx_status ::
  "verify_env \<Rightarrow> pending_tx \<Rightarrow> u64 \<Rightarrow> bool \<Rightarrow> (verify_world, destination_status) io" where
  "legacy_tx_status V tx from_block match_by_payload =
     (case phase_of tx of
        Some Approved \<Rightarrow> legacy_approval_status V tx from_block match_by_payload
      | Some Executed \<Rightarrow> executed_or_pending V tx
      | _ \<Rightarrow> io_return DPending)"

text \<open>A failed read keeps the transaction in flight.\<close>

definition tolerant ::
  "(pending_tx \<Rightarrow> (verify_world, destination_status) io) \<Rightarrow> pending_tx list \<Rightarrow> nat
   \<Rightarrow> (verify_world, destination_observation) io" where
  "tolerant status txs i =
     io_bind (io_lift (at_index txs i)) (\<lambda>tx.
     io_bind (io_try (status tx)) (\<lambda>r.
     io_return (i, case r of Inr s \<Rightarrow> s | Inl _ \<Rightarrow> DPending)))"

definition strict ::
  "(pending_tx \<Rightarrow> (verify_world, destination_status) io) \<Rightarrow> pending_tx list \<Rightarrow> nat
   \<Rightarrow> (verify_world, destination_observation) io" where
  "strict status txs i =
     io_bind (io_lift (at_index txs i)) (\<lambda>tx.
     io_bind (status tx) (\<lambda>s.
     io_return (i, s)))"

definition check_evm_legacy_destination :: "verify_env \<Rightarrow> u64 \<Rightarrow> bool \<Rightarrow> destination_check" where
  "check_evm_legacy_destination V from_block match_by_payload source_chain txs indices =
     io_map (tolerant (\<lambda>tx. legacy_tx_status V tx from_block match_by_payload) txs) indices"

datatype evm_gateway = AmplifierGateway bool | LegacyGateway u64 bool

definition evm_destination_verifier :: "verify_env \<Rightarrow> evm_gateway \<Rightarrow> destination_adapter" where
  "evm_destination_verifier V gateway =
     (case gateway of
        AmplifierGateway require_observed_approval \<Rightarrow>
          \<lparr> da_approval_label = ''EVM approval'', da_execution_label = ''EVM execution'',
            da_needs_contract_address = True,
            da_check = check_evm_amplifier_destination V require_observed_approval \<rparr>
      | LegacyGateway from_block match_by_payload \<Rightarrow>
          \<lparr> da_approval_label = ''EVM(legacy) approval'', da_execution_label = ''EVM(legacy) execution'',
            da_needs_contract_address = True,
            da_check = check_evm_legacy_destination V from_block match_by_payload \<rparr>)"

subsection \<open>Solana\<close>

definition SOLANA_BATCH_SIZE :: nat where "SOLANA_BATCH_SIZE = 100"
definition INCOMING_MESSAGE_STATUS_OFFSET :: nat where "INCOMING_MESSAGE_STATUS_OFFSET = 13"

text \<open>Consecutive pieces of at most \<open>n\<close> elements; the program never asks for pieces of zero.\<close>

function chunks :: "nat \<Rightarrow> 'a list \<Rightarrow> 'a list list" where
  "chunks n xs = (if xs = [] then [] else take (max n 1) xs # chunks n (drop (max n 1) xs))"
  by pat_completeness auto

termination by (relation "measure (\<lambda>(n, xs). length xs)") auto

declare chunks.simps [simp del]

definition account_status :: "bytes option \<Rightarrow> byte option result" where
  "account_status account =
     (case account of
        None \<Rightarrow> Inr None
      | Some data \<Rightarrow>
          if length data \<le> INCOMING_MESSAGE_STATUS_OFFSET then Inl (Report ''IncomingMessage account too small'')
          else Inr (Some (data ! INCOMING_MESSAGE_STATUS_OFFSET)))"

definition solana_chunk ::
  "verify_env \<Rightarrow> network \<Rightarrow> (nat \<times> b256) list \<Rightarrow> (verify_world, (nat \<times> byte option) list) io" where
  "solana_chunk V n chunk =
     io_bind (read_net V (\<lambda>k. vn_accounts V k (map (\<lambda>(_, cmd). vn_message_pda V n cmd) chunk))) (\<lambda>accounts.
     io_bind (io_ensure (length accounts = length chunk) ''Solana getMultipleAccounts returned a different number'') (\<lambda>_.
     io_bind (io_lift (map_ok account_status accounts)) (\<lambda>statuses.
     io_return (zip (map fst chunk) statuses))))"

definition batch_check_solana_incoming_messages ::
  "verify_env \<Rightarrow> network \<Rightarrow> (nat \<times> b256) list \<Rightarrow> (verify_world, (nat \<times> byte option) list) io" where
  "batch_check_solana_incoming_messages V n txs =
     io_bind (io_map (solana_chunk V n) (chunks SOLANA_BATCH_SIZE txs)) (\<lambda>results.
     io_return (concat results))"

definition solana_status :: "byte option \<Rightarrow> destination_status" where
  "solana_status status =
     (case status of
        None \<Rightarrow> DPending
      | Some b \<Rightarrow> if b = 0 then DApproved None else DExecuted None)"

definition solana_observations ::
  "verify_env \<Rightarrow> network \<Rightarrow> (pending_tx \<Rightarrow> b256 result) \<Rightarrow> pending_tx list \<Rightarrow> nat list
   \<Rightarrow> (verify_world, destination_observation list) io" where
  "solana_observations V n command txs indices =
     io_bind (io_lift (map_ok (\<lambda>i.
       and_then (at_index txs i) (\<lambda>tx. and_then (command tx) (\<lambda>c. Inr (i, c)))) indices)) (\<lambda>data.
     io_bind (batch_check_solana_incoming_messages V n data) (\<lambda>results.
     io_return (map (\<lambda>(i, status). (i, solana_status status)) results)))"

definition check_solana_destination :: "verify_env \<Rightarrow> network \<Rightarrow> destination_check" where
  "check_solana_destination V n source_chain txs indices =
     solana_observations V n
       (\<lambda>tx. ok_or (pt_command_id tx) ''tx missing Solana command_id for destination check'') txs indices"

definition solana_destination_verifier :: "verify_env \<Rightarrow> network \<Rightarrow> destination_adapter" where
  "solana_destination_verifier V n =
     \<lparr> da_approval_label = ''Solana approval'', da_execution_label = ''Solana execution'',
       da_needs_contract_address = False, da_check = check_solana_destination V n \<rparr>"

subsection \<open>Stellar\<close>

definition stellar_view_or_retry :: "bool option result \<Rightarrow> bool option result" where
  "stellar_view_or_retry r =
     (case r of
        Inr (Some v) \<Rightarrow> Inr (Some v)
      | Inr None \<Rightarrow> Inl (Report ''Stellar gateway returned non-bool result'')
      | Inl _ \<Rightarrow> Inr None)"

definition stellar_view :: "verify_env \<Rightarrow> (nat \<Rightarrow> bool option result) \<Rightarrow> (verify_world, bool option) io" where
  "stellar_view V f = io_bind (io_try (read_net V f)) (\<lambda>r. io_lift (stellar_view_or_retry r))"

definition stellar_status :: "verify_env \<Rightarrow> string \<Rightarrow> pending_tx \<Rightarrow> (verify_world, destination_status) io" where
  "stellar_status V source_chain tx =
     io_bind (io_lift (required_payload_hash tx)) (\<lambda>h.
     io_bind (stellar_view V (\<lambda>k. vn_stellar_approved V k source_chain (pt_message_id tx)
       (pt_source_address tx) (pt_gmp_destination_address tx) h)) (\<lambda>approved.
     case phase_of tx of
       Some Approved \<Rightarrow> io_return (if approved = Some True then DApproved None else DPending)
     | Some Executed \<Rightarrow>
         io_bind (stellar_view V (\<lambda>k. vn_stellar_executed V k source_chain (pt_message_id tx))) (\<lambda>executed.
         io_return (if executed = Some True then DExecuted None else DPending))
     | _ \<Rightarrow> io_return DPending))"

definition check_stellar_destination :: "verify_env \<Rightarrow> destination_check" where
  "check_stellar_destination V source_chain txs indices = io_map (strict (stellar_status V source_chain) txs) indices"

definition stellar_destination_verifier :: "verify_env \<Rightarrow> destination_adapter" where
  "stellar_destination_verifier V =
     \<lparr> da_approval_label = ''Stellar approval'', da_execution_label = ''Stellar execution'',
       da_needs_contract_address = False, da_check = check_stellar_destination V \<rparr>"

subsection \<open>Sui\<close>

definition sui_status ::
  "verify_env \<Rightarrow> string \<Rightarrow> string \<Rightarrow> string \<Rightarrow> pending_tx \<Rightarrow> (verify_world, destination_status) io" where
  "sui_status V gateway_pkg source_chain message_id tx =
     io_bind (read_net V (\<lambda>k. vn_sui_approved V k (gateway_pkg @ ''::events::MessageApproved'') source_chain message_id)) (\<lambda>approved.
     io_bind (read_net V (\<lambda>k. vn_sui_executed V k (gateway_pkg @ ''::events::MessageExecuted'') source_chain message_id)) (\<lambda>executed.
     io_return
       (if executed then DExecuted None
        else if is_phase tx Approved \<and> approved then DApproved None
        else DPending)))"

definition check_sui_destination :: "verify_env \<Rightarrow> string \<Rightarrow> destination_check" where
  "check_sui_destination V gateway_pkg source_chain txs indices =
     io_map (strict (\<lambda>tx. sui_status V gateway_pkg source_chain (pt_message_id tx) tx) txs) indices"

definition sui_destination_verifier :: "verify_env \<Rightarrow> string \<Rightarrow> destination_adapter" where
  "sui_destination_verifier V gateway_pkg =
     \<lparr> da_approval_label = ''Sui approval'', da_execution_label = ''Sui execution'',
       da_needs_contract_address = False, da_check = check_sui_destination V gateway_pkg \<rparr>"

subsection \<open>The second leg of an ITS transfer\<close>

definition check_solana_its :: "verify_env \<Rightarrow> network \<Rightarrow> destination_check" where
  "check_solana_its V n source_chain txs indices =
     solana_observations V n
       (\<lambda>tx. and_then (required_second_leg tx) (\<lambda>leg. Inr (vn_keccak V (''axelar-'' @ sl_message_id leg)))) txs indices"

definition stellar_its_status :: "verify_env \<Rightarrow> pending_tx \<Rightarrow> (verify_world, destination_status) io" where
  "stellar_its_status V tx =
     io_bind (io_lift (required_second_leg tx)) (\<lambda>leg.
     case phase_of tx of
       Some Approved \<Rightarrow>
         io_bind (io_lift (required_second_leg_payload_hash tx)) (\<lambda>h.
         io_bind (stellar_view V (\<lambda>k. vn_stellar_approved V k ''axelar'' (sl_message_id leg)
           (sl_source_address leg) (sl_destination_address leg) h)) (\<lambda>approved.
         io_return (if approved = Some True then DApproved None else DPending)))
     | Some Executed \<Rightarrow>
         io_bind (stellar_view V (\<lambda>k. vn_stellar_executed V k ''axelar'' (sl_message_id leg))) (\<lambda>executed.
         io_return (if executed = Some True then DExecuted None else DPending))
     | _ \<Rightarrow> io_return DPending)"

definition check_stellar_its :: "verify_env \<Rightarrow> destination_check" where
  "check_stellar_its V source_chain txs indices = io_map (strict (stellar_its_status V) txs) indices"

definition xrpl_its_status :: "verify_env \<Rightarrow> string \<Rightarrow> pending_tx \<Rightarrow> (verify_world, destination_status) io" where
  "xrpl_its_status V recipient_address tx =
     io_bind (io_lift (required_second_leg tx)) (\<lambda>leg.
     io_bind (read_net V (\<lambda>k. vn_xrpl_inbound V k recipient_address (sl_message_id leg))) (\<lambda>inbound.
     io_return (if inbound \<noteq> None then DExecuted None else DPending)))"

definition check_xrpl_its :: "verify_env \<Rightarrow> string \<Rightarrow> destination_check" where
  "check_xrpl_its V recipient_address source_chain txs indices =
     io_map (strict (xrpl_its_status V recipient_address) txs) indices"

definition sui_its_status :: "verify_env \<Rightarrow> string \<Rightarrow> pending_tx \<Rightarrow> (verify_world, destination_status) io" where
  "sui_its_status V gateway_pkg tx =
     io_bind (io_lift (required_second_leg tx)) (\<lambda>leg.
     sui_status V gateway_pkg ''axelar'' (sl_message_id leg) tx)"

definition check_sui_its :: "verify_env \<Rightarrow> string \<Rightarrow> destination_check" where
  "check_sui_its V gateway_pkg source_chain txs indices = io_map (strict (sui_its_status V gateway_pkg) txs) indices"

definition its_amplifier_status :: "phase \<Rightarrow> bool \<Rightarrow> bool \<Rightarrow> destination_status" where
  "its_amplifier_status p approved executed =
     (if p \<in> {Approved, Executed} \<and> executed then DExecuted None
      else if p = Approved \<and> approved then DApproved None
      else DPending)"

definition its_amplifier_request :: "pending_tx list \<Rightarrow> nat \<Rightarrow> (nat \<times> phase \<times> second_leg) result" where
  "its_amplifier_request txs i =
     and_then (at_index txs i) (\<lambda>tx.
     and_then (ok_or (phase_of tx) ''destination check received an inactive transaction'') (\<lambda>p.
     and_then (required_second_leg tx) (\<lambda>leg.
     Inr (i, p, leg))))"

definition its_amplifier_observe ::
  "verify_env \<Rightarrow> nat \<times> phase \<times> second_leg \<Rightarrow> (verify_world, destination_observation) io" where
  "its_amplifier_observe V request =
     (case request of (i, p, leg) \<Rightarrow>
        io_bind (io_lift (ok_or (vn_parse_address V (sl_destination_address leg))
          ''invalid second-leg EVM destination address'')) (\<lambda>destination.
        io_bind (check_evm_is_message_approved V ''axelar'' (sl_message_id leg) (sl_source_address leg)
          destination (sl_payload_hash leg)) (\<lambda>approved.
        io_bind (check_evm_is_message_executed V ''axelar'' (sl_message_id leg)) (\<lambda>executed.
        io_return (i, its_amplifier_status p approved executed)))))"

definition check_evm_its_amplifier :: "verify_env \<Rightarrow> destination_check" where
  "check_evm_its_amplifier V source_chain txs indices =
     io_bind (io_lift (map_ok (its_amplifier_request txs) indices)) (\<lambda>requests.
     io_bind (io_map (\<lambda>r. io_try (its_amplifier_observe V r)) requests) (\<lambda>results.
     io_return (successes results)))"

definition its_legacy_tx_status :: "verify_env \<Rightarrow> u64 \<Rightarrow> pending_tx \<Rightarrow> (verify_world, destination_status) io" where
  "its_legacy_tx_status V from_block tx =
     io_bind (io_lift (required_second_leg tx)) (\<lambda>leg.
     io_bind (io_lift (ok_or (vn_parse_address V (sl_destination_address leg))
       ''invalid second-leg EVM destination address'')) (\<lambda>destination.
     case phase_of tx of
       Some Approved \<Rightarrow>
         io_bind (io_lift (required_second_leg_payload_hash tx)) (\<lambda>h.
         io_bind (find_approval V destination h None from_block) (\<lambda>found.
         case found of
           None \<Rightarrow> io_return DPending
         | Some command_id \<Rightarrow> executed_or_approved V command_id))
     | Some Executed \<Rightarrow> executed_or_pending V tx
     | _ \<Rightarrow> io_return DPending))"

definition check_evm_its_legacy :: "verify_env \<Rightarrow> u64 \<Rightarrow> destination_check" where
  "check_evm_its_legacy V from_block source_chain txs indices =
     io_map (tolerant (its_legacy_tx_status V from_block) txs) indices"

datatype its_evm_dest = ItsAmplifier | ItsLegacy u64

definition evm_its_destination_verifier :: "verify_env \<Rightarrow> its_evm_dest \<Rightarrow> destination_adapter" where
  "evm_its_destination_verifier V mode =
     (case mode of
        ItsAmplifier \<Rightarrow>
          \<lparr> da_approval_label = ''EVM approval'', da_execution_label = ''EVM execution'',
            da_needs_contract_address = False, da_check = check_evm_its_amplifier V \<rparr>
      | ItsLegacy from_block \<Rightarrow>
          \<lparr> da_approval_label = ''EVM(legacy) approval'', da_execution_label = ''EVM(legacy) execution'',
            da_needs_contract_address = False, da_check = check_evm_its_legacy V from_block \<rparr>)"

definition solana_its_destination_verifier :: "verify_env \<Rightarrow> network \<Rightarrow> destination_adapter" where
  "solana_its_destination_verifier V n =
     \<lparr> da_approval_label = ''Solana approval'', da_execution_label = ''Solana execution'',
       da_needs_contract_address = False, da_check = check_solana_its V n \<rparr>"

definition stellar_its_destination_verifier :: "verify_env \<Rightarrow> destination_adapter" where
  "stellar_its_destination_verifier V =
     \<lparr> da_approval_label = ''Stellar approval'', da_execution_label = ''Stellar execution'',
       da_needs_contract_address = False, da_check = check_stellar_its V \<rparr>"

definition xrpl_its_destination_verifier :: "verify_env \<Rightarrow> string \<Rightarrow> destination_adapter" where
  "xrpl_its_destination_verifier V recipient_address =
     \<lparr> da_approval_label = ''XRPL approval'', da_execution_label = ''XRPL execution'',
       da_needs_contract_address = False, da_check = check_xrpl_its V recipient_address \<rparr>"

definition sui_its_destination_verifier :: "verify_env \<Rightarrow> string \<Rightarrow> destination_adapter" where
  "sui_its_destination_verifier V gateway_pkg =
     \<lparr> da_approval_label = ''Sui approval'', da_execution_label = ''Sui execution'',
       da_needs_contract_address = False, da_check = check_sui_its V gateway_pkg \<rparr>"

subsection \<open>What an adapter promises\<close>

text \<open>
  Every observation is about a requested transaction, and one that reports an execution rests on
  an answer of the destination chain: the adapter's \<open>evidence\<close>.
\<close>

definition answers ::
  "(string \<Rightarrow> pending_tx \<Rightarrow> bool) \<Rightarrow> string \<Rightarrow> pending_tx list \<Rightarrow> nat list \<Rightarrow> destination_observation list \<Rightarrow> bool" where
  "answers evidence source_chain txs indices observations =
     (\<forall>(i, s) \<in> set observations. i \<in> set indices \<and> i < length txs \<and>
        (\<forall>c. s = DExecuted c \<longrightarrow> evidence source_chain (txs ! i)))"

definition status_backed :: "bool \<Rightarrow> destination_status \<Rightarrow> bool" where
  "status_backed proof_seen s = (\<forall>c. s = DExecuted c \<longrightarrow> proof_seen)"

lemma status_backed_simps [simp]:
  "status_backed b DPending" "status_backed b (DApproved c)" "status_backed b (DExecuted c) = b"
  by (simp_all add: status_backed_def)

locale destination_verifier =
  fixes check :: destination_check
    and evidence :: "string \<Rightarrow> pending_tx \<Rightarrow> bool"
  assumes check_answers: "outputs (check source_chain txs indices) (answers evidence source_chain txs indices)"
    and check_since: "keeps (since t) (check source_chain txs indices)"
begin

lemma observed_requested:
  "check source_chain txs indices w = (Inr obs, w') \<Longrightarrow> (i, s) \<in> set obs \<Longrightarrow> i \<in> set indices \<and> i < length txs"
  using check_answers unfolding outputs_def answers_def by fast

lemma observed_execution:
  "check source_chain txs indices w = (Inr obs, w') \<Longrightarrow> (i, DExecuted c) \<in> set obs \<Longrightarrow> evidence source_chain (txs ! i)"
  using check_answers unfolding outputs_def answers_def by fast

lemma time_passes: "check source_chain txs indices w = (r, w') \<Longrightarrow> vw_now w \<le> vw_now w'"
  using keepsD [OF check_since [where t = "vw_now w"], of w] by (simp add: since_def)

end

definition amplifier_evidence :: "verify_env \<Rightarrow> bool \<Rightarrow> string \<Rightarrow> pending_tx \<Rightarrow> bool" where
  "amplifier_evidence V require_observed_approval source_chain tx =
     ((\<exists>k. vn_message_executed V k source_chain (pt_message_id tx) = Inr True) \<or>
      ((phase_of tx = Some Executed \<or> phase_of tx = Some Approved \<and> \<not> require_observed_approval) \<and>
       (\<exists>k h. pt_payload_hash tx = Some h \<and>
          vn_message_approved V k source_chain (pt_message_id tx) (pt_source_address tx) (pt_contract_addr tx) h = Inr False)))"

definition legacy_evidence :: "verify_env \<Rightarrow> string \<Rightarrow> pending_tx \<Rightarrow> bool" where
  "legacy_evidence V source_chain tx =
     (\<exists>k c. vn_command_executed V k c = Inr True \<and>
        (pt_command_id tx = Some c \<or>
         (\<exists>k h src from_block. pt_payload_hash tx = Some h \<and>
            vn_find_approval V k (pt_contract_addr tx) h src from_block = Inr (Some c))))"

definition solana_executed :: "verify_env \<Rightarrow> network \<Rightarrow> b256 \<Rightarrow> bool" where
  "solana_executed V n cmd =
     (\<exists>k pdas accounts j data. vn_accounts V k pdas = Inr accounts \<and> j < length pdas \<and>
        pdas ! j = vn_message_pda V n cmd \<and> accounts ! j = Some data \<and>
        data ! INCOMING_MESSAGE_STATUS_OFFSET \<noteq> 0)"

definition solana_evidence :: "verify_env \<Rightarrow> network \<Rightarrow> string \<Rightarrow> pending_tx \<Rightarrow> bool" where
  "solana_evidence V n source_chain tx = (\<exists>cmd. pt_command_id tx = Some cmd \<and> solana_executed V n cmd)"

definition stellar_evidence :: "verify_env \<Rightarrow> string \<Rightarrow> pending_tx \<Rightarrow> bool" where
  "stellar_evidence V source_chain tx =
     (\<exists>k. vn_stellar_executed V k source_chain (pt_message_id tx) = Inr (Some True))"

definition sui_evidence :: "verify_env \<Rightarrow> string \<Rightarrow> string \<Rightarrow> pending_tx \<Rightarrow> bool" where
  "sui_evidence V gateway_pkg source_chain tx =
     (\<exists>k. vn_sui_executed V k (gateway_pkg @ ''::events::MessageExecuted'') source_chain (pt_message_id tx) = Inr True)"

text \<open>For the second leg of an ITS transfer the evidence is about the message the hub sent.\<close>

definition leg_evidence :: "(second_leg \<Rightarrow> bool) \<Rightarrow> string \<Rightarrow> pending_tx \<Rightarrow> bool" where
  "leg_evidence P source_chain tx = (\<exists>leg. pt_second_leg tx = Some leg \<and> P leg)"

definition its_legacy_evidence :: "verify_env \<Rightarrow> string \<Rightarrow> pending_tx \<Rightarrow> bool" where
  "its_legacy_evidence V source_chain tx =
     (\<exists>k c. vn_command_executed V k c = Inr True \<and>
        (pt_command_id tx = Some c \<or>
         (\<exists>k leg destination from_block. pt_second_leg tx = Some leg \<and>
            vn_parse_address V (sl_destination_address leg) = Some destination \<and>
            vn_find_approval V k destination (sl_payload_hash leg) None from_block = Inr (Some c))))"

subsection \<open>The adapters keep it\<close>

lemma outputs_read_net: "outputs (read_net V f) (\<lambda>x. \<exists>k. f k = Inr x)"
  by (auto simp: outputs_def read_net_def)

lemma outputs_map:
  "(\<And>x. x \<in> set xs \<Longrightarrow> outputs (f x) (P x)) \<Longrightarrow> outputs (io_map f xs) (list_all2 P xs)"
proof (induction xs)
  case (Cons x xs)
  then show ?case
    by (auto intro!: outputs_bind [where P = "P x"] outputs_bind [where P = "list_all2 P xs"]
        simp: outputs_basic)
qed (simp add: outputs_basic)

lemma outputs_weaken: "outputs m P \<Longrightarrow> (\<And>x. P x \<Longrightarrow> Q x) \<Longrightarrow> outputs m Q"
  by (auto simp: outputs_def)

lemma at_index_Inr: "(at_index xs i = Inr x) = (i < length xs \<and> x = xs ! i)"
  by (auto simp: at_index_def)

lemma outputs_strict:
  assumes "\<And>tx. outputs (status tx) (\<lambda>s. status_backed (evidence source_chain tx) s)"
  shows "outputs (io_map (strict status txs) indices) (answers evidence source_chain txs indices)"
proof (rule outputs_weaken)
  show "outputs (io_map (strict status txs) indices)
     (list_all2 (\<lambda>i (j, s). j = i \<and> i < length txs \<and> status_backed (evidence source_chain (txs ! i)) s) indices)"
    unfolding strict_def
    by (rule outputs_map, rule outputs_bind [OF outputs_lift], rule outputs_bind [OF assms])
      (auto simp: outputs_basic at_index_Inr)
qed (fastforce simp: answers_def list_all2_conv_all_nth in_set_conv_nth split_beta status_backed_def)

lemma outputs_tolerant:
  assumes "\<And>tx. outputs (status tx) (\<lambda>s. status_backed (evidence source_chain tx) s)"
  shows "outputs (io_map (tolerant status txs) indices) (answers evidence source_chain txs indices)"
proof (rule outputs_weaken)
  show "outputs (io_map (tolerant status txs) indices)
     (list_all2 (\<lambda>i (j, s). j = i \<and> i < length txs \<and> status_backed (evidence source_chain (txs ! i)) s) indices)"
    unfolding tolerant_def
    by (rule outputs_map, rule outputs_bind [OF outputs_lift],
        rule outputs_bind [OF outputs_try [OF assms]])
      (auto simp: outputs_basic at_index_Inr split: sum.splits)
qed (fastforce simp: answers_def list_all2_conv_all_nth in_set_conv_nth split_beta status_backed_def)

lemma keeps_strict:
  "(\<And>tx. keeps (since t) (status tx)) \<Longrightarrow> keeps (since t) (io_map (strict status txs) indices)"
  unfolding strict_def by (intro keeps_map keeps_bind) simp_all

lemma keeps_tolerant:
  "(\<And>tx. keeps (since t) (status tx)) \<Longrightarrow> keeps (since t) (io_map (tolerant status txs) indices)"
  unfolding tolerant_def by (intro keeps_map keeps_bind keeps_try) simp_all

lemma keeps_evm_checks [simp]:
  "keeps (since t) (check_evm_is_message_approved V source_chain message_id source_address contract_addr h)"
  "keeps (since t) (check_evm_is_message_executed V source_chain message_id)"
  "keeps (since t) (check_evm_command_executed V c)"
  "keeps (since t) (find_approval V contract_addr h src from_block)"
  "keeps (since t) (stellar_view V f)"
  by (auto simp: check_evm_is_message_approved_def check_evm_is_message_executed_def
      check_evm_command_executed_def find_approval_def stellar_view_def
      intro!: keeps_retry_all keeps_bind keeps_try)

lemma keeps_executed_or [simp]:
  "keeps (since t) (executed_or_approved V c)" "keeps (since t) (executed_or_pending V tx)"
  by (auto simp: executed_or_approved_def executed_or_pending_def intro!: keeps_bind)

lemma keeps_phase:
  "(\<And>p. keeps I (f p)) \<Longrightarrow> keeps I a \<Longrightarrow> keeps I (case q of None \<Rightarrow> a | Some p \<Rightarrow> f p)"
  by (cases q) auto

lemma keeps_cases_phase:
  "keeps I a \<Longrightarrow> keeps I b \<Longrightarrow> keeps I c \<Longrightarrow>
   keeps I (case q of Some Approved \<Rightarrow> a | Some Executed \<Rightarrow> b | _ \<Rightarrow> c)"
  by (auto split: option.splits phase.splits)

lemmas since_rules = keeps_cases_phase keeps_bind keeps_option keeps_if keeps_try keeps_prod

lemma status_since:
  "keeps (since t) (legacy_tx_status V tx from_block match_by_payload)"
  "keeps (since t) (stellar_status V source_chain tx)"
  "keeps (since t) (sui_status V gateway_pkg source_chain message_id tx)"
  "keeps (since t) (stellar_its_status V tx)"
  "keeps (since t) (xrpl_its_status V recipient_address tx)"
  "keeps (since t) (sui_its_status V gateway_pkg tx)"
  "keeps (since t) (its_legacy_tx_status V from_block tx)"
  unfolding legacy_tx_status_def legacy_approval_status_def stellar_status_def sui_status_def
    stellar_its_status_def xrpl_its_status_def sui_its_status_def its_legacy_tx_status_def
  by (intro since_rules; simp)+

lemma list_all2_right: "list_all2 P xs ys \<Longrightarrow> y \<in> set ys \<Longrightarrow> \<exists>x \<in> set xs. P x y"
  by (induction rule: list_all2_induct) auto

lemma map_ok_right: "map_ok f xs = Inr ys \<Longrightarrow> y \<in> set ys \<Longrightarrow> \<exists>x \<in> set xs. f x = Inr y"
  unfolding map_ok_Inr by (rule list_all2_right)

lemma outputs_evm:
  "outputs (check_evm_is_message_approved V source_chain message_id source_address contract_addr h)
     (\<lambda>b. \<exists>k. vn_message_approved V k source_chain message_id source_address contract_addr h = Inr b)"
  "outputs (check_evm_is_message_executed V source_chain message_id)
     (\<lambda>b. \<exists>k. vn_message_executed V k source_chain message_id = Inr b)"
  "outputs (check_evm_command_executed V c) (\<lambda>b. \<exists>k. vn_command_executed V k c = Inr b)"
  "outputs (find_approval V contract_addr h src from_block)
     (\<lambda>r. \<exists>k. vn_find_approval V k contract_addr h src from_block = Inr r)"
  unfolding check_evm_is_message_approved_def check_evm_is_message_executed_def
    check_evm_command_executed_def find_approval_def
  by (intro outputs_retry_all outputs_read_net)+

lemma outputs_cases_phase:
  "(q = Some Approved \<Longrightarrow> outputs a P) \<Longrightarrow> (q = Some Executed \<Longrightarrow> outputs b P) \<Longrightarrow>
   (q \<noteq> Some Approved \<Longrightarrow> q \<noteq> Some Executed \<Longrightarrow> outputs c P) \<Longrightarrow>
   outputs (case q of Some Approved \<Rightarrow> a | Some Executed \<Rightarrow> b | _ \<Rightarrow> c) P"
  by (cases q) (auto split: phase.splits)

lemma outputs_executed_or:
  "outputs (executed_or_approved V c) (status_backed (\<exists>k. vn_command_executed V k c = Inr True))"
  "outputs (executed_or_pending V tx)
     (status_backed (\<exists>k c. vn_command_executed V k c = Inr True \<and> pt_command_id tx = Some c))"
  unfolding executed_or_approved_def executed_or_pending_def
   apply (rule outputs_bind [OF outputs_evm(3)], auto simp: outputs_basic)[1]
  apply (rule outputs_bind [OF outputs_lift], rule outputs_bind [OF outputs_evm(3)])
  apply (auto simp: outputs_basic ok_or_def split: option.splits)
  done

lemma status_backed_mono: "status_backed b s \<Longrightarrow> (b \<Longrightarrow> b') \<Longrightarrow> status_backed b' s"
  by (auto simp: status_backed_def)

lemma successes_set: "x \<in> set (successes rs) \<Longrightarrow> Inr x \<in> set rs"
  by (auto simp: successes_def List.map_filter_def split: sum.splits)

text \<open>The concurrent reads of an Amplifier gateway: whatever subset of them succeeds is reported.\<close>

lemma outputs_gathered:
  assumes "\<And>r. r \<in> set requests \<Longrightarrow> outputs (observe r)
     (\<lambda>(i, s). i \<in> set indices \<and> i < length txs \<and> status_backed (evidence source_chain (txs ! i)) s)"
  shows "outputs (io_bind (io_map (\<lambda>r. io_try (observe r)) requests) (\<lambda>results. io_return (successes results)))
     (answers evidence source_chain txs indices)"
proof (rule outputs_bind [OF outputs_map [OF outputs_try [OF assms]]])
  fix results :: "destination_observation result list"
  assume all: "list_all2 (\<lambda>r res. \<forall>x. res = Inr x \<longrightarrow>
    (case x of (i, s) \<Rightarrow> i \<in> set indices \<and> i < length txs \<and> status_backed (evidence source_chain (txs ! i)) s))
    requests results"
  have "case x of (i, s) \<Rightarrow> i \<in> set indices \<and> i < length txs \<and> status_backed (evidence source_chain (txs ! i)) s"
    if "x \<in> set (successes results)" for x
    using successes_set [OF that] all by (auto simp: list_all2_conv_all_nth in_set_conv_nth)
  then show "outputs (io_return (successes results)) (answers evidence source_chain txs indices)"
    by (auto simp: outputs_basic answers_def status_backed_def)
qed

lemma amplifier_requests:
  "map_ok (amplifier_request txs) indices = Inr requests \<Longrightarrow> (i, p, tx, h) \<in> set (List.map_filter id requests) \<Longrightarrow>
   i \<in> set indices \<and> i < length txs \<and> tx = txs ! i \<and> phase_of tx = Some p \<and> pt_payload_hash tx = Some h"
  by (auto simp: List.map_filter_def amplifier_request_def required_payload_hash_def at_index_Inr result_simps
      split: option.splits dest!: map_ok_right)

lemma amplifier_answers:
  "outputs (check_evm_amplifier_destination V b source_chain txs indices)
     (answers (amplifier_evidence V b) source_chain txs indices)"
  unfolding check_evm_amplifier_destination_def
proof (rule outputs_bind [OF outputs_lift], rule outputs_gathered, clarify)
  fix requests i p tx h
  assume "map_ok (amplifier_request txs) indices = Inr requests" "(i, p, tx, h) \<in> set (List.map_filter id requests)"
  note request = amplifier_requests [OF this]
  show "outputs (amplifier_observe V b source_chain (i, p, tx, h))
    (\<lambda>(i, s). i \<in> set indices \<and> i < length txs \<and> status_backed (amplifier_evidence V b source_chain (txs ! i)) s)"
    unfolding amplifier_observe_def prod.case
    by (rule outputs_bind [OF outputs_evm(1)], rule outputs_bind [OF outputs_evm(2)])
      (use request in \<open>auto simp: outputs_basic amplifier_evidence_def amplifier_status_def\<close>)
qed

lemma legacy_evidence_found:
  "vn_command_executed V k c = Inr True \<Longrightarrow> pt_payload_hash tx = Some h \<Longrightarrow>
   vn_find_approval V k' (pt_contract_addr tx) h src from_block = Inr (Some c) \<Longrightarrow> legacy_evidence V source_chain tx"
  unfolding legacy_evidence_def by blast

lemma legacy_evidence_known:
  "vn_command_executed V k c = Inr True \<Longrightarrow> pt_command_id tx = Some c \<Longrightarrow> legacy_evidence V source_chain tx"
  unfolding legacy_evidence_def by blast

lemma legacy_answers:
  "outputs (check_evm_legacy_destination V from_block m source_chain txs indices)
     (answers (legacy_evidence V) source_chain txs indices)"
  unfolding check_evm_legacy_destination_def
proof (rule outputs_tolerant)
  fix tx
  have approval: "outputs (legacy_approval_status V tx from_block m) (status_backed (legacy_evidence V source_chain tx))"
    unfolding legacy_approval_status_def
  proof (rule outputs_bind [OF outputs_lift], rule outputs_bind)
    fix h assume h: "required_payload_hash tx = Inr h"
    show "outputs (if m then find_approval V (pt_contract_addr tx) h None from_block
        else io_bind (io_lift (source_tx_hash_from_message_id V (pt_message_id tx)))
          (\<lambda>source_tx_hash. find_approval V (pt_contract_addr tx) h (Some source_tx_hash) from_block))
      (\<lambda>found. \<exists>k src. vn_find_approval V k (pt_contract_addr tx) h src from_block = Inr found)"
      by (auto intro!: outputs_bind [OF outputs_lift] outputs_weaken [OF outputs_evm(4)])
    fix found assume "\<exists>k src. vn_find_approval V k (pt_contract_addr tx) h src from_block = Inr found"
    then show "outputs (case found of None \<Rightarrow> io_return DPending | Some c \<Rightarrow> executed_or_approved V c)
        (status_backed (legacy_evidence V source_chain tx))"
      using h by (auto simp: outputs_basic required_payload_hash_def ok_or_def
          split: option.splits intro!: outputs_weaken [OF outputs_executed_or(1)]
          elim!: status_backed_mono intro: legacy_evidence_found)
  qed
  show "outputs (legacy_tx_status V tx from_block m) (status_backed (legacy_evidence V source_chain tx))"
    unfolding legacy_tx_status_def
    by (rule outputs_cases_phase)
      (auto simp: outputs_basic intro: approval legacy_evidence_known
        intro!: outputs_weaken [OF outputs_executed_or(2)] elim!: status_backed_mono)
qed

lemma chunks_concat [simp]: "concat (chunks n xs) = xs"
  by (induction n xs rule: chunks.induct) (subst chunks.simps, simp)

lemma solana_chunk_outputs:
  "outputs (solana_chunk V n chunk)
     (list_all2 (\<lambda>(i, cmd) (j, status). j = i \<and> (\<forall>b. status = Some b \<longrightarrow> b \<noteq> 0 \<longrightarrow> solana_executed V n cmd)) chunk)"
  unfolding solana_chunk_def
proof (rule outputs_bind [OF outputs_read_net], rule outputs_bind [OF outputs_ensure], rule outputs_bind [OF outputs_lift])
  fix accounts statuses
  assume read: "\<exists>k. vn_accounts V k (map (\<lambda>(_, cmd). vn_message_pda V n cmd) chunk) = Inr accounts"
    and len: "length accounts = length chunk" and st: "map_ok account_status accounts = Inr statuses"
  have "solana_executed V n (snd (chunk ! j))"
    if "j < length chunk" "statuses ! j = Some b" "b \<noteq> 0" for j b
  proof -
    have "account_status (accounts ! j) = Inr (Some b)"
      using st that len by (auto simp: map_ok_Inr list_all2_conv_all_nth)
    then obtain data where "accounts ! j = Some data" "data ! INCOMING_MESSAGE_STATUS_OFFSET = b"
      by (auto simp: account_status_def split: option.splits if_splits)
    then show ?thesis
      using read that unfolding solana_executed_def by (force simp: split_beta)
  qed
  then show "outputs (io_return (zip (map fst chunk) statuses))
     (list_all2 (\<lambda>(i, cmd) (j, status). j = i \<and> (\<forall>b. status = Some b \<longrightarrow> b \<noteq> 0 \<longrightarrow> solana_executed V n cmd)) chunk)"
    using st len by (auto simp: outputs_basic list_all2_conv_all_nth map_ok_Inr split_beta)
qed

lemma list_all2_concat:
  "list_all2 (list_all2 P) xss yss \<Longrightarrow> list_all2 P (concat xss) (concat yss)"
  by (induction rule: list_all2_induct) (auto intro: list_all2_appendI)

lemma batch_check_outputs:
  "outputs (batch_check_solana_incoming_messages V n txs)
     (list_all2 (\<lambda>(i, cmd) (j, status). j = i \<and> (\<forall>b. status = Some b \<longrightarrow> b \<noteq> 0 \<longrightarrow> solana_executed V n cmd)) txs)"
  unfolding batch_check_solana_incoming_messages_def
  by (rule outputs_bind [OF outputs_map [OF solana_chunk_outputs]])
    (auto simp: outputs_basic dest!: list_all2_concat)

lemma solana_answers:
  assumes "\<And>tx cmd. command tx = Inr cmd \<Longrightarrow> solana_executed V n cmd \<Longrightarrow> evidence source_chain tx"
  shows "outputs (solana_observations V n command txs indices) (answers evidence source_chain txs indices)"
  unfolding solana_observations_def
proof (rule outputs_bind [OF outputs_lift], rule outputs_bind [OF batch_check_outputs])
  fix data and results :: "(nat \<times> byte option) list"
  assume data: "map_ok (\<lambda>i. and_then (at_index txs i) (\<lambda>tx. and_then (command tx) (\<lambda>c. Inr (i, c)))) indices = Inr data"
    and results: "list_all2 (\<lambda>(i, cmd) (j, status). j = i \<and>
      (\<forall>b. status = Some b \<longrightarrow> b \<noteq> 0 \<longrightarrow> solana_executed V n cmd)) data results"
  have "i \<in> set indices \<and> i < length txs \<and> status_backed (evidence source_chain (txs ! i)) (solana_status status)"
    if seen: "(i, status) \<in> set results" for i status
  proof -
    obtain cmd where d: "(i, cmd) \<in> set data" and st: "\<forall>b. status = Some b \<longrightarrow> b \<noteq> 0 \<longrightarrow> solana_executed V n cmd"
      using list_all2_right [OF results seen] by auto
    then have "i \<in> set indices" "i < length txs" "command (txs ! i) = Inr cmd"
      using map_ok_right [OF data d] by (auto simp: at_index_Inr result_simps)
    then show ?thesis using st assms by (auto simp: solana_status_def split: option.splits)
  qed
  then show "outputs (io_return (map (\<lambda>(i, status). (i, solana_status status)) results))
     (answers evidence source_chain txs indices)"
    by (auto simp: outputs_basic answers_def status_backed_def)
qed

lemma stellar_view_outputs: "outputs (stellar_view V f) (\<lambda>r. r = Some True \<longrightarrow> (\<exists>k. f k = Inr (Some True)))"
  unfolding stellar_view_def
  by (rule outputs_bind [OF outputs_try [OF outputs_read_net]], rule outputs_weaken [OF outputs_lift])
    (auto simp: stellar_view_or_retry_def split: sum.splits option.splits)

lemma stellar_answers:
  "outputs (check_stellar_destination V source_chain txs indices) (answers (stellar_evidence V) source_chain txs indices)"
  unfolding check_stellar_destination_def
proof (rule outputs_strict)
  show "outputs (stellar_status V source_chain tx) (status_backed (stellar_evidence V source_chain tx))" for tx
    unfolding stellar_status_def
    by (rule outputs_bind [OF outputs_any], rule outputs_bind [OF outputs_any], rule outputs_cases_phase)
      (auto simp: outputs_basic stellar_evidence_def intro!: outputs_bind [OF stellar_view_outputs])
qed

lemma sui_status_outputs:
  "outputs (sui_status V gateway_pkg source_chain message_id tx)
     (status_backed (\<exists>k. vn_sui_executed V k (gateway_pkg @ ''::events::MessageExecuted'') source_chain message_id = Inr True))"
  unfolding sui_status_def
  by (rule outputs_bind [OF outputs_any], rule outputs_bind [OF outputs_read_net]) (auto simp: outputs_basic)

lemma sui_answers:
  "outputs (check_sui_destination V gateway_pkg source_chain txs indices)
     (answers (sui_evidence V gateway_pkg) source_chain txs indices)"
  unfolding check_sui_destination_def sui_evidence_def
  by (rule outputs_strict) (rule sui_status_outputs)

definition stellar_leg_executed :: "verify_env \<Rightarrow> second_leg \<Rightarrow> bool" where
  "stellar_leg_executed V leg = (\<exists>k. vn_stellar_executed V k ''axelar'' (sl_message_id leg) = Inr (Some True))"

definition xrpl_leg_delivered :: "verify_env \<Rightarrow> string \<Rightarrow> second_leg \<Rightarrow> bool" where
  "xrpl_leg_delivered V recipient_address leg =
     (\<exists>k x. vn_xrpl_inbound V k recipient_address (sl_message_id leg) = Inr (Some x))"

definition sui_leg_executed :: "verify_env \<Rightarrow> string \<Rightarrow> second_leg \<Rightarrow> bool" where
  "sui_leg_executed V gateway_pkg leg =
     (\<exists>k. vn_sui_executed V k (gateway_pkg @ ''::events::MessageExecuted'') ''axelar'' (sl_message_id leg) = Inr True)"

definition evm_leg_executed :: "verify_env \<Rightarrow> second_leg \<Rightarrow> bool" where
  "evm_leg_executed V leg = (\<exists>k. vn_message_executed V k ''axelar'' (sl_message_id leg) = Inr True)"

lemma required_second_leg_Inr [simp]: "(required_second_leg tx = Inr leg) = (pt_second_leg tx = Some leg)"
  by (auto simp: required_second_leg_def ok_or_def split: option.splits)

lemma leg_evidenceI [intro]: "pt_second_leg tx = Some leg \<Longrightarrow> P leg \<Longrightarrow> leg_evidence P source_chain tx"
  by (auto simp: leg_evidence_def)

lemma stellar_its_answers:
  "outputs (check_stellar_its V source_chain txs indices)
     (answers (leg_evidence (stellar_leg_executed V)) source_chain txs indices)"
  unfolding check_stellar_its_def
proof (rule outputs_strict)
  show "outputs (stellar_its_status V tx) (status_backed (leg_evidence (stellar_leg_executed V) source_chain tx))" for tx
    unfolding stellar_its_status_def
    by (rule outputs_bind [OF outputs_lift], rule outputs_cases_phase)
      (auto simp: outputs_basic leg_evidence_def stellar_leg_executed_def
        intro!: outputs_bind [OF outputs_any] outputs_bind [OF stellar_view_outputs])
qed

lemma xrpl_its_answers:
  "outputs (check_xrpl_its V recipient_address source_chain txs indices)
     (answers (leg_evidence (xrpl_leg_delivered V recipient_address)) source_chain txs indices)"
  unfolding check_xrpl_its_def
proof (rule outputs_strict)
  show "outputs (xrpl_its_status V recipient_address tx)
      (status_backed (leg_evidence (xrpl_leg_delivered V recipient_address) source_chain tx))" for tx
    unfolding xrpl_its_status_def
    by (rule outputs_bind [OF outputs_lift], rule outputs_bind [OF outputs_read_net])
      (auto simp: outputs_basic leg_evidence_def xrpl_leg_delivered_def)
qed

lemma sui_its_answers:
  "outputs (check_sui_its V gateway_pkg source_chain txs indices)
     (answers (leg_evidence (sui_leg_executed V gateway_pkg)) source_chain txs indices)"
  unfolding check_sui_its_def
proof (rule outputs_strict)
  show "outputs (sui_its_status V gateway_pkg tx)
      (status_backed (leg_evidence (sui_leg_executed V gateway_pkg) source_chain tx))" for tx
    unfolding sui_its_status_def
    by (rule outputs_bind [OF outputs_lift], rule outputs_weaken [OF sui_status_outputs])
      (auto simp: leg_evidence_def sui_leg_executed_def elim!: status_backed_mono)
qed

lemma its_requests:
  "map_ok (its_amplifier_request txs) indices = Inr requests \<Longrightarrow> (i, p, leg) \<in> set requests \<Longrightarrow>
   i \<in> set indices \<and> i < length txs \<and> pt_second_leg (txs ! i) = Some leg"
  by (drule (1) map_ok_right) (auto simp: its_amplifier_request_def at_index_Inr result_simps)

lemma its_amplifier_answers:
  "outputs (check_evm_its_amplifier V source_chain txs indices)
     (answers (leg_evidence (evm_leg_executed V)) source_chain txs indices)"
  unfolding check_evm_its_amplifier_def
proof (rule outputs_bind [OF outputs_lift], rule outputs_gathered, clarify)
  fix requests i p leg
  assume "map_ok (its_amplifier_request txs) indices = Inr requests" "(i, p, leg) \<in> set requests"
  note request = its_requests [OF this]
  show "outputs (its_amplifier_observe V (i, p, leg))
    (\<lambda>(i, s). i \<in> set indices \<and> i < length txs \<and>
       status_backed (leg_evidence (evm_leg_executed V) source_chain (txs ! i)) s)"
    unfolding its_amplifier_observe_def prod.case
    by (rule outputs_bind [OF outputs_any], rule outputs_bind [OF outputs_any], rule outputs_bind [OF outputs_evm(2)])
      (use request in \<open>auto simp: outputs_basic its_amplifier_status_def leg_evidence_def evm_leg_executed_def\<close>)
qed

lemma its_legacy_evidence_found:
  "vn_command_executed V k c = Inr True \<Longrightarrow> pt_second_leg tx = Some leg \<Longrightarrow>
   vn_parse_address V (sl_destination_address leg) = Some destination \<Longrightarrow>
   vn_find_approval V k' destination (sl_payload_hash leg) None from_block = Inr (Some c) \<Longrightarrow>
   its_legacy_evidence V source_chain tx"
  unfolding its_legacy_evidence_def by blast

lemma its_legacy_evidence_known:
  "vn_command_executed V k c = Inr True \<Longrightarrow> pt_command_id tx = Some c \<Longrightarrow> its_legacy_evidence V source_chain tx"
  unfolding its_legacy_evidence_def by blast

lemma its_legacy_answers:
  "outputs (check_evm_its_legacy V from_block source_chain txs indices)
     (answers (its_legacy_evidence V) source_chain txs indices)"
  unfolding check_evm_its_legacy_def
proof (rule outputs_tolerant)
  fix tx
  show "outputs (its_legacy_tx_status V from_block tx) (status_backed (its_legacy_evidence V source_chain tx))"
    unfolding its_legacy_tx_status_def
  proof (rule outputs_bind [OF outputs_lift], rule outputs_bind [OF outputs_lift], rule outputs_cases_phase)
    fix leg destination
    assume leg: "required_second_leg tx = Inr leg"
      and dest: "ok_or (vn_parse_address V (sl_destination_address leg)) ''invalid second-leg EVM destination address''
        = Inr destination"
    then show "outputs (io_bind (io_lift (required_second_leg_payload_hash tx)) (\<lambda>h.
         io_bind (find_approval V destination h None from_block) (\<lambda>found.
         case found of None \<Rightarrow> io_return DPending | Some c \<Rightarrow> executed_or_approved V c)))
       (status_backed (its_legacy_evidence V source_chain tx))"
      by (intro outputs_bind [OF outputs_lift] outputs_bind [OF outputs_evm(4)])
        (auto simp: outputs_basic required_second_leg_payload_hash_def result_simps
          split: option.splits intro!: outputs_weaken [OF outputs_executed_or(1)]
          elim!: status_backed_mono intro: its_legacy_evidence_found)
  qed (auto simp: outputs_basic intro: its_legacy_evidence_known
      intro!: outputs_weaken [OF outputs_executed_or(2)] elim!: status_backed_mono)
qed

lemma amplifier_since: "keeps (since t) (check_evm_amplifier_destination V b source_chain txs indices)"
  unfolding check_evm_amplifier_destination_def amplifier_observe_def
  by (intro keeps_bind keeps_map keeps_try keeps_prod) simp_all

lemma its_amplifier_since: "keeps (since t) (check_evm_its_amplifier V source_chain txs indices)"
  unfolding check_evm_its_amplifier_def its_amplifier_observe_def
  by (intro keeps_bind keeps_map keeps_try keeps_prod) simp_all

lemma solana_since: "keeps (since t) (solana_observations V n command txs indices)"
  unfolding solana_observations_def batch_check_solana_incoming_messages_def solana_chunk_def
  by (intro keeps_bind keeps_map) simp_all

text \<open>Each adapter of the program keeps the contract.\<close>

interpretation evm_amplifier: destination_verifier "check_evm_amplifier_destination V b" "amplifier_evidence V b" for V b
  by unfold_locales (rule amplifier_answers, rule amplifier_since)

interpretation evm_legacy: destination_verifier "check_evm_legacy_destination V from_block m" "legacy_evidence V"
  for V from_block m
  by unfold_locales (rule legacy_answers, simp add: check_evm_legacy_destination_def keeps_tolerant status_since)

interpretation solana: destination_verifier "check_solana_destination V n" "solana_evidence V n" for V n
  unfolding check_solana_destination_def
  by unfold_locales (auto intro!: solana_answers solana_since simp: solana_evidence_def result_simps)

interpretation stellar: destination_verifier "check_stellar_destination V" "stellar_evidence V" for V
  by unfold_locales (rule stellar_answers, simp add: check_stellar_destination_def keeps_strict status_since)

interpretation sui: destination_verifier "check_sui_destination V gateway_pkg" "sui_evidence V gateway_pkg"
  for V gateway_pkg
  by unfold_locales (rule sui_answers, simp add: check_sui_destination_def keeps_strict status_since)

interpretation solana_its: destination_verifier "check_solana_its V n"
    "leg_evidence (\<lambda>leg. solana_executed V n (vn_keccak V (''axelar-'' @ sl_message_id leg)))" for V n
  unfolding check_solana_its_def
  by unfold_locales (auto intro!: solana_answers solana_since simp: leg_evidence_def result_simps)

interpretation stellar_its: destination_verifier "check_stellar_its V" "leg_evidence (stellar_leg_executed V)" for V
  by unfold_locales (rule stellar_its_answers, simp add: check_stellar_its_def keeps_strict status_since)

interpretation xrpl_its: destination_verifier "check_xrpl_its V recipient_address"
    "leg_evidence (xrpl_leg_delivered V recipient_address)" for V recipient_address
  by unfold_locales (rule xrpl_its_answers, simp add: check_xrpl_its_def keeps_strict status_since)

interpretation sui_its: destination_verifier "check_sui_its V gateway_pkg"
    "leg_evidence (sui_leg_executed V gateway_pkg)" for V gateway_pkg
  by unfold_locales (rule sui_its_answers, simp add: check_sui_its_def keeps_strict status_since)

interpretation evm_its_amplifier: destination_verifier "check_evm_its_amplifier V" "leg_evidence (evm_leg_executed V)"
  for V
  by unfold_locales (rule its_amplifier_answers, rule its_amplifier_since)

interpretation evm_its_legacy: destination_verifier "check_evm_its_legacy V from_block" "its_legacy_evidence V"
  for V from_block
  by unfold_locales (rule its_legacy_answers, simp add: check_evm_its_legacy_def keeps_tolerant status_since)

text \<open>
  Without an observed approval the Amplifier check reads \<open>not approved, not executed\<close> as an
  execution: a message that the gateway has neither approved nor executed counts as executed.
\<close>

theorem amplifier_fast_path_unapproved:
  assumes "i < length txs" "phase_of (txs ! i) = Some Approved" "pt_payload_hash (txs ! i) = Some h"
    and "\<And>k. vn_message_approved V k source_chain (pt_message_id (txs ! i)) (pt_source_address (txs ! i))
           (pt_contract_addr (txs ! i)) h = Inr False"
    and "\<And>k. vn_message_executed V k source_chain (pt_message_id (txs ! i)) = Inr False"
  shows "fst (check_evm_amplifier_destination V False source_chain txs [i] w) = Inr [(i, DExecuted None)]"
  using assms
  by (simp add: check_evm_amplifier_destination_def amplifier_request_def at_index_def required_payload_hash_def
      List.map_filter_def amplifier_observe_def check_evm_is_message_approved_def check_evm_is_message_executed_def
      io_bind_def io_try_def retry_all_def retry_async_def read_net_def amplifier_status_def successes_def)

end
