(* ===== verification/Verify_Cosmos.thy ===== *)
theory Verify_Cosmos
  imports Verify_Destinations
begin

text \<open>
  The hub side of verification (\<open>pipeline/cosmos.rs\<close> and \<open>observe_contract_query\<close> of
  \<open>pipeline.rs\<close>): queries to the voting verifier, the chain gateways and the Axelarnet gateway.
  A query that fails for the moment answers \<open>not yet\<close> for every message of its batch.
\<close>

definition COSMOS_BATCH_SIZE :: nat where "COSMOS_BATCH_SIZE = 10"

definition typed_query ::
  "verify_env \<Rightarrow> string \<Rightarrow> string \<Rightarrow> json \<Rightarrow> (verify_world, cosmwasm_query_error + json) io" where
  "typed_query V lcd contract query w =
     (case lcd_cosmwasm_smart_query_typed (lcd_of V) lcd contract query w of (r, w') \<Rightarrow> (Inr r, w'))"

text \<open>\<open>None\<close> is the pending observation; \<open>decode\<close> is the deserialisation of the answer.\<close>

definition observe_contract_query ::
  "verify_env \<Rightarrow> (json \<Rightarrow> 'a option) \<Rightarrow> string \<Rightarrow> string \<Rightarrow> json \<Rightarrow> cosmwasm_query_pending
   \<Rightarrow> (verify_world, 'a option) io" where
  "observe_contract_query V decode lcd contract query pending =
     io_bind (typed_query V lcd contract query) (\<lambda>r.
     case r of
       Inr response \<Rightarrow>
         (case decode response of
            Some x \<Rightarrow> io_return (Some x)
          | None \<Rightarrow> io_raise (Report ''CosmWasm verification response had an unexpected shape''))
     | Inl e \<Rightarrow>
         if is_pending e pending \<or> is_transient e then io_return None
         else io_raise (Report ''CosmWasm verification query failed''))"

text \<open>A list whose elements only matter by being null or not.\<close>

definition presence_list :: "json \<Rightarrow> bool list option" where
  "presence_list v = (case v of JArray vs \<Rightarrow> Some (map (\<lambda>x. x \<noteq> JNull) vs) | _ \<Rightarrow> None)"

text \<open>The status of one vote: null, an object with a text member, or its one-element array form.\<close>

definition voting_status :: "json \<Rightarrow> string option result" where
  "voting_status v =
     (case v of
        JNull \<Rightarrow> Inr None
      | JObject _ \<Rightarrow>
          (case json_get ''status'' v of
             Some (JString s) \<Rightarrow> Inr (Some s)
           | _ \<Rightarrow> Inl (Report ''invalid VotingVerifier response''))
      | JArray [JString s] \<Rightarrow> Inr (Some s)
      | _ \<Rightarrow> Inl (Report ''invalid VotingVerifier response''))"

definition voting_statuses :: "json \<Rightarrow> string option list result" where
  "voting_statuses v =
     (case v of
        JArray vs \<Rightarrow> map_ok voting_status vs
      | _ \<Rightarrow> Inl (Report ''invalid VotingVerifier response''))"

definition cc_id :: "string \<Rightarrow> string \<Rightarrow> json" where
  "cc_id source_chain message_id =
     JObject [(''source_chain'', JString source_chain), (''message_id'', JString message_id)]"

definition check_cosmos_routed ::
  "verify_env \<Rightarrow> string \<Rightarrow> string \<Rightarrow> string \<Rightarrow> string \<Rightarrow> (verify_world, bool) io" where
  "check_cosmos_routed V lcd cosm_gateway source_chain message_id =
     io_bind (observe_contract_query V presence_list lcd cosm_gateway
       (JObject [(''outgoing_messages'', JArray [cc_id source_chain message_id])]) OutgoingMessage) (\<lambda>r.
     io_return (case r of None \<Rightarrow> False | Some items \<Rightarrow> list_ex id items))"

definition check_hub_approved ::
  "verify_env \<Rightarrow> string \<Rightarrow> string \<Rightarrow> string \<Rightarrow> string \<Rightarrow> (verify_world, bool) io" where
  "check_hub_approved V lcd axelarnet_gateway source_chain message_id =
     io_bind (observe_contract_query V presence_list lcd axelarnet_gateway
       (JObject [(''executable_messages'', JObject [(''cc_ids'', JArray [cc_id source_chain message_id])])])
       ExecutableMessage) (\<lambda>r.
     io_return (case r of None \<Rightarrow> False | Some items \<Rightarrow> list_ex id items))"

type_synonym voted_entry = "nat \<times> string \<times> string \<times> string"

definition status_query :: "string \<Rightarrow> string \<Rightarrow> string \<Rightarrow> voted_entry \<Rightarrow> json" where
  "status_query source_chain destination_chain destination_address entry =
     (case entry of (_, message_id, source_address, payload_hash) \<Rightarrow>
        JObject
          [(''cc_id'', cc_id source_chain message_id),
           (''source_address'', JString source_address),
           (''destination_chain'', JString destination_chain),
           (''destination_address'', JString destination_address),
           (''payload_hash'', JString payload_hash)])"

definition not_yet :: "(nat \<times> 'a) list \<Rightarrow> (nat \<times> bool) list" where
  "not_yet chunk = map (\<lambda>(i, _). (i, False)) chunk"

definition voting_verifier_chunk ::
  "verify_env \<Rightarrow> string \<Rightarrow> string \<Rightarrow> string \<Rightarrow> string \<Rightarrow> string \<Rightarrow> voted_entry list
   \<Rightarrow> (verify_world, (nat \<times> bool) list) io" where
  "voting_verifier_chunk V lcd voting_verifier source_chain destination_chain destination_address chunk =
     io_bind (typed_query V lcd voting_verifier
       (JObject [(''messages_status'',
          JArray (map (status_query source_chain destination_chain destination_address) chunk))])) (\<lambda>r.
     case r of
       Inl e \<Rightarrow>
         if is_transient e then io_return (not_yet chunk)
         else io_raise (Report ''VotingVerifier query failed'')
     | Inr response \<Rightarrow>
         io_bind (io_lift (voting_statuses response)) (\<lambda>items.
         io_bind (io_ensure (length items = length chunk)
           ''VotingVerifier messages_status returned a different number of items'') (\<lambda>_.
         io_return (map (\<lambda>(item, (i, _)). (i,
             case item of None \<Rightarrow> False | Some s \<Rightarrow> contains ''succeeded'' (map to_lower s)))
           (zip items chunk)))))"

definition batch_check_voting_verifier_owned ::
  "verify_env \<Rightarrow> string \<Rightarrow> string \<Rightarrow> string \<Rightarrow> string \<Rightarrow> string \<Rightarrow> voted_entry list
   \<Rightarrow> (verify_world, (nat \<times> bool) list) io" where
  "batch_check_voting_verifier_owned V lcd voting_verifier source_chain destination_chain destination_address transactions =
     io_bind (io_map (voting_verifier_chunk V lcd voting_verifier source_chain destination_chain destination_address)
       (chunks COSMOS_BATCH_SIZE transactions)) (\<lambda>results.
     io_return (concat results))"

definition presence_chunk ::
  "verify_env \<Rightarrow> string \<Rightarrow> string \<Rightarrow> (json list \<Rightarrow> json) \<Rightarrow> cosmwasm_query_pending \<Rightarrow> string \<Rightarrow> (nat \<times> string) list
   \<Rightarrow> (verify_world, (nat \<times> bool) list) io" where
  "presence_chunk V lcd contract query pending source_chain chunk =
     io_bind (observe_contract_query V presence_list lcd contract
       (query (map (\<lambda>(_, message_id). cc_id source_chain message_id) chunk)) pending) (\<lambda>r.
     case r of
       None \<Rightarrow> io_return (not_yet chunk)
     | Some items \<Rightarrow>
         io_bind (io_ensure (length items = length chunk)
           ''the gateway returned a different number of items'') (\<lambda>_.
         io_return (map (\<lambda>(item, (i, _)). (i, item)) (zip items chunk))))"

definition batch_check_cosmos_routed_owned ::
  "verify_env \<Rightarrow> string \<Rightarrow> string \<Rightarrow> string \<Rightarrow> (nat \<times> string) list \<Rightarrow> (verify_world, (nat \<times> bool) list) io" where
  "batch_check_cosmos_routed_owned V lcd cosm_gateway source_chain transactions =
     io_bind (io_map (presence_chunk V lcd cosm_gateway
         (\<lambda>cc_ids. JObject [(''outgoing_messages'', JArray cc_ids)]) OutgoingMessage source_chain)
       (chunks COSMOS_BATCH_SIZE transactions)) (\<lambda>results.
     io_return (concat results))"

definition batch_check_hub_approved_owned ::
  "verify_env \<Rightarrow> string \<Rightarrow> string \<Rightarrow> string \<Rightarrow> (nat \<times> string) list \<Rightarrow> (verify_world, (nat \<times> bool) list) io" where
  "batch_check_hub_approved_owned V lcd axelarnet_gateway source_chain transactions =
     io_bind (io_map (presence_chunk V lcd axelarnet_gateway
         (\<lambda>cc_ids. JObject [(''executable_messages'', JObject [(''cc_ids'', JArray cc_ids)])])
         ExecutableMessage source_chain)
       (chunks COSMOS_BATCH_SIZE transactions)) (\<lambda>results.
     io_return (concat results))"

subsection \<open>Every message of a batch gets one answer\<close>

lemma typed_query_since [simp]: "keeps (since t) (typed_query V lcd contract query)"
  unfolding keeps_def typed_query_def using smart_query_since [of t] by (auto split: prod.splits) (metis snd_conv)

lemma observe_since [simp]: "keeps (since t) (observe_contract_query V decode lcd contract query pending)"
  unfolding observe_contract_query_def by (intro keeps_bind keeps_sum keeps_option keeps_if) simp_all

lemma single_check_since:
  "keeps (since t) (check_cosmos_routed V lcd cosm_gateway source_chain message_id)"
  "keeps (since t) (check_hub_approved V lcd axelarnet_gateway source_chain message_id)"
  unfolding check_cosmos_routed_def check_hub_approved_def by (intro keeps_bind; simp)+

lemma batch_since [simp]:
  "keeps (since t) (batch_check_voting_verifier_owned V lcd vv source_chain destination_chain destination_address voted)"
  "keeps (since t) (batch_check_cosmos_routed_owned V lcd gateway source_chain entries)"
  "keeps (since t) (batch_check_hub_approved_owned V lcd gateway source_chain entries)"
  unfolding batch_check_voting_verifier_owned_def batch_check_cosmos_routed_owned_def
    batch_check_hub_approved_owned_def voting_verifier_chunk_def presence_chunk_def
  by (intro keeps_bind keeps_map keeps_sum keeps_option keeps_if; simp)+

lemma not_yet_indices [simp]: "map fst (not_yet chunk) = map fst chunk"
  by (simp add: not_yet_def split_beta)

lemma zip_indices: "length items = length chunk \<Longrightarrow> map fst (map (\<lambda>(item, (i, _)). (i, f item)) (zip items chunk)) = map fst chunk"
  by (rule nth_equalityI) (auto simp: split_beta)

lemma voting_chunk_indices:
  "outputs (voting_verifier_chunk V lcd vv source_chain destination_chain destination_address chunk)
     (\<lambda>rs. map fst rs = map fst chunk)"
  unfolding voting_verifier_chunk_def
proof (rule outputs_bind [OF outputs_any], goal_cases)
  case (1 r)
  then show ?case
  proof (cases r)
    case (Inr response)
    then show ?thesis
      by (auto intro!: outputs_bind [OF outputs_any] outputs_bind [OF outputs_ensure]
          simp: outputs_basic simp del: map_map intro: zip_indices)
  qed (auto simp: outputs_basic)
qed

lemma presence_chunk_indices:
  "outputs (presence_chunk V lcd contract query pending source_chain chunk) (\<lambda>rs. map fst rs = map fst chunk)"
  unfolding presence_chunk_def
  by (rule outputs_bind [OF outputs_any])
    (auto split: option.splits intro!: outputs_bind [OF outputs_ensure] zip_indices [where f = "\<lambda>x. x"]
      simp: outputs_basic simp del: map_map)

lemma batch_indices:
  assumes "\<And>chunk. outputs (f chunk) (\<lambda>rs. map fst rs = map fst chunk)"
  shows "outputs (io_bind (io_map f (chunks n entries)) (\<lambda>results. io_return (concat results)))
     (\<lambda>rs. map fst rs = map fst entries)"
proof (rule outputs_bind [OF outputs_map [OF assms]])
  fix results assume "list_all2 (\<lambda>chunk rs. map fst rs = map fst chunk) (chunks n entries) results"
  then have "map fst (concat results) = map fst (concat (chunks n entries))"
    by (induction rule: list_all2_induct) auto
  then show "outputs (io_return (concat results)) (\<lambda>rs. map fst rs = map fst entries)"
    by (simp add: outputs_basic)
qed

lemma batch_check_indices:
  "outputs (batch_check_voting_verifier_owned V lcd vv source_chain destination_chain destination_address voted)
     (\<lambda>rs. map fst rs = map fst voted)"
  "outputs (batch_check_cosmos_routed_owned V lcd gateway source_chain entries) (\<lambda>rs. map fst rs = map fst entries)"
  "outputs (batch_check_hub_approved_owned V lcd gateway source_chain entries) (\<lambda>rs. map fst rs = map fst entries)"
  unfolding batch_check_voting_verifier_owned_def batch_check_cosmos_routed_owned_def batch_check_hub_approved_owned_def
  by (intro batch_indices voting_chunk_indices presence_chunk_indices)+

end
