(* ===== verification/Verify_Report.thy ===== *)
theory Verify_Report
  imports Verify_State "HOL-Library.AList"
begin

text \<open>
  The report of a verification run (\<open>verification/engine/report.rs\<close>): throughput per pipeline
  step and the tally of outcomes.  A hash map is an association list in the order of first
  insertion; nothing here depends on that order.
\<close>

record peak_throughput =
  pk_voted_tps :: "rat option"
  pk_routed_tps :: "rat option"
  pk_hub_approved_tps :: "rat option"
  pk_approved_tps :: "rat option"
  pk_executed_tps :: "rat option"

definition no_throughput :: peak_throughput where
  "no_throughput = \<lparr> pk_voted_tps = None, pk_routed_tps = None, pk_hub_approved_tps = None,
     pk_approved_tps = None, pk_executed_tps = None \<rparr>"

datatype failure_category_kind = KindError | KindTimedOut

record failure_category =
  fc_reason :: string
  fc_count :: u64
  fc_kind :: failure_category_kind

record verification_report =
  vr_total_verified :: u64
  vr_successful :: u64
  vr_pending :: u64
  vr_failed :: u64
  vr_success_rate :: rat
  vr_failure_reasons :: "failure_category list"
  vr_avg_voted_secs :: "rat option"
  vr_avg_routed_secs :: "rat option"
  vr_avg_hub_approved_secs :: "rat option"
  vr_avg_approved_secs :: "rat option"
  vr_avg_executed_secs :: "rat option"
  vr_min_executed_secs :: "rat option"
  vr_max_executed_secs :: "rat option"
  vr_time_to_last_success_secs :: "rat option"
  vr_peak_throughput :: peak_throughput
  vr_stuck :: u64
  vr_stuck_at :: "failure_category list"
  vr_recovered_via_api :: u64

text \<open>\<open>Iterator::reduce\<close>, \<open>min\<close> and \<open>max\<close> of an iterator.\<close>

definition reduce :: "('a \<Rightarrow> 'a \<Rightarrow> 'a) \<Rightarrow> 'a list \<Rightarrow> 'a option" where
  "reduce f xs = (case xs of [] \<Rightarrow> None | y # ys \<Rightarrow> Some (foldl f y ys))"

definition avg_option :: "rat list \<Rightarrow> rat option" where
  "avg_option vals = (if vals = [] then None else Some (sum_list vals / of_nat (length vals)))"

definition min_option :: "rat list \<Rightarrow> rat option" where
  "min_option vals = reduce min vals"

definition max_option :: "rat list \<Rightarrow> rat option" where
  "max_option vals = reduce max vals"

definition MIN_WINDOW_SECS :: rat where "MIN_WINDOW_SECS = 5"

definition sustained_rate :: "rat list \<Rightarrow> rat option" where
  "sustained_rate offsets =
     (if length offsets < 2 then None
      else
        (case (reduce min offsets, reduce max offsets) of
           (Some lo, Some hi) \<Rightarrow> Some (of_nat (length offsets) / max (hi - lo) MIN_WINDOW_SECS)
         | _ \<Rightarrow> None))"

definition compute_peak_throughput :: "pending_tx list \<Rightarrow> peak_throughput" where
  "compute_peak_throughput txs =
     (case reduce min (map pt_send_instant txs) of
        None \<Rightarrow> no_throughput
      | Some epoch \<Rightarrow>
          let offsets = \<lambda>slot. List.map_filter (\<lambda>tx.
                map_option (\<lambda>s. secs_between epoch (pt_send_instant tx) + s) (slot (pt_timing tx))) txs in
          \<lparr> pk_voted_tps = sustained_rate (offsets at_voted_secs),
            pk_routed_tps = sustained_rate (offsets at_routed_secs),
            pk_hub_approved_tps = sustained_rate (offsets at_hub_approved_secs),
            pk_approved_tps = sustained_rate (offsets at_approved_secs),
            pk_executed_tps = sustained_rate (offsets at_executed_secs) \<rparr>)"

definition stuck_phase :: "pending_tx \<Rightarrow> string" where
  "stuck_phase tx =
     (case phase_of tx of
        Some Voted \<Rightarrow> ''voted''
      | Some Routed \<Rightarrow> ''routed''
      | Some HubApproved \<Rightarrow> ''hub approved''
      | Some DiscoverSecondLeg \<Rightarrow> ''second-leg discovery''
      | Some Approved \<Rightarrow> ''approved''
      | Some Executed \<Rightarrow> ''executed''
      | None \<Rightarrow> ''unknown'')"

definition bump_count :: "'k \<Rightarrow> ('k \<times> u64) list \<Rightarrow> ('k \<times> u64) list" where
  "bump_count k m = AList.update k ((case map_of m k of Some c \<Rightarrow> c | None \<Rightarrow> 0) + 1) m"

text \<open>The mutable variables of the loop over the transactions.\<close>

record tally_state =
  ty_metrics :: "tx_metrics list"
  ty_successful :: u64
  ty_failed :: u64
  ty_failure_reasons :: "((string \<times> failure_category_kind) \<times> u64) list"
  ty_stuck_count :: u64
  ty_stuck_phases :: "(string \<times> u64) list"
  ty_recovered_via_api :: u64

definition write_timing :: "pending_tx \<Rightarrow> tx_metrics list \<Rightarrow> tx_metrics list" where
  "write_timing tx metrics =
     (if pt_idx tx < length metrics
      then metrics[pt_idx tx := (metrics ! pt_idx tx)\<lparr> tm_amplifier_timing := Some (pt_timing tx) \<rparr>]
      else metrics)"

definition tally_failure :: "pending_tx \<Rightarrow> tally_state \<Rightarrow> tally_state" where
  "tally_failure tx s =
     (let s = s\<lparr> ty_failed := ty_failed s + 1 \<rparr> in
      case failure_reason tx of
        None \<Rightarrow> s
      | Some reason \<Rightarrow>
          let kind = (if is_timed_out tx then KindTimedOut else KindError);
              s = s\<lparr> ty_failure_reasons := bump_count (reason, kind) (ty_failure_reasons s) \<rparr> in
          if is_timed_out tx
          then s\<lparr> ty_stuck_count := ty_stuck_count s + 1,
                 ty_stuck_phases := bump_count (stuck_phase tx) (ty_stuck_phases s) \<rparr>
          else s)"

definition tally :: "pending_tx \<Rightarrow> tally_state \<Rightarrow> tally_state" where
  "tally tx s =
     (let s = s\<lparr> ty_metrics := write_timing tx (ty_metrics s) \<rparr>;
          s = (if recovered_via_api tx then s\<lparr> ty_recovered_via_api := ty_recovered_via_api s + 1 \<rparr> else s) in
      if is_failed tx then tally_failure tx s
      else if at_executed_ok (pt_timing tx) = Some True then s\<lparr> ty_successful := ty_successful s + 1 \<rparr>
      else s)"

definition empty_tally :: "tx_metrics list \<Rightarrow> tally_state" where
  "empty_tally metrics =
     \<lparr> ty_metrics = metrics, ty_successful = 0, ty_failed = 0, ty_failure_reasons = [],
       ty_stuck_count = 0, ty_stuck_phases = [], ty_recovered_via_api = 0 \<rparr>"

text \<open>Instants after an execution, in nanoseconds.\<close>

definition execution_instant :: "pending_tx \<Rightarrow> rat option" where
  "execution_instant tx =
     (if at_executed_ok (pt_timing tx) = Some True
      then map_option (\<lambda>s. of_nat (pt_send_instant tx) + s * 1000000000) (at_executed_secs (pt_timing tx))
      else None)"

definition time_to_last_success :: "pending_tx list \<Rightarrow> rat option" where
  "time_to_last_success txs =
     (case (reduce min (map pt_send_instant txs), reduce max (List.map_filter execution_instant txs)) of
        (Some start, Some stop) \<Rightarrow>
          if stop > of_nat start then Some ((stop - of_nat start) / 1000000000) else None
      | _ \<Rightarrow> None)"

definition compute_verification_report ::
  "pending_tx list \<Rightarrow> tx_metrics list \<Rightarrow> peak_throughput \<Rightarrow> verification_report \<times> tx_metrics list" where
  "compute_verification_report txs metrics peak =
     (let s = fold tally txs (empty_tally metrics);
          total_verified = ty_successful s + ty_failed s;
          slot = \<lambda>f. List.map_filter (\<lambda>tx. f (pt_timing tx)) txs in
      (\<lparr> vr_total_verified = total_verified,
         vr_successful = ty_successful s,
         vr_pending = 0,
         vr_failed = ty_failed s,
         vr_success_rate = (if total_verified > 0 then u64_rat (ty_successful s) / u64_rat total_verified else 0),
         vr_failure_reasons =
           map (\<lambda>((reason, kind), n). \<lparr> fc_reason = reason, fc_count = n, fc_kind = kind \<rparr>) (ty_failure_reasons s),
         vr_avg_voted_secs = avg_option (slot at_voted_secs),
         vr_avg_routed_secs = avg_option (slot at_routed_secs),
         vr_avg_hub_approved_secs = avg_option (slot at_hub_approved_secs),
         vr_avg_approved_secs = avg_option (slot at_approved_secs),
         vr_avg_executed_secs = avg_option (slot at_executed_secs),
         vr_min_executed_secs = min_option (slot at_executed_secs),
         vr_max_executed_secs = max_option (slot at_executed_secs),
         vr_time_to_last_success_secs = time_to_last_success txs,
         vr_peak_throughput = peak,
         vr_stuck = ty_stuck_count s,
         vr_stuck_at =
           map (\<lambda>(reason, n). \<lparr> fc_reason = reason, fc_count = n, fc_kind = KindTimedOut \<rparr>) (ty_stuck_phases s),
         vr_recovered_via_api = ty_recovered_via_api s \<rparr>,
       ty_metrics s))"

subsection \<open>What the tally counts\<close>

lemma sum_update:
  "sum_list (map snd (AList.update k v m)) =
     sum_list (map snd m) - (case map_of m k of Some c \<Rightarrow> c | None \<Rightarrow> 0) + v" for v :: u64
  by (induction m) auto

lemma sum_bump [simp]: "sum_list (map snd (bump_count k m)) = sum_list (map snd m) + 1"
  by (simp add: bump_count_def sum_update)

definition is_ok_settled :: "pending_tx \<Rightarrow> bool" where
  "is_ok_settled tx = (\<not> is_failed tx \<and> at_executed_ok (pt_timing tx) = Some True)"

lemma is_timed_out_failed: "is_timed_out tx \<Longrightarrow> is_failed tx"
  by (auto simp: is_timed_out_def is_failed_def split: verification_state.splits)

lemma failed_has_reason: "is_failed tx \<Longrightarrow> \<exists>r. failure_reason tx = Some r"
  by (auto simp: is_failed_def failure_reason_def split: verification_state.splits)

lemma tally_fields [simp]:
  "ty_successful (tally tx s) = ty_successful s + (if is_ok_settled tx then 1 else 0)"
  "ty_failed (tally tx s) = ty_failed s + (if is_failed tx then 1 else 0)"
  "ty_stuck_count (tally tx s) = ty_stuck_count s + (if is_timed_out tx then 1 else 0)"
  "ty_recovered_via_api (tally tx s) = ty_recovered_via_api s + (if recovered_via_api tx then 1 else 0)"
  "ty_metrics (tally tx s) = write_timing tx (ty_metrics s)"
  "sum_list (map snd (ty_failure_reasons (tally tx s))) =
     sum_list (map snd (ty_failure_reasons s)) + (if is_failed tx then 1 else 0)"
  "sum_list (map snd (ty_stuck_phases (tally tx s))) =
     sum_list (map snd (ty_stuck_phases s)) + (if is_timed_out tx then 1 else 0)"
  using is_timed_out_failed [of tx] failed_has_reason [of tx]
  by (auto simp: tally_def tally_failure_def is_ok_settled_def Let_def split: option.splits)

lemma fold_tally_count:
  fixes count :: "tally_state \<Rightarrow> u64"
  assumes "\<And>tx s. count (tally tx s) = count s + (if P tx then 1 else 0)"
  shows "count (fold tally txs s) = count s + of_nat (length (filter P txs))"
  by (induction txs arbitrary: s) (simp_all add: assms)

lemma filter_count: "length xs < 2 ^ 64 \<Longrightarrow> unat (of_nat (length (filter P xs)) :: u64) = length (filter P xs)"
  using le_less_trans [OF length_filter_le [of P xs]] by (simp add: unat_of_nat)

lemma write_timing_length [simp]: "length (write_timing tx metrics) = length metrics"
  by (simp add: write_timing_def)

lemma fold_tally_metrics: "length (ty_metrics (fold tally txs s)) = length (ty_metrics s)"
  by (induction txs arbitrary: s) simp_all

lemma report_counts:
  assumes "compute_verification_report txs metrics peak = (r, metrics')" and "length txs < 2 ^ 64"
  shows "unat (vr_successful r) = length (filter is_ok_settled txs)"
    "unat (vr_failed r) = length (filter is_failed txs)"
    "unat (vr_stuck r) = length (filter is_timed_out txs)"
    "unat (vr_recovered_via_api r) = length (filter recovered_via_api txs)"
    "vr_total_verified r = vr_successful r + vr_failed r"
    "vr_failed r = sum_list (map fc_count (vr_failure_reasons r))"
    "vr_stuck r = sum_list (map fc_count (vr_stuck_at r))"
    "vr_success_rate r = (if vr_total_verified r > 0 then u64_rat (vr_successful r) / u64_rat (vr_total_verified r) else 0)"
    "length metrics' = length metrics"
proof -
  let ?s = "fold tally txs (empty_tally metrics)"
  have r: "vr_successful r = ty_successful ?s" "vr_failed r = ty_failed ?s" "vr_stuck r = ty_stuck_count ?s"
      "vr_recovered_via_api r = ty_recovered_via_api ?s" "vr_total_verified r = ty_successful ?s + ty_failed ?s"
      "map fc_count (vr_failure_reasons r) = map snd (ty_failure_reasons ?s)"
      "map fc_count (vr_stuck_at r) = map snd (ty_stuck_phases ?s)" "metrics' = ty_metrics ?s"
    using assms(1) by (auto simp: compute_verification_report_def Let_def comp_def split_beta)
  have counts: "ty_successful ?s = of_nat (length (filter is_ok_settled txs))"
      "ty_failed ?s = of_nat (length (filter is_failed txs))"
      "ty_stuck_count ?s = of_nat (length (filter is_timed_out txs))"
      "ty_recovered_via_api ?s = of_nat (length (filter recovered_via_api txs))"
    using fold_tally_count [of ty_successful is_ok_settled] fold_tally_count [of ty_failed is_failed]
      fold_tally_count [of ty_stuck_count is_timed_out] fold_tally_count [of ty_recovered_via_api recovered_via_api]
    by (simp_all add: empty_tally_def)
  have sums: "sum_list (map snd (ty_failure_reasons ?s)) = of_nat (length (filter is_failed txs))"
      "sum_list (map snd (ty_stuck_phases ?s)) = of_nat (length (filter is_timed_out txs))"
    using fold_tally_count [of "\<lambda>s. sum_list (map snd (ty_failure_reasons s))" is_failed txs "empty_tally metrics"]
      fold_tally_count [of "\<lambda>s. sum_list (map snd (ty_stuck_phases s))" is_timed_out txs "empty_tally metrics"]
    by (simp_all add: empty_tally_def)
  show "unat (vr_successful r) = length (filter is_ok_settled txs)" "unat (vr_failed r) = length (filter is_failed txs)"
    "unat (vr_stuck r) = length (filter is_timed_out txs)"
    "unat (vr_recovered_via_api r) = length (filter recovered_via_api txs)"
    unfolding r counts using filter_count [OF assms(2)] by blast+
  show "vr_total_verified r = vr_successful r + vr_failed r" by (simp add: r)
  show "vr_failed r = sum_list (map fc_count (vr_failure_reasons r))" "vr_stuck r = sum_list (map fc_count (vr_stuck_at r))"
    unfolding r sums counts by (rule refl)+
  show "vr_success_rate r = (if vr_total_verified r > 0 then u64_rat (vr_successful r) / u64_rat (vr_total_verified r) else 0)"
    using assms(1) by (auto simp: compute_verification_report_def Let_def)
  show "length metrics' = length metrics" by (simp add: r fold_tally_metrics empty_tally_def)
qed

end
