(* ===== verification/Verify_Pipeline.thy ===== *)
theory Verify_Pipeline
  imports Verify_Cosmos Verify_Report "HOL-Library.Multiset"
begin

text \<open>
  The polling loop that verifies GMP messages (\<open>verification/engine/pipeline.rs\<close>,
  \<open>pipeline/scheduler.rs\<close> and the inactivity budget of \<open>engine.rs\<close>).  The state of a run is the
  clock and call counter of the environment, the transactions, and the two instants the
  scheduler and the fail-fast sweep remember.  What the sender hands over between two polls, and
  whether it has finished, is a function of the number of the poll.  Progress display is not
  modelled.
\<close>

subsection \<open>Budget and intervals\<close>

definition DEFAULT_INACTIVITY_TIMEOUT :: nat where "DEFAULT_INACTIVITY_TIMEOUT = seconds 7200"
definition POLL_INTERVAL :: nat where "POLL_INTERVAL = seconds 5"
definition GMP_API_RECHECK_TIMEOUT :: nat where "GMP_API_RECHECK_TIMEOUT = seconds 15"
definition GMP_API_RECHECK_ATTEMPTS :: nat where "GMP_API_RECHECK_ATTEMPTS = 3"
definition GMP_API_RECHECK_BACKOFF :: nat where "GMP_API_RECHECK_BACKOFF = seconds 10"
definition GMP_FAIL_CHECK_INTERVAL :: nat where "GMP_FAIL_CHECK_INTERVAL = seconds 120"

definition budget_from :: "u64 option \<Rightarrow> bool \<Rightarrow> nat" where
  "budget_from override_secs sending_complete =
     (case override_secs of
        Some secs \<Rightarrow> seconds (unat secs)
      | None \<Rightarrow> if sending_complete then DEFAULT_INACTIVITY_TIMEOUT else DEFAULT_INACTIVITY_TIMEOUT * 2)"

subsection \<open>The state of a run\<close>

record poll_world =
  pw_net :: verify_world
  pw_txs :: "pending_tx list"
  pw_last_progress :: nat
  pw_last_check :: nat
  pw_polls :: nat

definition on_net :: "(verify_world, 'a) io \<Rightarrow> (poll_world, 'a) io" where
  "on_net m w = (case m (pw_net w) of (r, n) \<Rightarrow> (r, w\<lparr> pw_net := n \<rparr>))"

abbreviation poll_now :: "poll_world \<Rightarrow> nat" where
  "poll_now w \<equiv> vw_now (pw_net w)"

definition mark_progress :: "(poll_world, unit) io" where
  "mark_progress = io_modify (\<lambda>w. w\<lparr> pw_last_progress := poll_now w \<rparr>)"

definition with_txs :: "(nat \<Rightarrow> pending_tx list \<Rightarrow> (bool \<times> pending_tx list) result) \<Rightarrow> (poll_world, bool) io" where
  "with_txs f w =
     (case f (poll_now w) (pw_txs w) of
        Inl e \<Rightarrow> (Inl e, w)
      | Inr (moved, txs) \<Rightarrow> (Inr moved, w\<lparr> pw_txs := txs \<rparr>))"

subsection \<open>Applying observations\<close>

definition elapsed :: "nat \<Rightarrow> pending_tx \<Rightarrow> secs" where
  "elapsed now tx = secs_between (pt_send_instant tx) now"

definition stamp :: "(amplifier_timing \<Rightarrow> amplifier_timing) \<Rightarrow> pending_tx \<Rightarrow> pending_tx" where
  "stamp f tx = tx\<lparr> pt_timing := f (pt_timing tx) \<rparr>"

type_synonym timing_slot = "secs \<Rightarrow> amplifier_timing \<Rightarrow> amplifier_timing"

definition voted_slot :: timing_slot where "voted_slot s t = t\<lparr> at_voted_secs := Some s \<rparr>"
definition routed_slot :: timing_slot where "routed_slot s t = t\<lparr> at_routed_secs := Some s \<rparr>"
definition hub_approved_slot :: timing_slot where "hub_approved_slot s t = t\<lparr> at_hub_approved_secs := Some s \<rparr>"

text \<open>One pass over indexed results, updating the transaction each of them is about.\<close>

fun apply_each ::
  "('a \<Rightarrow> pending_tx \<Rightarrow> bool \<times> pending_tx) \<Rightarrow> (nat \<times> 'a) list \<Rightarrow> pending_tx list \<Rightarrow> (bool \<times> pending_tx list) result" where
  "apply_each f [] txs = Inr (False, txs)"
| "apply_each f ((i, x) # rest) txs =
     and_then (at_index txs i) (\<lambda>tx.
     and_then (apply_each f rest (txs[i := snd (f x tx)])) (\<lambda>(moved, txs').
     Inr (fst (f x tx) \<or> moved, txs')))"

definition apply_cosmos_results ::
  "timing_slot \<Rightarrow> phase \<Rightarrow> (nat \<times> bool) list \<Rightarrow> nat \<Rightarrow> pending_tx list \<Rightarrow> (bool \<times> pending_tx list) result" where
  "apply_cosmos_results slot next_phase results now txs =
     apply_each (\<lambda>_ tx. transition_to next_phase (stamp (slot (elapsed now tx)) tx)) (filter snd results) txs"

definition apply_observation :: "nat \<Rightarrow> destination_status \<Rightarrow> pending_tx \<Rightarrow> bool \<times> pending_tx" where
  "apply_observation now status tx =
     (if \<not> is_active tx then (False, tx)
      else
        (case status of
           DPending \<Rightarrow> (False, tx)
         | DApproved command_id \<Rightarrow>
             if is_phase tx Approved
             then approve_destination command_id
               (stamp (\<lambda>t. t\<lparr> at_approved_secs := Some (elapsed now tx) \<rparr>) tx)
             else (False, tx)
         | DExecuted command_id \<Rightarrow>
             execute_destination command_id
               (stamp (\<lambda>t. t\<lparr>
                  at_approved_secs := (if at_approved_secs t = None then Some (elapsed now tx) else at_approved_secs t),
                  at_executed_secs := Some (elapsed now tx), at_executed_ok := Some True \<rparr>) tx)))"

definition apply_destination_observations ::
  "destination_observation list \<Rightarrow> nat \<Rightarrow> pending_tx list \<Rightarrow> (bool \<times> pending_tx list) result" where
  "apply_destination_observations observations now txs = apply_each (apply_observation now) observations txs"

subsection \<open>What each phase asks for\<close>

record phase_indices =
  ph_voted :: "nat list"
  ph_routed :: "nat list"
  ph_hub_approved :: "nat list"
  ph_discover_second_leg :: "nat list"
  ph_approved :: "nat list"
  ph_executed :: "nat list"

definition collect_phases :: "pending_tx list \<Rightarrow> nat list \<Rightarrow> phase_indices result" where
  "collect_phases txs active =
     and_then (map_ok (\<lambda>i. and_then (at_index txs i) (\<lambda>tx. Inr (i, tx))) active) (\<lambda>entries.
     let for_phase = \<lambda>p. map fst (filter (\<lambda>(_, tx). is_phase tx p) entries) in
     Inr \<lparr> ph_voted = for_phase Voted, ph_routed = for_phase Routed, ph_hub_approved = for_phase HubApproved,
           ph_discover_second_leg = for_phase DiscoverSecondLeg, ph_approved = for_phase Approved,
           ph_executed = for_phase Executed \<rparr>)"

definition ph_destination :: "phase_indices \<Rightarrow> nat list" where
  "ph_destination phases = ph_approved phases @ ph_executed phases"

record phase_check_data =
  pd_voted :: "voted_entry list"
  pd_routed :: "(nat \<times> string) list"
  pd_hub_approved :: "(nat \<times> string) list"
  pd_destination :: "nat list"
  pd_voting_destination :: "string \<times> string"

definition voted_entries :: "pending_tx list \<Rightarrow> nat list \<Rightarrow> voted_entry list" where
  "voted_entries txs indices =
     map (\<lambda>i. (i, pt_message_id (txs ! i), pt_source_address (txs ! i), pt_payload_hash_hex (txs ! i))) indices"

definition message_entries :: "pending_tx list \<Rightarrow> nat list \<Rightarrow> (nat \<times> string) list" where
  "message_entries txs indices = map (\<lambda>i. (i, pt_message_id (txs ! i))) indices"

definition first_destination :: "pending_tx list \<Rightarrow> nat list \<Rightarrow> (string \<times> string) option" where
  "first_destination txs indices =
     (case indices of
        [] \<Rightarrow> None
      | i # _ \<Rightarrow> Some (pt_gmp_destination_chain (txs ! i), pt_gmp_destination_address (txs ! i)))"

definition collect_phase_check_data ::
  "pending_tx list \<Rightarrow> nat list \<Rightarrow> string \<Rightarrow> string \<Rightarrow> phase_check_data result" where
  "collect_phase_check_data txs active destination_chain destination_address =
     and_then (collect_phases txs active) (\<lambda>phases.
     Inr \<lparr> pd_voted = voted_entries txs (ph_voted phases),
           pd_routed = message_entries txs (ph_routed phases),
           pd_hub_approved = message_entries txs (ph_hub_approved phases),
           pd_destination = ph_destination phases,
           pd_voting_destination =
             (case first_destination txs (ph_voted phases) of
                Some (chain, addr) \<Rightarrow>
                  if chain \<noteq> [] \<and> addr \<noteq> [] then (chain, addr) else (destination_chain, destination_address)
              | None \<Rightarrow> (destination_chain, destination_address)) \<rparr>)"

record cosmos_context =
  cx_lcd :: string
  cx_voting_verifier :: "string option"
  cx_cosm_gateway :: "string option"
  cx_axelarnet_gateway :: "string option"
  cx_source_chain :: string

record phase_check_results =
  pc_voted :: "(nat \<times> bool) list"
  pc_routed :: "(nat \<times> bool) list"
  pc_hub_approved :: "(nat \<times> bool) list"

text \<open>Without the contract of a phase, every message passes it.\<close>

definition phase_check ::
  "(nat \<times> 'a) list \<Rightarrow> string option \<Rightarrow> (string \<Rightarrow> (verify_world, (nat \<times> bool) list) io)
   \<Rightarrow> (verify_world, (nat \<times> bool) list) io" where
  "phase_check entries contract query =
     (if entries = [] then io_return []
      else
        (case contract of
           Some c \<Rightarrow> query c
         | None \<Rightarrow> io_return (map (\<lambda>(i, _). (i, True)) entries)))"

text \<open>All three checks run before the first error is returned.\<close>

definition join_checks ::
  "(verify_world, 'a) io \<Rightarrow> (verify_world, 'b) io \<Rightarrow> (verify_world, 'c) io \<Rightarrow> (verify_world, 'a \<times> 'b \<times> 'c) io" where
  "join_checks a b c =
     io_bind (io_try a) (\<lambda>ra.
     io_bind (io_try b) (\<lambda>rb.
     io_bind (io_try c) (\<lambda>rc.
     io_lift (and_then ra (\<lambda>x. and_then rb (\<lambda>y. and_then rc (\<lambda>z. Inr (x, y, z))))))))"

definition run_cosmos_phase_checks ::
  "verify_env \<Rightarrow> cosmos_context \<Rightarrow> phase_check_data \<Rightarrow> (verify_world, phase_check_results) io" where
  "run_cosmos_phase_checks V context data =
     io_bind (join_checks
       (phase_check (pd_voted data) (cx_voting_verifier context) (\<lambda>verifier.
          batch_check_voting_verifier_owned V (cx_lcd context) verifier (cx_source_chain context)
            (fst (pd_voting_destination data)) (snd (pd_voting_destination data)) (pd_voted data)))
       (phase_check (pd_routed data) (cx_cosm_gateway context) (\<lambda>gateway.
          batch_check_cosmos_routed_owned V (cx_lcd context) gateway (cx_source_chain context) (pd_routed data)))
       (phase_check (pd_hub_approved data) (cx_axelarnet_gateway context) (\<lambda>gateway.
          batch_check_hub_approved_owned V (cx_lcd context) gateway (cx_source_chain context) (pd_hub_approved data))))
     (\<lambda>(voted, routed, hub_approved).
     io_return \<lparr> pc_voted = voted, pc_routed = routed, pc_hub_approved = hub_approved \<rparr>)"

definition apply_phase_check_results :: "phase_check_results \<Rightarrow> bool \<Rightarrow> bool \<Rightarrow> (poll_world, bool) io" where
  "apply_phase_check_results results has_cosm_gateway has_axelarnet_gateway =
     io_bind (with_txs (apply_cosmos_results voted_slot
       (if has_cosm_gateway then Routed else Approved) (pc_voted results))) (\<lambda>voted.
     io_bind (with_txs (apply_cosmos_results routed_slot
       (if has_axelarnet_gateway then HubApproved else Approved) (pc_routed results))) (\<lambda>routed.
     io_bind (with_txs (apply_cosmos_results hub_approved_slot Approved (pc_hub_approved results))) (\<lambda>hub.
     io_return (voted \<or> routed \<or> hub))))"

text \<open>The destination is asked about the messages that were in its phases when the round began.\<close>

definition check_destination :: "destination_check \<Rightarrow> string \<Rightarrow> nat list \<Rightarrow> (poll_world, bool) io" where
  "check_destination check source_chain indices =
     io_if (indices = []) (io_return False)
       (io_bind (io_gets pw_txs) (\<lambda>txs.
        io_bind (on_net (check source_chain txs indices)) (\<lambda>observations.
        with_txs (apply_destination_observations observations))))"

record poll_pipeline_args =
  pa_context :: cosmos_context
  pa_destination_chain :: string
  pa_destination_address :: string
  pa_network :: network

definition check_pipeline_phases ::
  "verify_env \<Rightarrow> destination_check \<Rightarrow> poll_pipeline_args \<Rightarrow> nat list \<Rightarrow> (poll_world, bool) io" where
  "check_pipeline_phases V check args active =
     io_bind (io_gets pw_txs) (\<lambda>txs.
     io_bind (io_lift (collect_phase_check_data txs active (pa_destination_chain args) (pa_destination_address args))) (\<lambda>data.
     io_bind (on_net (run_cosmos_phase_checks V (pa_context args) data)) (\<lambda>results.
     io_bind (apply_phase_check_results results (cx_cosm_gateway (pa_context args) \<noteq> None)
       (cx_axelarnet_gateway (pa_context args) \<noteq> None)) (\<lambda>progressed.
     io_bind (check_destination check (cx_source_chain (pa_context args)) (pd_destination data)) (\<lambda>moved.
     io_return (progressed \<or> moved))))))"

subsection \<open>The GMP API as a second opinion\<close>

definition gmp_lookup :: "verify_env \<Rightarrow> string \<Rightarrow> string \<Rightarrow> (verify_world, express_record option) io" where
  "gmp_lookup V base message_id =
     io_bind (search_by_message_id V base message_id) (\<lambda>found.
     case found of
       Some rec \<Rightarrow> io_return (Some rec)
     | None \<Rightarrow>
         (case rsplit_once (CHR ''-'') message_id of
            Some (source_tx, _) \<Rightarrow> search_by_tx V base source_tx
          | None \<Rightarrow> io_return None))"

definition sweep_tx :: "verify_env \<Rightarrow> string \<Rightarrow> pending_tx \<Rightarrow> (verify_world, pending_tx) io" where
  "sweep_tx V base tx =
     io_if (\<not> is_active tx) (io_return tx)
       (io_bind (deadline GMP_API_RECHECK_TIMEOUT (gmp_lookup V base (pt_message_id tx))) (\<lambda>r.
        io_return
          (case r of
             Some (Inr (Some rec)) \<Rightarrow>
               if record_is_failed rec
               then snd (fail_tx ''GMP API reports the message failed (hub/destination execute error)'' tx)
               else tx
           | _ \<Rightarrow> tx)))"

definition sweep :: "verify_env \<Rightarrow> network \<Rightarrow> (poll_world, unit) io" where
  "sweep V n =
     (case base_url n of
        None \<Rightarrow> io_return ()
      | Some base \<Rightarrow>
          io_bind (io_gets (\<lambda>w. poll_now w - pw_last_check w < GMP_FAIL_CHECK_INTERVAL)) (\<lambda>recent.
          io_if recent (io_return ())
            (io_bind (io_modify (\<lambda>w. w\<lparr> pw_last_check := poll_now w \<rparr>)) (\<lambda>_.
             io_bind (io_gets pw_txs) (\<lambda>txs.
             io_bind (on_net (io_map (sweep_tx V base) txs)) (\<lambda>txs.
             io_modify (\<lambda>w. w\<lparr> pw_txs := txs \<rparr>)))))))"

definition executed_lookup :: "verify_env \<Rightarrow> string \<Rightarrow> string \<Rightarrow> (verify_world, bool) io" where
  "executed_lookup V base message_id =
     io_bind (gmp_lookup V base message_id) (\<lambda>found.
     io_return (case found of Some rec \<Rightarrow> record_is_executed rec | None \<Rightarrow> False))"

fun reports_executed_from :: "verify_env \<Rightarrow> string \<Rightarrow> string \<Rightarrow> nat \<Rightarrow> (verify_world, bool) io" where
  "reports_executed_from V base message_id 0 = io_return False"
| "reports_executed_from V base message_id (Suc n) =
     io_bind (deadline GMP_API_RECHECK_TIMEOUT (executed_lookup V base message_id)) (\<lambda>r.
     if r = Some (Inr True) then io_return True
     else if n = 0 then io_return False
     else io_bind (sleep_for GMP_API_RECHECK_BACKOFF) (\<lambda>_. reports_executed_from V base message_id n))"

definition gmp_api_reports_executed :: "verify_env \<Rightarrow> network \<Rightarrow> string \<Rightarrow> (verify_world, bool) io" where
  "gmp_api_reports_executed V n message_id =
     (case base_url n of
        None \<Rightarrow> io_return False
      | Some base \<Rightarrow> reports_executed_from V base message_id GMP_API_RECHECK_ATTEMPTS)"

definition timeout_label :: "string \<Rightarrow> string \<Rightarrow> phase \<Rightarrow> string" where
  "timeout_label approval_label execution_label p =
     (case p of
        Voted \<Rightarrow> ''VotingVerifier''
      | Routed \<Rightarrow> ''cosmos routing''
      | HubApproved \<Rightarrow> ''hub approval''
      | DiscoverSecondLeg \<Rightarrow> ''second-leg discovery''
      | Approved \<Rightarrow> approval_label
      | Executed \<Rightarrow> execution_label)"

definition mark_timed_out_tx :: "nat \<Rightarrow> bool \<Rightarrow> string \<Rightarrow> string \<Rightarrow> pending_tx \<Rightarrow> pending_tx" where
  "mark_timed_out_tx now executed approval_label execution_label tx =
     (if executed
      then snd (succeed True
        (stamp (\<lambda>t. t\<lparr>
           at_executed_secs := (if at_executed_secs t = None then Some (elapsed now tx) else at_executed_secs t),
           at_executed_ok := Some True \<rparr>) tx))
      else
        (case phase_of tx of
           None \<Rightarrow> tx
         | Some p \<Rightarrow>
             snd (time_out (timeout_label approval_label execution_label p)
               (if p = Executed then stamp (\<lambda>t. t\<lparr> at_executed_ok := Some False \<rparr>) tx else tx))))"

definition finalize_tx ::
  "verify_env \<Rightarrow> network \<Rightarrow> string \<Rightarrow> string \<Rightarrow> pending_tx \<Rightarrow> (verify_world, pending_tx) io" where
  "finalize_tx V n approval_label execution_label tx =
     io_if (\<not> is_active tx) (io_return tx)
       (io_bind (gmp_api_reports_executed V n (pt_message_id tx)) (\<lambda>executed.
        io_bind (io_gets vw_now) (\<lambda>now.
        io_return (mark_timed_out_tx now executed approval_label execution_label tx))))"

definition finalize_timed_out_txs :: "verify_env \<Rightarrow> network \<Rightarrow> string \<Rightarrow> string \<Rightarrow> (poll_world, unit) io" where
  "finalize_timed_out_txs V n approval_label execution_label =
     io_bind (io_gets pw_txs) (\<lambda>txs.
     io_bind (on_net (io_map (finalize_tx V n approval_label execution_label) txs)) (\<lambda>txs.
     io_modify (\<lambda>w. w\<lparr> pw_txs := txs \<rparr>)))"

subsection \<open>The scheduler and the loop\<close>

text \<open>
  How a run is fed: what the channel holds at each poll and whether the sender had finished when
  the flag was read, right after; a batch run has neither.
\<close>

record poll_feed =
  pf_receive :: "nat \<Rightarrow> pending_tx list"
  pf_send_done :: "nat \<Rightarrow> bool"
  pf_override_secs :: "u64 option"

definition batch_feed :: "u64 option \<Rightarrow> poll_feed" where
  "batch_feed override_secs =
     \<lparr> pf_receive = (\<lambda>_. []), pf_send_done = (\<lambda>_. True), pf_override_secs = override_secs \<rparr>"

datatype poll_action = Finished | Waiting | Ready "nat list" nat bool

definition next_action :: "poll_feed \<Rightarrow> (pending_tx \<Rightarrow> pending_tx) \<Rightarrow> poll_world \<Rightarrow> poll_action \<times> poll_world" where
  "next_action F prepare w =
     (let txs = pw_txs w @ map prepare (pf_receive F (pw_polls w));
          sending_complete = pf_send_done F (pw_polls w);
          w = w\<lparr> pw_txs := txs, pw_polls := Suc (pw_polls w) \<rparr>;
          active = filter (\<lambda>i. is_active (txs ! i)) [0..<length txs] in
      if txs = [] then (if sending_complete then Finished else Waiting, w)
      else if active = []
      then if sending_complete then (Finished, w) else (Waiting, w\<lparr> pw_last_progress := poll_now w \<rparr>)
      else (Ready active (length txs) sending_complete, w))"

definition timed_out :: "poll_feed \<Rightarrow> bool \<Rightarrow> poll_world \<Rightarrow> bool" where
  "timed_out F sending_complete w =
     (budget_from (pf_override_secs F) sending_complete \<le> poll_now w - pw_last_progress w)"

datatype poll_flow = Stop | Continue

text \<open>One turn of the loop; \<open>check\<close> is the round of checks over the active transactions.\<close>

definition poll_step ::
  "verify_env \<Rightarrow> poll_feed \<Rightarrow> network \<Rightarrow> (pending_tx \<Rightarrow> pending_tx) \<Rightarrow> (nat list \<Rightarrow> (poll_world, unit) io)
   \<Rightarrow> (poll_world, poll_flow) io" where
  "poll_step V F n prepare check w =
     (case next_action F prepare w of
        (Finished, w) \<Rightarrow> (Inr Stop, w)
      | (Waiting, w) \<Rightarrow> io_bind (on_net (sleep_for POLL_INTERVAL)) (\<lambda>_. io_return Continue) w
      | (Ready active _ sending_complete, w) \<Rightarrow>
          io_bind (sweep V n) (\<lambda>_.
          io_bind (check active) (\<lambda>_.
          io_bind (io_gets (timed_out F sending_complete)) (\<lambda>late.
          io_if late (io_return Stop)
            (io_bind (on_net (sleep_for POLL_INTERVAL)) (\<lambda>_. io_return Continue))))) w)"

partial_function (option) poll_until :: "(poll_world, poll_flow) io \<Rightarrow> poll_world \<Rightarrow> (unit result \<times> poll_world) option" where
  "poll_until step w =
     (case step w of
        (Inl e, w') \<Rightarrow> Some (Inl e, w')
      | (Inr Stop, w') \<Rightarrow> Some (Inr (), w')
      | (Inr Continue, w') \<Rightarrow> poll_until step w')"

declare poll_until.simps [code]

definition start_poll :: "poll_world \<Rightarrow> poll_world" where
  "start_poll w = w\<lparr> pw_last_progress := poll_now w, pw_last_check := poll_now w, pw_polls := 0 \<rparr>"

text \<open>The loop, then the verdict on what is left and the throughput of the run.\<close>

definition poll_and_finalize ::
  "verify_env \<Rightarrow> network \<Rightarrow> string \<Rightarrow> string \<Rightarrow> (poll_world, poll_flow) io \<Rightarrow> poll_world
   \<Rightarrow> (peak_throughput result \<times> poll_world) option" where
  "poll_and_finalize V n approval_label execution_label step w =
     (case poll_until step w of
        None \<Rightarrow> None
      | Some (Inl e, w') \<Rightarrow> Some (Inl e, w')
      | Some (Inr _, w') \<Rightarrow>
          Some (io_bind (finalize_timed_out_txs V n approval_label execution_label) (\<lambda>_.
            io_gets (\<lambda>w. compute_peak_throughput (pw_txs w))) w'))"

definition fill_contract :: "address option \<Rightarrow> pending_tx \<Rightarrow> pending_tx" where
  "fill_contract default_contract_addr tx =
     (case default_contract_addr of
        Some c \<Rightarrow> if pt_contract_addr tx = 0 then tx\<lparr> pt_contract_addr := c \<rparr> else tx
      | None \<Rightarrow> tx)"

definition gmp_round ::
  "verify_env \<Rightarrow> destination_check \<Rightarrow> poll_pipeline_args \<Rightarrow> nat list \<Rightarrow> (poll_world, unit) io" where
  "gmp_round V check args active =
     io_bind (check_pipeline_phases V check args active) (\<lambda>progressed.
     io_if progressed mark_progress (io_return ()))"

definition poll_pipeline ::
  "verify_env \<Rightarrow> destination_adapter \<Rightarrow> poll_feed \<Rightarrow> poll_pipeline_args \<Rightarrow> poll_world
   \<Rightarrow> (peak_throughput result \<times> poll_world) option" where
  "poll_pipeline V verifier F args w =
     (let w = start_poll w in
      case (if da_needs_contract_address verifier
            then and_then (ok_or (vn_parse_address V (pa_destination_address args)) ''invalid address'') (\<lambda>a. Inr (Some a))
            else Inr None) of
        Inl e \<Rightarrow> Some (Inl e, w)
      | Inr default_contract_addr \<Rightarrow>
          poll_and_finalize V (pa_network args) (da_approval_label verifier) (da_execution_label verifier)
            (poll_step V F (pa_network args) (fill_contract default_contract_addr)
              (gmp_round V (da_check verifier) args)) w)"

subsection \<open>One pass over indexed results\<close>

lemma apply_each_inv:
  assumes "apply_each f rs txs = Inr (m, txs')" and "\<And>i. i < length txs \<Longrightarrow> Q i (txs ! i)"
    and "\<And>i x tx. (i, x) \<in> set rs \<Longrightarrow> Q i tx \<Longrightarrow> Q i (snd (f x tx))"
  shows "length txs' = length txs \<and> (\<forall>i < length txs. Q i (txs' ! i))"
  using assms
proof (induction rs arbitrary: txs m)
  case (Cons r rs)
  obtain i x where r: "r = (i, x)" by (cases r)
  obtain m1 where i: "i < length txs" and run: "apply_each f rs (txs[i := snd (f x (txs ! i))]) = Inr (m1, txs')"
    using Cons.prems(1) by (auto simp: r result_simps at_index_Inr)
  have "Q j (txs[i := snd (f x (txs ! i))] ! j)" if "j < length (txs[i := snd (f x (txs ! i))])" for j
    using that i Cons.prems(2,3) by (cases "j = i") (auto simp: r)
  from Cons.IH [OF run this] Cons.prems(3) show ?case by simp
qed auto

definition total_rank :: "(pending_tx \<Rightarrow> nat) \<Rightarrow> pending_tx list \<Rightarrow> nat" where
  "total_rank rank txs = sum_list (map rank txs)"

lemma total_rank_update:
  "i < length txs \<Longrightarrow> total_rank rank (txs[i := tx]) + rank (txs ! i) = total_rank rank txs + rank tx"
  unfolding total_rank_def by (induction txs arbitrary: i) (auto simp: nth_Cons split: nat.splits)

lemma total_rank_mono:
  "list_all2 (\<lambda>tx tx'. rank tx' \<le> rank tx) txs txs' \<Longrightarrow> total_rank rank txs' \<le> total_rank rank txs"
  unfolding total_rank_def by (induction rule: list_all2_induct) auto

lemma apply_each_rank:
  assumes "apply_each f rs txs = Inr (m, txs')" and "\<And>i. i < length txs \<Longrightarrow> Q i (txs ! i)"
    and "\<And>i x tx. (i, x) \<in> set rs \<Longrightarrow> Q i tx \<Longrightarrow> Q i (snd (f x tx)) \<and>
      rank (snd (f x tx)) \<le> rank tx \<and> (fst (f x tx) \<longrightarrow> rank (snd (f x tx)) < rank tx)"
  shows "total_rank rank txs' \<le> total_rank rank txs \<and> (m \<longrightarrow> total_rank rank txs' < total_rank rank txs)"
  using assms
proof (induction rs arbitrary: txs m)
  case (Cons r rs)
  obtain i x where r: "r = (i, x)" by (cases r)
  let ?tx = "txs ! i" and ?txs = "txs[i := snd (f x (txs ! i))]"
  obtain m1 where i: "i < length txs" and run: "apply_each f rs ?txs = Inr (m1, txs')" and m: "m = (fst (f x ?tx) \<or> m1)"
    using Cons.prems(1) by (auto simp: r result_simps at_index_Inr)
  have step: "Q i (snd (f x ?tx))" "rank (snd (f x ?tx)) \<le> rank ?tx" "fst (f x ?tx) \<longrightarrow> rank (snd (f x ?tx)) < rank ?tx"
    using Cons.prems(2,3) i by (auto simp: r)
  have "Q j (?txs ! j)" if "j < length ?txs" for j
    using that i step(1) Cons.prems(2) by (cases "j = i") auto
  from Cons.IH [OF run this] Cons.prems(3)
  have "total_rank rank txs' \<le> total_rank rank ?txs" "m1 \<longrightarrow> total_rank rank txs' < total_rank rank ?txs" by auto
  then show ?case using total_rank_update [OF i, of rank "snd (f x ?tx)"] step(2,3) m by auto
qed auto

lemma apply_each_total:
  assumes "\<And>i x. (i, x) \<in> set rs \<Longrightarrow> i < length txs"
  shows "\<exists>m txs'. apply_each f rs txs = Inr (m, txs')"
  using assms
proof (induction rs arbitrary: txs)
  case (Cons r rs)
  obtain i x where r: "r = (i, x)" by (cases r)
  have "i < length txs" using Cons.prems by (auto simp: r)
  moreover obtain m txs' where "apply_each f rs (txs[i := snd (f x (txs ! i))]) = Inr (m, txs')"
    using Cons.IH [of "txs[i := snd (f x (txs ! i))]"] Cons.prems by fastforce
  ultimately show ?case by (simp add: r at_index_def)
qed (metis apply_each.simps(1))

subsection \<open>Verdicts and what backs them\<close>

text \<open>The fields a run never changes once a message is sent and its second leg is known.\<close>

definition same_message :: "pending_tx \<Rightarrow> pending_tx \<Rightarrow> bool" where
  "same_message a b =
     (pt_idx a = pt_idx b \<and> pt_message_id a = pt_message_id b \<and> pt_send_instant a = pt_send_instant b \<and>
      pt_source_address a = pt_source_address b \<and> pt_contract_addr a = pt_contract_addr b \<and>
      pt_payload_hash a = pt_payload_hash b \<and> pt_second_leg a = pt_second_leg b)"

text \<open>An execution was observed for the message while it waited for the destination.\<close>

definition backed_by :: "(string \<Rightarrow> pending_tx \<Rightarrow> bool) \<Rightarrow> string \<Rightarrow> pending_tx \<Rightarrow> bool" where
  "backed_by evidence source_chain tx =
     (\<exists>tx0. same_message tx0 tx \<and> pt_state tx0 \<in> {Active Approved, Active Executed} \<and> evidence source_chain tx0)"

text \<open>A GMP API record about the message, found by its id or by the id of its source transaction.\<close>

definition api_says :: "(express_record \<Rightarrow> bool) \<Rightarrow> verify_env \<Rightarrow> network \<Rightarrow> string \<Rightarrow> bool" where
  "api_says P V n message_id =
     (\<exists>base k body rec rest. base_url n = Some base \<and>
        vn_post_search V k (base @ ''/gmp/searchGMP'') body = Inr (rec # rest) \<and> P rec \<and>
        (body = JObject [(''messageId'', JString message_id)] \<or>
         (\<exists>source_tx suffix. rsplit_once (CHR ''-'') message_id = Some (source_tx, suffix) \<and>
            body = JObject [(''txHash'', JString source_tx)])))"

record verdict_context =
  vc_env :: verify_env
  vc_network :: network
  vc_evidence :: "string \<Rightarrow> pending_tx \<Rightarrow> bool"
  vc_source_chain :: string
  vc_approval_label :: string
  vc_execution_label :: string

definition verdict_ok :: "verdict_context \<Rightarrow> pending_tx \<Rightarrow> bool" where
  "verdict_ok C tx =
     (case pt_state tx of
        Active _ \<Rightarrow> at_executed_ok (pt_timing tx) = None
      | Succeeded False \<Rightarrow> at_executed_ok (pt_timing tx) = Some True \<and> backed_by (vc_evidence C) (vc_source_chain C) tx
      | Succeeded True \<Rightarrow>
          at_executed_ok (pt_timing tx) = Some True \<and>
          api_says record_is_executed (vc_env C) (vc_network C) (pt_message_id tx)
      | Failed _ (ErrorFailure _) \<Rightarrow>
          at_executed_ok (pt_timing tx) \<noteq> Some True \<and>
          api_says record_is_failed (vc_env C) (vc_network C) (pt_message_id tx)
      | Failed p (TimedOut reason) \<Rightarrow>
          at_executed_ok (pt_timing tx) \<noteq> Some True \<and>
          reason = timeout_label (vc_approval_label C) (vc_execution_label C) p @ '': timed out'')"

lemma backed_by_same: "backed_by evidence source_chain tx \<Longrightarrow> same_message tx tx' \<Longrightarrow> backed_by evidence source_chain tx'"
  by (auto simp: backed_by_def same_message_def)

lemma outputs_first_record:
  "outputs (search_by_message_id V base message_id) (\<lambda>r. \<forall>rec. r = Some rec \<longrightarrow>
     (\<exists>k rest. vn_post_search V k (base @ ''/gmp/searchGMP'') (JObject [(''messageId'', JString message_id)]) = Inr (rec # rest)))"
  "outputs (search_by_tx V base tx) (\<lambda>r. \<forall>rec. r = Some rec \<longrightarrow>
     (\<exists>k rest. vn_post_search V k (base @ ''/gmp/searchGMP'') (JObject [(''txHash'', JString tx)]) = Inr (rec # rest)))"
  unfolding search_by_message_id_def search_by_tx_def post_search_def
  by (rule outputs_bind [OF outputs_read_net], force simp: outputs_basic first_record_def split: list.splits)+

lemma outputs_gmp_lookup:
  assumes "base_url n = Some base"
  shows "outputs (gmp_lookup V base message_id) (\<lambda>r. \<forall>rec. r = Some rec \<longrightarrow> P rec \<longrightarrow> api_says P V n message_id)"
  unfolding gmp_lookup_def
proof (rule outputs_bind [OF outputs_first_record(1)], goal_cases)
  case (1 found)
  show ?case
  proof (cases found)
    case (Some rec)
    then show ?thesis using 1 assms by (auto simp: outputs_basic api_says_def)
  next
    case None
    show ?thesis
    proof (cases "rsplit_once (CHR ''-'') message_id")
      case (Some p)
      obtain source_tx suffix where p: "p = (source_tx, suffix)" by (cases p)
      have "outputs (search_by_tx V base source_tx)
          (\<lambda>r. \<forall>rec. r = Some rec \<longrightarrow> P rec \<longrightarrow> api_says P V n message_id)"
        by (rule outputs_weaken [OF outputs_first_record(2)]) (use Some p assms in \<open>fastforce simp: api_says_def\<close>)
      then show ?thesis using None Some p by simp
    qed (simp add: None outputs_basic)
  qed
qed

lemma outputs_deadline: "outputs m P \<Longrightarrow> outputs (deadline limit m) (\<lambda>r. \<forall>x. r = Some (Inr x) \<longrightarrow> P x)"
  by (auto simp: outputs_def deadline_def split: prod.splits if_splits)

lemma outputs_reports_executed:
  assumes "base_url n = Some base"
  shows "outputs (reports_executed_from V base message_id k) (\<lambda>b. b \<longrightarrow> api_says record_is_executed V n message_id)"
proof (induction k)
  case (Suc k)
  have "outputs (executed_lookup V base message_id) (\<lambda>b. b \<longrightarrow> api_says record_is_executed V n message_id)"
    unfolding executed_lookup_def
    by (rule outputs_bind [OF outputs_gmp_lookup [OF assms, of V message_id record_is_executed]])
      (auto simp: outputs_basic split: option.splits)
  note lookup = outputs_deadline [OF this, of GMP_API_RECHECK_TIMEOUT]
  show ?case unfolding reports_executed_from.simps
    by (rule outputs_bind [OF lookup]) (auto simp: outputs_basic intro!: outputs_bind [OF outputs_any] Suc.IH)
qed (simp add: outputs_basic)

lemma outputs_gmp_api_reports:
  "outputs (gmp_api_reports_executed V n message_id) (\<lambda>b. b \<longrightarrow> api_says record_is_executed V n message_id)"
  unfolding gmp_api_reports_executed_def
  by (auto split: option.splits simp: outputs_basic intro: outputs_reports_executed)

end
