(* ===== verification/Verify_Polling.thy ===== *)
theory Verify_Polling
  imports Verify_Pipeline
begin

text \<open>
  What the polling loop of \<open>verification/engine/pipeline.rs\<close> guarantees, for any round of checks:
  the locale \<open>polling_round\<close> says what a round promises the loop, and the loop is proved to end
  and to leave only verdicts that an answer of a chain or of the GMP API supports.  The GMP round
  keeps the promise for every destination adapter.
\<close>

subsection \<open>Settling transactions from the GMP API\<close>

definition settles :: "verdict_context \<Rightarrow> pending_tx \<Rightarrow> pending_tx \<Rightarrow> bool" where
  "settles C tx tx' =
     (tx' = tx \<or> is_active tx \<and> \<not> is_active tx' \<and> pt_message_id tx' = pt_message_id tx \<and>
      (verdict_ok C tx \<longrightarrow> verdict_ok C tx'))"

lemma stamp_simps [simp]:
  "pt_state (stamp f tx) = pt_state tx" "pt_message_id (stamp f tx) = pt_message_id tx"
  "pt_timing (stamp f tx) = f (pt_timing tx)" "is_active (stamp f tx) = is_active tx"
  "is_phase (stamp f tx) p = is_phase tx p" "phase_of (stamp f tx) = phase_of tx"
  "pt_second_leg (stamp f tx) = pt_second_leg tx"
  by (simp_all add: stamp_def is_active_def is_phase_def phase_of_def)

lemma is_active_iff: "is_active tx = (\<exists>p. pt_state tx = Active p)"
  by (simp add: is_active_def split: verification_state.splits)

lemma verdict_active: "verdict_ok C tx \<Longrightarrow> is_active tx \<Longrightarrow> at_executed_ok (pt_timing tx) = None"
  by (auto simp: verdict_ok_def is_active_iff)

lemma settles_refl: "settles C tx tx"
  by (simp add: settles_def)

lemma settlesI:
  assumes "is_active tx" "\<not> is_active tx'" "pt_message_id tx' = pt_message_id tx"
    and "at_executed_ok (pt_timing tx) = None \<Longrightarrow> verdict_ok C tx'"
  shows "settles C tx tx'"
  using assms verdict_active [OF _ assms(1), of C] by (auto simp: settles_def)

lemma settles_fail:
  assumes "is_active tx" and "api_says record_is_failed (vc_env C) (vc_network C) (pt_message_id tx)"
  shows "settles C tx (snd (fail_tx reason tx))"
proof -
  obtain p where p: "pt_state tx = Active p" using assms(1) by (auto simp: is_active_iff)
  have "snd (fail_tx reason tx) = tx\<lparr> pt_state := Failed p (ErrorFailure reason) \<rparr>"
    by (simp add: fail_tx_def fail_with_def p)
  then show ?thesis
    using assms by (auto intro!: settlesI simp: is_active_iff verdict_ok_def)
qed

lemma sweep_tx_outputs:
  assumes "base_url (vc_network C) = Some base"
  shows "outputs (sweep_tx (vc_env C) base tx) (settles C tx)"
proof (cases "is_active tx")
  case True
  have "outputs (io_bind (deadline GMP_API_RECHECK_TIMEOUT (gmp_lookup (vc_env C) base (pt_message_id tx))) (\<lambda>r.
      io_return (case r of Some (Inr (Some rec)) \<Rightarrow> if record_is_failed rec
          then snd (fail_tx ''GMP API reports the message failed (hub/destination execute error)'' tx) else tx
        | _ \<Rightarrow> tx))) (settles C tx)"
    by (rule outputs_bind [OF outputs_deadline [OF outputs_gmp_lookup [OF assms, of _ _ record_is_failed]]])
      (auto simp: outputs_basic settles_refl split: option.splits sum.splits intro!: settles_fail [OF True])
  then show ?thesis using True by (simp add: sweep_tx_def)
qed (simp add: sweep_tx_def settles_def outputs_basic)

lemma timed_out_state:
  assumes "pt_state tx = Active p"
  shows "pt_state (mark_timed_out_tx now executed al el tx) =
      (if executed then Succeeded True else Failed p (TimedOut (timeout_label al el p @ '': timed out'')))"
    "at_executed_ok (pt_timing (mark_timed_out_tx now executed al el tx)) =
      (if executed then Some True else if p = Executed then Some False else at_executed_ok (pt_timing tx))"
    "pt_message_id (mark_timed_out_tx now executed al el tx) = pt_message_id tx"
  using assms by (simp_all add: mark_timed_out_tx_def succeed_def time_out_def fail_with_def is_active_iff phase_of_def)

lemma settles_timed_out:
  assumes "is_active tx" and "executed \<longrightarrow> api_says record_is_executed (vc_env C) (vc_network C) (pt_message_id tx)"
  shows "settles C tx (mark_timed_out_tx now executed (vc_approval_label C) (vc_execution_label C) tx)"
    "\<not> is_active (mark_timed_out_tx now executed (vc_approval_label C) (vc_execution_label C) tx)"
proof -
  obtain p where p: "pt_state tx = Active p" using assms(1) by (auto simp: is_active_iff)
  note state = timed_out_state [OF p]
  show inactive: "\<not> is_active (mark_timed_out_tx now executed (vc_approval_label C) (vc_execution_label C) tx)"
    by (simp add: is_active_iff state)
  show "settles C tx (mark_timed_out_tx now executed (vc_approval_label C) (vc_execution_label C) tx)"
    using assms by (intro settlesI inactive) (simp_all add: verdict_ok_def state)
qed

lemma finalize_tx_outputs:
  "outputs (finalize_tx (vc_env C) (vc_network C) (vc_approval_label C) (vc_execution_label C) tx)
     (\<lambda>tx'. settles C tx tx' \<and> \<not> is_active tx')"
proof (cases "is_active tx")
  case True
  then show ?thesis
    unfolding finalize_tx_def
    by simp (rule outputs_bind [OF outputs_gmp_api_reports], rule outputs_bind [OF outputs_any],
      simp add: outputs_basic settles_timed_out)
qed (simp add: finalize_tx_def settles_def outputs_basic)

lemma on_net_Inr:
  "(on_net m w = (r, w')) = (\<exists>net. m (pw_net w) = (r, net) \<and> w' = w\<lparr> pw_net := net \<rparr>)"
  by (auto simp: on_net_def split: prod.splits)

lemma gmp_lookup_since [simp]: "keeps (since t) (gmp_lookup V base message_id)"
  unfolding gmp_lookup_def by (intro keeps_bind keeps_option keeps_prod) simp_all

lemma sweep_tx_since: "keeps (since t) (sweep_tx V base tx)"
  unfolding sweep_tx_def by (intro keeps_io_if keeps_bind keeps_deadline) simp_all

lemma since_run: "(\<And>t. keeps (since t) m) \<Longrightarrow> m w = (r, w') \<Longrightarrow> vw_now w \<le> vw_now w'"
  using keepsD [of "since (vw_now w)" m w r w'] by (auto simp: since_def)

lemma sweep_run:
  assumes "sweep (vc_env C) (vc_network C) w = (r, w')"
  shows "list_all2 (settles C) (pw_txs w) (pw_txs w') \<and> pw_last_progress w' = pw_last_progress w \<and>
    pw_polls w' = pw_polls w \<and> poll_now w \<le> poll_now w'"
proof (cases "base_url (vc_network C)")
  case None
  then show ?thesis using assms by (simp add: sweep_def list_all2_refl settles_def)
next
  case (Some base)
  show ?thesis
  proof (cases "poll_now w - pw_last_check w < GMP_FAIL_CHECK_INTERVAL")
    case True
    then show ?thesis using assms Some by (simp add: sweep_def io_bind_def list_all2_refl settles_def)
  next
    case False
    obtain res net where run: "io_map (sweep_tx (vc_env C) base) (pw_txs w) (pw_net w) = (res, net)" by force
    have time: "vw_now (pw_net w) \<le> vw_now net"
      by (rule since_run [OF keeps_map [OF sweep_tx_since] run])
    show ?thesis
    proof (cases res)
      case (Inr txs)
      then have "list_all2 (settles C) (pw_txs w) txs"
        using outputsD [OF outputs_map [OF sweep_tx_outputs [OF Some]] run [unfolded Inr]] by blast
      then show ?thesis using assms Some False run Inr time by (auto simp: sweep_def io_bind_def on_net_def)
    next
      case (Inl e)
      then show ?thesis
        using assms Some False run time by (auto simp: sweep_def io_bind_def on_net_def list_all2_refl settles_def)
    qed
  qed
qed

lemma finalize_run:
  assumes "finalize_timed_out_txs (vc_env C) (vc_network C) (vc_approval_label C) (vc_execution_label C) w = (Inr u, w')"
  shows "list_all2 (\<lambda>tx tx'. settles C tx tx' \<and> \<not> is_active tx') (pw_txs w) (pw_txs w') \<and> pw_polls w' = pw_polls w"
  using assms outputsD [OF outputs_map [OF finalize_tx_outputs]]
  by (auto simp: finalize_timed_out_txs_def io_runs on_net_Inr)

lemma deadline_ok: "\<exists>x net. deadline limit m w = (Inr x, net)"
  by (auto simp: deadline_def split: prod.splits)

lemma io_map_ok: "(\<And>x w. \<exists>y w'. f x w = (Inr y, w')) \<Longrightarrow> \<exists>ys w'. io_map f xs w = (Inr ys, w')"
proof (induction xs arbitrary: w)
  case (Cons x xs)
  obtain y w1 where f: "f x w = (Inr y, w1)" using Cons.prems by blast
  obtain ys w2 where "io_map f xs w1 = (Inr ys, w2)" using Cons.IH [OF Cons.prems] by blast
  then show ?case using f by (simp add: io_bind_def)
qed simp

lemma reports_executed_ok: "\<exists>b net. reports_executed_from V base message_id k w = (Inr b, net)"
proof (induction k arbitrary: w)
  case (Suc k)
  obtain r w1 where "deadline GMP_API_RECHECK_TIMEOUT (executed_lookup V base message_id) w = (Inr r, w1)"
    using deadline_ok by blast
  then show ?case using Suc.IH by (auto simp: io_bind_def sleep_for_def)
qed (auto simp: io_return_def)

lemma finalize_ok: "\<exists>w'. finalize_timed_out_txs V n approval_label execution_label w = (Inr (), w')"
proof -
  have each: "\<exists>y net'. finalize_tx V n approval_label execution_label tx net = (Inr y, net')" for tx net
  proof -
    have "\<exists>b net'. gmp_api_reports_executed V n (pt_message_id tx) net = (Inr b, net')"
      unfolding gmp_api_reports_executed_def by (cases "base_url n") (auto simp: reports_executed_ok io_return_def)
    then obtain b net' where "gmp_api_reports_executed V n (pt_message_id tx) net = (Inr b, net')" by blast
    then show ?thesis by (cases "is_active tx") (auto simp: finalize_tx_def io_bind_def)
  qed
  then obtain txs net where
    "io_map (finalize_tx V n approval_label execution_label) (pw_txs w) (pw_net w) = (Inr txs, net)"
    using io_map_ok [of "finalize_tx V n approval_label execution_label" "pw_txs w" "pw_net w"] each by blast
  then show ?thesis by (auto simp: finalize_timed_out_txs_def io_bind_def on_net_def)
qed

subsection \<open>What a round promises the loop\<close>

definition sound_tx :: "verdict_context \<Rightarrow> (pending_tx \<Rightarrow> bool) \<Rightarrow> pending_tx \<Rightarrow> bool" where
  "sound_tx C shape tx = (verdict_ok C tx \<and> (is_active tx \<longrightarrow> shape tx))"

abbreviation ids :: "pending_tx list \<Rightarrow> string list" where
  "ids txs \<equiv> map pt_message_id txs"

text \<open>A round either moves a transaction forward or leaves the time of the last progress alone.\<close>

definition advances :: "(pending_tx \<Rightarrow> nat) \<Rightarrow> poll_world \<Rightarrow> poll_world \<Rightarrow> bool" where
  "advances rank w w' =
     (poll_now w \<le> poll_now w' \<and> pw_polls w' = pw_polls w \<and>
      (pw_last_progress w' = pw_last_progress w \<and> total_rank rank (pw_txs w') \<le> total_rank rank (pw_txs w) \<or>
       pw_last_progress w' \<le> poll_now w' \<and> total_rank rank (pw_txs w') < total_rank rank (pw_txs w)))"

lemma list_all2_settles_ids: "list_all2 (settles C) txs txs' \<Longrightarrow> ids txs' = ids txs"
  by (induction rule: list_all2_induct) (auto simp: settles_def)

lemma list_all2_settles_sound:
  "list_all2 (settles C) txs txs' \<Longrightarrow> list_all (sound_tx C shape) txs \<Longrightarrow> list_all (sound_tx C shape) txs'"
  by (induction rule: list_all2_induct) (auto simp: settles_def sound_tx_def)

lemma list_all2_settles_rank:
  assumes "list_all2 (settles C) txs txs'" and "\<And>tx. \<not> is_active tx \<Longrightarrow> rank tx = 0"
  shows "total_rank rank txs' \<le> total_rank rank txs"
  by (rule total_rank_mono, rule list_all2_mono [OF assms(1)]) (auto simp: settles_def assms(2))

locale polling_round =
  fixes C :: verdict_context
    and arriving :: "pending_tx \<Rightarrow> bool"
    and shape :: "pending_tx \<Rightarrow> bool"
    and prepare :: "pending_tx \<Rightarrow> pending_tx"
    and rank :: "pending_tx \<Rightarrow> nat"
    and round :: "nat list \<Rightarrow> (poll_world, unit) io"
  assumes prepare_sound: "arriving tx \<Longrightarrow> sound_tx C shape (prepare tx) \<and> pt_message_id (prepare tx) = pt_message_id tx"
    and rank_settled: "\<not> is_active tx \<Longrightarrow> rank tx = 0"
    and round_sound: "round active w = (Inr (), w') \<Longrightarrow> list_all (sound_tx C shape) (pw_txs w) \<Longrightarrow>
      list_all (sound_tx C shape) (pw_txs w') \<and> ids (pw_txs w') = ids (pw_txs w)"
    and round_advances: "round active w = (Inr (), w') \<Longrightarrow> list_all (sound_tx C shape) (pw_txs w) \<Longrightarrow>
      advances rank w w'"
begin

definition turn :: "poll_feed \<Rightarrow> (poll_world, poll_flow) io" where
  "turn F = poll_step (vc_env C) F (vc_network C) prepare round"

definition run_ok :: "poll_feed \<Rightarrow> poll_world \<Rightarrow> bool" where
  "run_ok F w = (list_all (sound_tx C shape) (pw_txs w) \<and> (\<forall>k. list_all arriving (pf_receive F k)))"

lemma received_sound:
  "list_all arriving txs \<Longrightarrow> list_all (sound_tx C shape) (map prepare txs) \<and> ids (map prepare txs) = ids txs"
  by (induction txs) (auto simp: prepare_sound)

lemma next_action_run:
  assumes "next_action F prepare w = (action, w1)" and "run_ok F w"
  shows "run_ok F w1" "ids (pw_txs w1) = ids (pw_txs w) @ ids (pf_receive F (pw_polls w))"
    "pw_polls w1 = Suc (pw_polls w)" "pw_net w1 = pw_net w"
    "pw_last_progress w1 = pw_last_progress w \<or> pw_last_progress w1 = poll_now w"
    "pf_send_done F (pw_polls w) \<Longrightarrow> action \<noteq> Waiting \<and> pw_last_progress w1 = pw_last_progress w"
    "action = Ready active m b \<Longrightarrow> b = pf_send_done F (pw_polls w)"
    "pf_receive F (pw_polls w) = [] \<Longrightarrow> pw_txs w1 = pw_txs w"
  using assms received_sound [of "pf_receive F (pw_polls w)"]
  by (auto simp: next_action_def Let_def run_ok_def split: if_splits)

lemma ready_run:
  assumes "io_bind (sweep (vc_env C) (vc_network C)) (\<lambda>_. io_bind (round active) (\<lambda>_.
      io_bind (io_gets (timed_out F b)) (\<lambda>late. io_if late (io_return Stop)
        (io_bind (on_net (sleep_for POLL_INTERVAL)) (\<lambda>_. io_return Continue))))) w1 = (Inr flow, w')"
    and "run_ok F w1"
  shows "run_ok F w' \<and> ids (pw_txs w') = ids (pw_txs w1) \<and> pw_polls w' = pw_polls w1 \<and>
    (flow = Continue \<longrightarrow> (\<exists>w3. advances rank w1 w3 \<and> \<not> timed_out F b w3 \<and>
       w' = w3\<lparr> pw_net := (pw_net w3)\<lparr> vw_now := poll_now w3 + POLL_INTERVAL \<rparr> \<rparr>))"
proof -
  obtain u w2 w3 where s: "sweep (vc_env C) (vc_network C) w1 = (Inr u, w2)" and r: "round active w2 = (Inr (), w3)"
      and rest: "flow = (if timed_out F b w3 then Stop else Continue)"
        "w' = (if timed_out F b w3 then w3 else w3\<lparr> pw_net := (pw_net w3)\<lparr> vw_now := poll_now w3 + POLL_INTERVAL \<rparr> \<rparr>)"
    using assms(1) by (auto simp: io_runs io_if_def sleep_for_def on_net_Inr split: if_splits)
  note swept = sweep_run [OF s]
  have ok2: "list_all (sound_tx C shape) (pw_txs w2)" "ids (pw_txs w2) = ids (pw_txs w1)"
      "total_rank rank (pw_txs w2) \<le> total_rank rank (pw_txs w1)"
    using swept assms(2) list_all2_settles_sound list_all2_settles_ids list_all2_settles_rank rank_settled
    by (fastforce simp: run_ok_def)+
  note adv = round_advances [OF r ok2(1)] and kept = round_sound [OF r ok2(1)]
  have "advances rank w1 w3" using adv swept ok2(3) by (auto simp: advances_def)
  then show ?thesis using rest kept ok2(2) assms(2) by (auto simp: run_ok_def advances_def)
qed

lemma turn_sound:
  assumes "turn F w = (Inr flow, w')" and "run_ok F w"
  shows "run_ok F w' \<and> ids (pw_txs w') = ids (pw_txs w) @ ids (pf_receive F (pw_polls w)) \<and> pw_polls w' = Suc (pw_polls w)"
proof -
  obtain action w1 where n: "next_action F prepare w = (action, w1)" by force
  note nxt = next_action_run [OF n assms(2)]
  show ?thesis
  proof (cases action)
    case (Ready active m b)
    then show ?thesis using assms(1) n nxt ready_run [of active F b w1 flow w'] by (simp add: turn_def poll_step_def)
  qed (use assms(1) n nxt in \<open>auto simp: turn_def poll_step_def io_bind_def on_net_def sleep_for_def run_ok_def\<close>)
qed

definition received :: "poll_feed \<Rightarrow> nat \<Rightarrow> nat \<Rightarrow> string list" where
  "received F a b = concat (map (\<lambda>k. ids (pf_receive F k)) [a..<b])"

lemma received_step: "a < b \<Longrightarrow> received F a b = ids (pf_receive F a) @ received F (Suc a) b"
  by (simp add: received_def upt_rec [of a])

lemma poll_until_sound:
  assumes "poll_until (turn F) w = Some (Inr (), w')" and "run_ok F w"
  shows "run_ok F w' \<and> ids (pw_txs w') = ids (pw_txs w) @ received F (pw_polls w) (pw_polls w') \<and> pw_polls w < pw_polls w'"
proof -
  define P where "P step w y = (step = turn F \<longrightarrow> y = (Inr (), w') \<longrightarrow> run_ok F w \<longrightarrow> run_ok F w' \<and>
    ids (pw_txs w') = ids (pw_txs w) @ received F (pw_polls w) (pw_polls w') \<and> pw_polls w < pw_polls w')"
    for step w and y :: "unit result \<times> poll_world"
  have "P (turn F) w (Inr (), w')"
  proof (rule poll_until.raw_induct [OF _ assms(1)])
    fix loop step w y
    assume IH: "\<And>s v z. loop s v = Some z \<Longrightarrow> P s v z"
      and body: "(case step w of (Inl e, w') \<Rightarrow> Some (Inl e, w') | (Inr Stop, w') \<Rightarrow> Some (Inr (), w')
        | (Inr Continue, w') \<Rightarrow> loop step w') = Some y"
    show "P step w y" unfolding P_def
    proof (intro impI)
      assume prems: "step = turn F" "y = (Inr (), w')" "run_ok F w"
      obtain flow w1 where t: "turn F w = (Inr flow, w1)"
        using body prems by (cases "turn F w") (auto split: sum.splits)
      note sound = turn_sound [OF t prems(3)]
      show "run_ok F w' \<and> ids (pw_txs w') = ids (pw_txs w) @ received F (pw_polls w) (pw_polls w') \<and>
          pw_polls w < pw_polls w'"
      proof (cases flow)
        case Stop
        then show ?thesis using body prems t sound by (auto simp: received_def)
      next
        case Continue
        then have "loop (turn F) w1 = Some (Inr (), w')" using body prems t by simp
        from IH [OF this] sound show ?thesis by (simp add: P_def received_step [of "pw_polls w"])
      qed
    qed
  qed
  then show ?thesis using assms(2) by (simp add: P_def)
qed

definition clock_ok :: "poll_world \<Rightarrow> bool" where
  "clock_ok w = (pw_last_progress w \<le> poll_now w)"

definition remaining :: "poll_feed \<Rightarrow> poll_world \<Rightarrow> nat" where
  "remaining F w = budget_from (pf_override_secs F) True - (poll_now w - pw_last_progress w)"

lemma turn_clock:
  assumes "turn F w = (Inr flow, w')" and "run_ok F w" and "clock_ok w" and "flow = Continue"
  shows "clock_ok w'"
proof -
  obtain action w1 where n: "next_action F prepare w = (action, w1)" by force
  note nxt = next_action_run [OF n assms(2)]
  have "clock_ok w1" using nxt(4,5) assms(3) by (auto simp: clock_ok_def)
  then show ?thesis
  proof (cases action)
    case (Ready active m b)
    then obtain w3 where "advances rank w1 w3" "w' = w3\<lparr> pw_net := (pw_net w3)\<lparr> vw_now := poll_now w3 + POLL_INTERVAL \<rparr> \<rparr>"
      using assms n nxt(1) ready_run [of active F b w1 flow w'] by (auto simp: turn_def poll_step_def)
    then show ?thesis using \<open>clock_ok w1\<close> by (auto simp: clock_ok_def advances_def)
  qed (use assms n in \<open>auto simp: turn_def poll_step_def io_bind_def on_net_def sleep_for_def clock_ok_def\<close>)
qed

lemma turn_decreases:
  assumes "turn F w = (Inr Continue, w')" and "run_ok F w" and "clock_ok w"
    and "pf_send_done F (pw_polls w)" and "pf_receive F (pw_polls w) = []"
  shows "total_rank rank (pw_txs w') < total_rank rank (pw_txs w) \<or>
    total_rank rank (pw_txs w') = total_rank rank (pw_txs w) \<and> remaining F w' < remaining F w"
proof -
  obtain action w1 where n: "next_action F prepare w = (action, w1)" by force
  note nxt = next_action_run [OF n assms(2)]
  obtain active m where a: "action = Ready active m True"
    using nxt(6,7) assms(1,4) n by (cases action) (auto simp: turn_def poll_step_def)
  obtain w3 where adv: "advances rank w1 w3" and late: "\<not> timed_out F True w3"
      and w': "w' = w3\<lparr> pw_net := (pw_net w3)\<lparr> vw_now := poll_now w3 + POLL_INTERVAL \<rparr> \<rparr>"
    using assms(1) n a nxt(1) ready_run [of active F True w1 Continue w'] by (auto simp: turn_def poll_step_def)
  have same: "pw_txs w1 = pw_txs w" "pw_last_progress w1 = pw_last_progress w" "poll_now w1 = poll_now w"
    using nxt(4,6,8) assms(4,5) by auto
  have "0 < POLL_INTERVAL" by (simp add: POLL_INTERVAL_def)
  then have "remaining F w' < remaining F w" if "pw_last_progress w3 = pw_last_progress w1"
    using that late adv same assms(3) by (auto simp: w' remaining_def timed_out_def advances_def clock_ok_def)
  then show ?thesis using adv same by (auto simp: advances_def w')
qed

lemma poll_until_returns:
  assumes "\<And>k. K \<le> k \<Longrightarrow> pf_send_done F k \<and> pf_receive F k = []" and "run_ok F w" and "clock_ok w"
  shows "\<exists>y. poll_until (turn F) w = Some y"
  using assms(2,3)
proof (induction "(K - pw_polls w, total_rank rank (pw_txs w), remaining F w)" arbitrary: w
    rule: wf_induct_rule [OF wf_lex_prod [OF wf_less_than wf_lex_prod [OF wf_less_than wf_less_than]]])
  case (1 w)
  obtain r w1 where t: "turn F w = (r, w1)" by force
  show ?case
  proof (cases "r = Inr Continue")
    case False
    then show ?thesis using t
      by (subst poll_until.simps) (auto split: sum.splits poll_flow.splits intro: poll_flow.exhaust)
  next
    case True
    note run = t [unfolded True]
    note sound = turn_sound [OF run 1(2)]
    have "((K - pw_polls w1, total_rank rank (pw_txs w1), remaining F w1),
        (K - pw_polls w, total_rank rank (pw_txs w), remaining F w)) \<in> less_than <*lex*> (less_than <*lex*> less_than)"
    proof (cases "pw_polls w < K")
      case False
      then show ?thesis using turn_decreases [OF run 1(2,3)] assms(1) [of "pw_polls w"] sound by auto
    qed (use sound in auto)
    from 1(1) [OF this] turn_clock [OF run 1(2,3) refl] sound
    show ?thesis by (subst poll_until.simps) (simp add: run)
  qed
qed

lemma finalized_sound:
  assumes "poll_and_finalize (vc_env C) (vc_network C) (vc_approval_label C) (vc_execution_label C) (turn F) w = Some (Inr peak, w')"
    and "run_ok F w"
  shows "list_all (\<lambda>tx. verdict_ok C tx \<and> \<not> is_active tx) (pw_txs w') \<and>
    ids (pw_txs w') = ids (pw_txs w) @ received F (pw_polls w) (pw_polls w') \<and> peak = compute_peak_throughput (pw_txs w')"
proof -
  obtain w1 where loop: "poll_until (turn F) w = Some (Inr (), w1)"
      and fin: "finalize_timed_out_txs (vc_env C) (vc_network C) (vc_approval_label C) (vc_execution_label C) w1 = (Inr (), w')"
      and peak: "peak = compute_peak_throughput (pw_txs w')"
    using assms(1) by (auto simp: poll_and_finalize_def io_runs split: option.splits prod.splits sum.splits)
  note sound = poll_until_sound [OF loop assms(2)] and settled = finalize_run [OF fin]
  have "list_all2 (settles C) (pw_txs w1) (pw_txs w')"
    using settled by (auto elim: list_all2_mono)
  moreover have "list_all (\<lambda>tx. \<not> is_active tx) (pw_txs w')"
    using settled by (auto simp: list_all2_conv_all_nth list_all_length)
  ultimately have "list_all (\<lambda>tx. verdict_ok C tx \<and> \<not> is_active tx) (pw_txs w')" "ids (pw_txs w') = ids (pw_txs w1)"
    using sound list_all2_settles_sound [of C "pw_txs w1" "pw_txs w'" shape] list_all2_settles_ids
    by (auto simp: run_ok_def list_all_iff sound_tx_def)
  then show ?thesis using sound settled peak by simp
qed

lemma finalized_returns:
  assumes "\<And>k. K \<le> k \<Longrightarrow> pf_send_done F k \<and> pf_receive F k = []" and "run_ok F w" and "clock_ok w"
  shows "\<exists>r w'. poll_and_finalize V n al el (turn F) w = Some (r, w')"
proof -
  obtain r w1 where "poll_until (turn F) w = Some (r, w1)"
    using poll_until_returns [of K F w] assms by auto
  then show ?thesis by (cases r) (auto simp: poll_and_finalize_def)
qed

end

subsection \<open>The GMP round\<close>

definition gmp_rank :: "pending_tx \<Rightarrow> nat" where
  "gmp_rank tx =
     (case pt_state tx of
        Active DiscoverSecondLeg \<Rightarrow> 6
      | Active Voted \<Rightarrow> 5
      | Active Routed \<Rightarrow> 4
      | Active HubApproved \<Rightarrow> 3
      | Active Approved \<Rightarrow> 2
      | Active Executed \<Rightarrow> 1
      | _ \<Rightarrow> 0)"

text \<open>A transaction as the senders create it.\<close>

definition fresh_tx :: "pending_tx \<Rightarrow> bool" where
  "fresh_tx tx = (is_active tx \<and> at_executed_ok (pt_timing tx) = None)"

lemma new_pending_fresh [simp]: "fresh_tx (new_pending input)"
  by (simp add: fresh_tx_def new_pending_def is_active_def no_timing_def)

lemma with_txs_Inr:
  "(with_txs f w = (Inr m, w')) = (\<exists>txs. f (poll_now w) (pw_txs w) = Inr (m, txs) \<and> w' = w\<lparr> pw_txs := txs \<rparr>)"
  by (auto simp: with_txs_def split: sum.splits)

lemma transition_state:
  "pt_message_id (snd (transition_to p tx)) = pt_message_id tx" "pt_timing (snd (transition_to p tx)) = pt_timing tx"
  "same_message tx (snd (transition_to p tx))"
  "pt_state (snd (transition_to p tx)) = pt_state tx \<or>
     is_active tx \<and> pt_state (snd (transition_to p tx)) = Active p"
  "fst (transition_to p tx) \<Longrightarrow> \<exists>q. pt_state tx = Active q \<and> can_transition_to q p \<and> pt_state (snd (transition_to p tx)) = Active p"
  "\<not> fst (transition_to p tx) \<Longrightarrow> snd (transition_to p tx) = tx"
  by (auto simp: transition_to_def same_message_def is_active_def split: verification_state.splits)

lemma verdict_stamped:
  assumes "verdict_ok C tx" and "\<And>s t. at_executed_ok (slot s t) = at_executed_ok t"
  shows "verdict_ok C (snd (transition_to p (stamp (slot s) tx)))"
proof -
  let ?tx = "snd (transition_to p (stamp (slot s) tx))"
  have "same_message tx ?tx" by (auto simp: transition_to_def stamp_def same_message_def split: verification_state.splits)
  then have "backed_by e c tx \<Longrightarrow> backed_by e c ?tx" for e c by (rule backed_by_same [rotated])
  then show ?thesis
    using assms transition_state(1,2) [of p "stamp (slot s) tx"] transition_state(4) [of p "stamp (slot s) tx"]
      verdict_active [OF assms(1)]
    by (auto simp: verdict_ok_def split: verification_state.splits verification_failure.splits bool.splits)
qed

lemma slots_executed_ok [simp]:
  "at_executed_ok (voted_slot s t) = at_executed_ok t" "at_executed_ok (routed_slot s t) = at_executed_ok t"
  "at_executed_ok (hub_approved_slot s t) = at_executed_ok t"
  by (simp_all add: voted_slot_def routed_slot_def hub_approved_slot_def)

lemma gmp_rank_transition:
  assumes "p \<in> {Routed, HubApproved, Approved}"
  shows "gmp_rank (snd (transition_to p tx)) \<le> gmp_rank tx \<and>
    (fst (transition_to p tx) \<longrightarrow> gmp_rank (snd (transition_to p tx)) < gmp_rank tx)"
proof (cases "fst (transition_to p tx)")
  case True
  then show ?thesis
    using assms transition_state(5) [OF True]
    by (auto simp: gmp_rank_def split: phase.splits elim!: can_transition_to.elims)
qed (simp add: transition_state(6))

lemma gmp_rank_stamp [simp]: "gmp_rank (stamp f tx) = gmp_rank tx"
  by (simp add: gmp_rank_def)

lemma destination_ops:
  "fst (approve_destination c tx) \<Longrightarrow> pt_state tx = Active Approved \<and> pt_state (snd (approve_destination c tx)) = Active Executed"
  "\<not> fst (approve_destination c tx) \<Longrightarrow> snd (approve_destination c tx) = tx"
  "fst (execute_destination c tx) \<Longrightarrow>
     pt_state tx \<in> {Active Approved, Active Executed} \<and> pt_state (snd (execute_destination c tx)) = Succeeded False"
  "\<not> fst (execute_destination c tx) \<Longrightarrow> snd (execute_destination c tx) = tx"
  by (auto simp: approve_destination_def execute_destination_def is_phase_def split: if_splits)

lemma gmp_rank_observation:
  "gmp_rank (snd (apply_observation now s tx)) \<le> gmp_rank tx \<and>
   (fst (apply_observation now s tx) \<longrightarrow> gmp_rank (snd (apply_observation now s tx)) < gmp_rank tx)"
  by (auto simp: apply_observation_def approve_destination_def execute_destination_def is_phase_def gmp_rank_def
      split: destination_status.splits)

lemma verdict_observation:
  assumes "verdict_ok C tx" and "same_message tx0 tx"
    and "is_active tx \<Longrightarrow> pt_state tx \<in> {Active Approved, Active Executed}"
    and "pt_state tx0 \<in> {Active Approved, Active Executed}"
    and "status_backed (vc_evidence C (vc_source_chain C) tx0) s"
  shows "verdict_ok C (snd (apply_observation now s tx)) \<and> same_message tx0 (snd (apply_observation now s tx)) \<and>
    (is_active (snd (apply_observation now s tx)) \<longrightarrow>
       pt_state (snd (apply_observation now s tx)) \<in> {Active Approved, Active Executed})"
proof (cases "is_active tx")
  case True
  have "backed_by (vc_evidence C) (vc_source_chain C) (snd (apply_observation now (DExecuted c) tx))" if "s = DExecuted c" for c
    using that assms(2,4,5) True
    by (auto simp: backed_by_def same_message_def apply_observation_def execute_destination_def stamp_def intro!: exI [of _ tx0])
  moreover have "at_executed_ok (pt_timing tx) = None" by (rule verdict_active [OF assms(1) True])
  moreover have "same_message tx0 (snd (apply_observation now s tx))"
    using assms(2) by (auto simp: same_message_def apply_observation_def execute_destination_def approve_destination_def
        stamp_def split: destination_status.splits)
  ultimately show ?thesis
    using True assms(1,3)
    by (cases s) (auto simp: apply_observation_def execute_destination_def approve_destination_def is_phase_def
        is_active_iff verdict_ok_def)
qed (use assms in \<open>simp add: apply_observation_def\<close>)

lemma collected_phases:
  assumes "collect_phases txs active = Inr ph"
  shows "i \<in> set (ph_voted ph) \<Longrightarrow> i < length txs \<and> pt_state (txs ! i) = Active Voted"
    "i \<in> set (ph_routed ph) \<Longrightarrow> i < length txs \<and> pt_state (txs ! i) = Active Routed"
    "i \<in> set (ph_hub_approved ph) \<Longrightarrow> i < length txs \<and> pt_state (txs ! i) = Active HubApproved"
    "i \<in> set (ph_discover_second_leg ph) \<Longrightarrow> i < length txs \<and> pt_state (txs ! i) = Active DiscoverSecondLeg"
    "i \<in> set (ph_destination ph) \<Longrightarrow> i < length txs \<and> pt_state (txs ! i) \<in> {Active Approved, Active Executed}"
proof -
  obtain entries where e: "map_ok (\<lambda>i. and_then (at_index txs i) (\<lambda>tx. Inr (i, tx))) active = Inr entries"
    using assms by (auto simp: collect_phases_def result_simps)
  have entry: "i < length txs \<and> tx = txs ! i" if "(i, tx) \<in> set entries" for i tx
    using map_ok_right [OF e that] by (auto simp: result_simps at_index_Inr)
  have ph: "ph = \<lparr> ph_voted = map fst (filter (\<lambda>(_, tx). is_phase tx Voted) entries),
      ph_routed = map fst (filter (\<lambda>(_, tx). is_phase tx Routed) entries),
      ph_hub_approved = map fst (filter (\<lambda>(_, tx). is_phase tx HubApproved) entries),
      ph_discover_second_leg = map fst (filter (\<lambda>(_, tx). is_phase tx DiscoverSecondLeg) entries),
      ph_approved = map fst (filter (\<lambda>(_, tx). is_phase tx Approved) entries),
      ph_executed = map fst (filter (\<lambda>(_, tx). is_phase tx Executed) entries) \<rparr>"
    using assms e by (simp add: collect_phases_def Let_def)
  show "i \<in> set (ph_voted ph) \<Longrightarrow> i < length txs \<and> pt_state (txs ! i) = Active Voted"
    "i \<in> set (ph_routed ph) \<Longrightarrow> i < length txs \<and> pt_state (txs ! i) = Active Routed"
    "i \<in> set (ph_hub_approved ph) \<Longrightarrow> i < length txs \<and> pt_state (txs ! i) = Active HubApproved"
    "i \<in> set (ph_discover_second_leg ph) \<Longrightarrow> i < length txs \<and> pt_state (txs ! i) = Active DiscoverSecondLeg"
    "i \<in> set (ph_destination ph) \<Longrightarrow> i < length txs \<and> pt_state (txs ! i) \<in> {Active Approved, Active Executed}"
    by (auto simp: ph is_phase_def ph_destination_def dest: entry)
qed

lemma indices_subset: "map fst rs = map fst entries \<Longrightarrow> fst ` set rs \<subseteq> fst ` set entries"
  by (metis list.set_map order_refl)

lemma phase_check_indices:
  assumes "\<And>c. outputs (query c) (\<lambda>rs. map fst rs = map fst entries)"
  shows "outputs (phase_check entries contract query) (\<lambda>rs. fst ` set rs \<subseteq> fst ` set entries)"
  unfolding phase_check_def
  by (auto simp: outputs_basic intro: outputs_weaken [OF assms indices_subset] rev_image_eqI split: option.splits)

lemma phase_check_since: "(\<And>c. keeps (since t) (query c)) \<Longrightarrow> keeps (since t) (phase_check entries contract query)"
  unfolding phase_check_def by (intro keeps_if keeps_option) simp_all

lemma join_checks_since:
  "keeps I a \<Longrightarrow> keeps I b \<Longrightarrow> keeps I c \<Longrightarrow> keeps I (join_checks a b c)"
  unfolding join_checks_def by (intro keeps_bind keeps_try) simp_all

lemma outputs_join:
  assumes "outputs a P" "outputs b Q" "outputs c R"
  shows "outputs (join_checks a b c) (\<lambda>(x, y, z). P x \<and> Q y \<and> R z)"
  unfolding join_checks_def
  by (rule outputs_bind [OF outputs_try [OF assms(1)]], rule outputs_bind [OF outputs_try [OF assms(2)]],
      rule outputs_bind [OF outputs_try [OF assms(3)]], rule outputs_weaken [OF outputs_lift])
    (auto simp: result_simps)

lemma cosmos_checks_indices:
  "outputs (run_cosmos_phase_checks V context data) (\<lambda>rs. fst ` set (pc_voted rs) \<subseteq> fst ` set (pd_voted data) \<and>
     fst ` set (pc_routed rs) \<subseteq> fst ` set (pd_routed data) \<and>
     fst ` set (pc_hub_approved rs) \<subseteq> fst ` set (pd_hub_approved data))"
  unfolding run_cosmos_phase_checks_def
  by (rule outputs_bind [OF outputs_join [OF phase_check_indices phase_check_indices phase_check_indices]])
    (auto simp: outputs_basic intro: batch_check_indices)

lemma cosmos_checks_since: "keeps (since t) (run_cosmos_phase_checks V context data)"
  unfolding run_cosmos_phase_checks_def
  by (intro keeps_bind join_checks_since phase_check_since keeps_prod) simp_all

text \<open>A pass of hub results keeps verdicts and touches only the transactions it is about.\<close>

lemma cosmos_pass:
  assumes "with_txs (apply_cosmos_results slot p results) w = (Inr m, w')"
    and "\<And>s t. at_executed_ok (slot s t) = at_executed_ok t"
    and "list_all (verdict_ok C) (pw_txs w)"
  shows "list_all (verdict_ok C) (pw_txs w') \<and> ids (pw_txs w') = ids (pw_txs w) \<and>
    (\<forall>i < length (pw_txs w). i \<notin> fst ` set results \<longrightarrow> pw_txs w' ! i = pw_txs w ! i) \<and>
    pw_net w' = pw_net w \<and> pw_polls w' = pw_polls w \<and> pw_last_progress w' = pw_last_progress w"
proof -
  obtain txs where run: "apply_each (\<lambda>_ tx. transition_to p (stamp (slot (elapsed (poll_now w) tx)) tx))
        (filter snd results) (pw_txs w) = Inr (m, txs)" and w': "w' = w\<lparr> pw_txs := txs \<rparr>"
    using assms(1) by (auto simp: with_txs_Inr apply_cosmos_results_def)
  let ?Q = "\<lambda>i tx. verdict_ok C tx \<and> pt_message_id tx = pt_message_id (pw_txs w ! i) \<and>
    (i \<notin> fst ` set results \<longrightarrow> tx = pw_txs w ! i)"
  have "length txs = length (pw_txs w) \<and> (\<forall>i < length (pw_txs w). ?Q i (txs ! i))"
  proof (rule apply_each_inv [OF run])
    show "?Q i (snd (transition_to p (stamp (slot (elapsed (poll_now w) tx)) tx)))"
      if "(i, x) \<in> set (filter snd results)" "?Q i tx" for i x tx
      using that verdict_stamped [OF _ assms(2), of C tx] by (force simp: transition_state)
  qed (use assms(3) in \<open>auto simp: list_all_length\<close>)
  then show ?thesis by (auto simp: w' list_all_length intro: nth_equalityI)
qed

lemma cosmos_pass_rank:
  assumes "with_txs (apply_cosmos_results slot p results) w = (Inr m, w')" and "p \<in> {Routed, HubApproved, Approved}"
  shows "total_rank gmp_rank (pw_txs w') \<le> total_rank gmp_rank (pw_txs w) \<and>
    (m \<longrightarrow> total_rank gmp_rank (pw_txs w') < total_rank gmp_rank (pw_txs w))"
proof -
  obtain txs where run: "apply_each (\<lambda>_ tx. transition_to p (stamp (slot (elapsed (poll_now w) tx)) tx))
        (filter snd results) (pw_txs w) = Inr (m, txs)" and w': "w' = w\<lparr> pw_txs := txs \<rparr>"
    using assms(1) by (auto simp: with_txs_Inr apply_cosmos_results_def)
  have "gmp_rank (snd (transition_to p (stamp f tx))) \<le> gmp_rank tx \<and>
      (fst (transition_to p (stamp f tx)) \<longrightarrow> gmp_rank (snd (transition_to p (stamp f tx))) < gmp_rank tx)" for f tx
    using gmp_rank_transition [OF assms(2), of "stamp f tx"] by simp
  then show ?thesis using apply_each_rank [OF run, of "\<lambda>_ _. True" gmp_rank] by (simp add: w')
qed

text \<open>The destination step, for any adapter and any ranking that its observations lower.\<close>

definition gmp_verdicts ::
  "verify_env \<Rightarrow> (string \<Rightarrow> pending_tx \<Rightarrow> bool) \<Rightarrow> poll_pipeline_args \<Rightarrow> string \<Rightarrow> string \<Rightarrow> verdict_context" where
  "gmp_verdicts V evidence args approval_label execution_label =
     \<lparr> vc_env = V, vc_network = pa_network args, vc_evidence = evidence,
       vc_source_chain = cx_source_chain (pa_context args),
       vc_approval_label = approval_label, vc_execution_label = execution_label \<rparr>"

lemma pipeline_phases_run:
  assumes "check_pipeline_phases V check args active w = (Inr progressed, w4)"
  obtains data rs net m1 w1 m2 w2 m3 w3 m4 where
    "collect_phase_check_data (pw_txs w) active (pa_destination_chain args) (pa_destination_address args) = Inr data"
    "run_cosmos_phase_checks V (pa_context args) data (pw_net w) = (Inr rs, net)"
    "with_txs (apply_cosmos_results voted_slot (if cx_cosm_gateway (pa_context args) \<noteq> None then Routed else Approved)
       (pc_voted rs)) (w\<lparr> pw_net := net \<rparr>) = (Inr m1, w1)"
    "with_txs (apply_cosmos_results routed_slot (if cx_axelarnet_gateway (pa_context args) \<noteq> None then HubApproved
       else Approved) (pc_routed rs)) w1 = (Inr m2, w2)"
    "with_txs (apply_cosmos_results hub_approved_slot Approved (pc_hub_approved rs)) w2 = (Inr m3, w3)"
    "check_destination check (cx_source_chain (pa_context args)) (pd_destination data) w3 = (Inr m4, w4)"
    "progressed = ((m1 \<or> m2 \<or> m3) \<or> m4)"
  using assms
  unfolding check_pipeline_phases_def apply_phase_check_results_def io_bind_eq_Inr on_net_Inr io_apply prod.inject
    sum.inject
  apply (elim exE conjE)
  apply hypsubst
  apply (rule that)
        apply assumption+
  done

context destination_verifier
begin

lemma destination_pass:
  assumes "check_destination check source_chain indices w = (Inr m, w')"
    and "\<And>i. i \<in> set indices \<Longrightarrow> pt_state (pw_txs w ! i) \<in> {Active Approved, Active Executed}"
    and "list_all (verdict_ok C) (pw_txs w)" and "vc_evidence C = evidence" and "vc_source_chain C = source_chain"
    and "\<And>now s tx. rank (snd (apply_observation now s tx)) \<le> rank tx \<and>
      (fst (apply_observation now s tx) \<longrightarrow> rank (snd (apply_observation now s tx)) < rank tx)"
  shows "list_all (verdict_ok C) (pw_txs w') \<and> length (pw_txs w') = length (pw_txs w) \<and>
    (\<forall>i < length (pw_txs w). same_message (pw_txs w ! i) (pw_txs w' ! i) \<and>
       (i \<notin> set indices \<longrightarrow> pw_txs w' ! i = pw_txs w ! i)) \<and>
    poll_now w \<le> poll_now w' \<and> pw_polls w' = pw_polls w \<and> pw_last_progress w' = pw_last_progress w \<and>
    total_rank rank (pw_txs w') \<le> total_rank rank (pw_txs w) \<and>
    (m \<longrightarrow> total_rank rank (pw_txs w') < total_rank rank (pw_txs w))"
proof (cases "indices = []")
  case True
  then show ?thesis using assms(1,3) by (simp add: check_destination_def same_message_def)
next
  case False
  let ?txs = "pw_txs w"
  obtain obs net txs where obs: "check source_chain ?txs indices (pw_net w) = (Inr obs, net)"
      and run: "apply_each (apply_observation (vw_now net)) obs ?txs = Inr (m, txs)"
      and w': "w' = w\<lparr> pw_net := net, pw_txs := txs \<rparr>"
    using assms(1) False
    by (auto simp: check_destination_def io_runs on_net_Inr with_txs_Inr apply_destination_observations_def)
  let ?Q = "\<lambda>i tx. verdict_ok C tx \<and> same_message (?txs ! i) tx \<and> (i \<notin> set indices \<longrightarrow> tx = ?txs ! i) \<and>
    (i \<in> set indices \<longrightarrow> is_active tx \<longrightarrow> pt_state tx \<in> {Active Approved, Active Executed})"
  have step: "?Q i (snd (apply_observation (vw_now net) s tx))" if "(i, s) \<in> set obs" "?Q i tx" for i s tx
  proof -
    have i: "i \<in> set indices" using observed_requested [OF obs that(1)] by blast
    have "status_backed (vc_evidence C (vc_source_chain C) (?txs ! i)) s"
      using observed_execution [OF obs] that(1) assms(4,5) by (auto simp: status_backed_def)
    from verdict_observation [OF _ _ _ assms(2) [OF i] this, of tx "vw_now net"] that(2) i show ?thesis by blast
  qed
  have start: "?Q i (?txs ! i)" if "i < length ?txs" for i
    using that assms(2,3) by (auto simp: list_all_length same_message_def)
  have "length txs = length ?txs \<and> (\<forall>i < length ?txs. ?Q i (txs ! i))"
    by (rule apply_each_inv [OF run start step])
  moreover have "total_rank rank txs \<le> total_rank rank ?txs \<and> (m \<longrightarrow> total_rank rank txs < total_rank rank ?txs)"
    using apply_each_rank [OF run, of "\<lambda>_ _. True" rank] assms(6) by simp
  ultimately show ?thesis using time_passes [OF obs] by (auto simp: w' list_all_length)
qed

lemma gmp_round_run:
  assumes "gmp_round V check args active w = (Inr (), w')"
    and "C = gmp_verdicts V evidence args al el" and "list_all (verdict_ok C) (pw_txs w)"
  shows "list_all (verdict_ok C) (pw_txs w') \<and> ids (pw_txs w') = ids (pw_txs w) \<and> advances gmp_rank w w'"
proof -
  let ?cx = "pa_context args" and ?rank = "total_rank gmp_rank"
  let ?p1 = "if cx_cosm_gateway ?cx \<noteq> None then Routed else Approved"
  let ?p2 = "if cx_axelarnet_gateway ?cx \<noteq> None then HubApproved else Approved"
  obtain progressed w4 where phases: "check_pipeline_phases V check args active w = (Inr progressed, w4)"
      and mark: "io_if progressed mark_progress (io_return ()) w4 = (Inr (), w')"
    using assms(1) unfolding gmp_round_def io_bind_eq_Inr by blast
  have w': "w' = (if progressed then w4\<lparr> pw_last_progress := poll_now w4 \<rparr> else w4)"
    using mark by (cases progressed) (simp_all add: mark_progress_def)
  obtain data rs net m1 w1 m2 w2 m3 w3 m4 where
      data: "collect_phase_check_data (pw_txs w) active (pa_destination_chain args) (pa_destination_address args) = Inr data"
      and rs: "run_cosmos_phase_checks V ?cx data (pw_net w) = (Inr rs, net)"
      and a1: "with_txs (apply_cosmos_results voted_slot ?p1 (pc_voted rs)) (w\<lparr> pw_net := net \<rparr>) = (Inr m1, w1)"
      and a2: "with_txs (apply_cosmos_results routed_slot ?p2 (pc_routed rs)) w1 = (Inr m2, w2)"
      and a3: "with_txs (apply_cosmos_results hub_approved_slot Approved (pc_hub_approved rs)) w2 = (Inr m3, w3)"
      and d: "check_destination check (cx_source_chain ?cx) (pd_destination data) w3 = (Inr m4, w4)"
      and moved: "progressed = ((m1 \<or> m2 \<or> m3) \<or> m4)"
    by (rule pipeline_phases_run [OF phases])
  obtain ph where ph: "collect_phases (pw_txs w) active = Inr ph" and
      entries: "fst ` set (pd_voted data) = set (ph_voted ph)" "fst ` set (pd_routed data) = set (ph_routed ph)"
        "fst ` set (pd_hub_approved data) = set (ph_hub_approved ph)" "pd_destination data = ph_destination ph"
    using data by (auto simp: collect_phase_check_data_def result_simps voted_entries_def message_entries_def image_image)
  note idx = outputsD [OF cosmos_checks_indices rs, unfolded entries]
  have time: "poll_now w \<le> vw_now net" by (rule since_run [OF cosmos_checks_since rs])
  have "list_all (verdict_ok C) (pw_txs (w\<lparr> pw_net := net \<rparr>))" using assms(3) by simp
  note p1 = cosmos_pass [OF a1 slots_executed_ok(1) this, simplified]
  note p2 = cosmos_pass [OF a2 slots_executed_ok(2) conjunct1 [OF p1]]
  note p3 = cosmos_pass [OF a3 slots_executed_ok(3) conjunct1 [OF p2]]
  have r: "?rank (pw_txs w1) \<le> ?rank (pw_txs w) \<and> (m1 \<longrightarrow> ?rank (pw_txs w1) < ?rank (pw_txs w))"
      "?rank (pw_txs w2) \<le> ?rank (pw_txs w1) \<and> (m2 \<longrightarrow> ?rank (pw_txs w2) < ?rank (pw_txs w1))"
      "?rank (pw_txs w3) \<le> ?rank (pw_txs w2) \<and> (m3 \<longrightarrow> ?rank (pw_txs w3) < ?rank (pw_txs w2))"
    using cosmos_pass_rank [OF a1] cosmos_pass_rank [OF a2] cosmos_pass_rank [OF a3] by auto
  have v: "list_all (verdict_ok C) (pw_txs w3)" "ids (pw_txs w3) = ids (pw_txs w)"
    using p1 p2 p3 by simp_all
  have lens: "length (pw_txs w1) = length (pw_txs w)" "length (pw_txs w2) = length (pw_txs w)"
    using p1 p2 by (metis length_map)+
  have dest: "pt_state (pw_txs w3 ! i) \<in> {Active Approved, Active Executed}" if "i \<in> set (pd_destination data)" for i
  proof -
    have i: "i < length (pw_txs w)" and st: "pt_state (pw_txs w ! i) \<in> {Active Approved, Active Executed}"
      using collected_phases(5) [OF ph] that entries(4) by auto
    have "i \<notin> set (ph_voted ph)" "i \<notin> set (ph_routed ph)" "i \<notin> set (ph_hub_approved ph)"
      using st collected_phases(1-3) [OF ph, of i] by auto
    then have out: "i \<notin> fst ` set (pc_voted rs)" "i \<notin> fst ` set (pc_routed rs)" "i \<notin> fst ` set (pc_hub_approved rs)"
      using idx by blast+
    have i1: "i < length (pw_txs w1)" and i2: "i < length (pw_txs w2)" using i lens by simp_all
    have "pw_txs w3 ! i = pw_txs w2 ! i" using p3 out(3) i2 by blast
    moreover have "pw_txs w2 ! i = pw_txs w1 ! i" using p2 out(2) i1 by blast
    moreover have "pw_txs w1 ! i = pw_txs w ! i" using p1 out(1) i by blast
    ultimately have "pw_txs w3 ! i = pw_txs w ! i" by simp
    then show ?thesis using st by simp
  qed
  have C: "vc_evidence C = evidence" "vc_source_chain C = cx_source_chain ?cx"
    by (simp_all add: assms(2) gmp_verdicts_def)
  note pass = destination_pass [OF d dest v(1) C gmp_rank_observation]
  have frame: "poll_now w3 = vw_now net" "pw_polls w3 = pw_polls w" "pw_last_progress w3 = pw_last_progress w"
    using p1 p2 p3 by simp_all
  have "ids (pw_txs w4) = ids (pw_txs w3)"
    using pass by (auto intro!: nth_equalityI simp: same_message_def)
  moreover have "?rank (pw_txs w4) \<le> ?rank (pw_txs w3) \<and> (m4 \<longrightarrow> ?rank (pw_txs w4) < ?rank (pw_txs w3))"
    using pass by blast
  then have "?rank (pw_txs w4) \<le> ?rank (pw_txs w) \<and> (progressed \<longrightarrow> ?rank (pw_txs w4) < ?rank (pw_txs w))"
    using r unfolding moved by linarith
  moreover have "list_all (verdict_ok C) (pw_txs w4)" "poll_now w3 \<le> poll_now w4" "pw_polls w4 = pw_polls w3"
      "pw_last_progress w4 = pw_last_progress w3"
    using pass by blast+
  ultimately show ?thesis
    using v(2) frame time by (cases progressed) (simp_all add: w' advances_def)
qed

end

sublocale destination_verifier \<subseteq> gmp: polling_round "gmp_verdicts V evidence args approval_label execution_label" fresh_tx
    "\<lambda>_. True" "fill_contract default_contract_addr" gmp_rank "gmp_round V check args"
  for V args approval_label execution_label default_contract_addr
proof unfold_locales
  let ?C = "gmp_verdicts V evidence args approval_label execution_label"
  show "sound_tx ?C (\<lambda>_. True) (fill_contract default_contract_addr tx) \<and>
      pt_message_id (fill_contract default_contract_addr tx) = pt_message_id tx" if "fresh_tx tx" for tx
    using that
    by (auto simp: sound_tx_def verdict_ok_def fresh_tx_def fill_contract_def is_active_iff split: option.splits)
  show "\<not> is_active tx \<Longrightarrow> gmp_rank tx = 0" for tx
    by (simp add: gmp_rank_def is_active_def split: verification_state.splits)
  show "list_all (sound_tx ?C (\<lambda>_. True)) (pw_txs w') \<and> ids (pw_txs w') = ids (pw_txs w)" "advances gmp_rank w w'"
    if "gmp_round V check args active w = (Inr (), w')" "list_all (sound_tx ?C (\<lambda>_. True)) (pw_txs w)" for active w w'
    using gmp_round_run [OF that(1) refl, of approval_label execution_label] that(2) by (simp_all add: sound_tx_def [abs_def])
qed

end
