(* ===== verification/Verify_Gmp.thy ===== *)
theory Verify_Gmp
  imports Verify_Polling
begin

text \<open>
  The GMP pipeline with each of its destination adapters: it returns once the sender has finished,
  every message it was given ends with a verdict, and every verdict is backed by an answer of the
  destination chain or of the GMP API.
\<close>

datatype gmp_destination =
    EvmDestination evm_gateway
  | SolanaDestination network
  | StellarDestination
  | SuiDestination string

fun gmp_adapter :: "verify_env \<Rightarrow> gmp_destination \<Rightarrow> destination_adapter" where
  "gmp_adapter V (EvmDestination gateway) = evm_destination_verifier V gateway"
| "gmp_adapter V (SolanaDestination n) = solana_destination_verifier V n"
| "gmp_adapter V StellarDestination = stellar_destination_verifier V"
| "gmp_adapter V (SuiDestination gateway_pkg) = sui_destination_verifier V gateway_pkg"

fun gmp_evidence :: "verify_env \<Rightarrow> gmp_destination \<Rightarrow> string \<Rightarrow> pending_tx \<Rightarrow> bool" where
  "gmp_evidence V (EvmDestination (AmplifierGateway b)) = amplifier_evidence V b"
| "gmp_evidence V (EvmDestination (LegacyGateway from_block m)) = legacy_evidence V"
| "gmp_evidence V (SolanaDestination n) = solana_evidence V n"
| "gmp_evidence V StellarDestination = stellar_evidence V"
| "gmp_evidence V (SuiDestination gateway_pkg) = sui_evidence V gateway_pkg"

lemma gmp_adapter_contract: "destination_verifier (da_check (gmp_adapter V d)) (gmp_evidence V d)"
proof (cases d)
  case (EvmDestination gateway)
  then show ?thesis
    by (cases gateway) (simp_all add: evm_destination_verifier_def evm_amplifier.destination_verifier_axioms
        evm_legacy.destination_verifier_axioms)
qed (simp_all add: solana_destination_verifier_def solana.destination_verifier_axioms
    stellar_destination_verifier_def stellar.destination_verifier_axioms
    sui_destination_verifier_def sui.destination_verifier_axioms)

interpretation gmp_adapters: destination_verifier "da_check (gmp_adapter V d)" "gmp_evidence V d" for V d
  by (rule gmp_adapter_contract)

definition gmp_verdicts_for :: "verify_env \<Rightarrow> gmp_destination \<Rightarrow> poll_pipeline_args \<Rightarrow> verdict_context" where
  "gmp_verdicts_for V d args =
     gmp_verdicts V (gmp_evidence V d) args (da_approval_label (gmp_adapter V d)) (da_execution_label (gmp_adapter V d))"

lemma poll_pipeline_cases:
  assumes "poll_pipeline V verifier F args w = Some (r, w')"
  obtains e where "r = Inl e"
  | default_contract_addr where
      "poll_and_finalize V (pa_network args) (da_approval_label verifier) (da_execution_label verifier)
         (poll_step V F (pa_network args) (fill_contract default_contract_addr) (gmp_round V (da_check verifier) args))
         (start_poll w) = Some (r, w')"
  using assms by (auto simp: poll_pipeline_def Let_def split: sum.splits)

lemma fresh_sound: "fresh_tx tx \<Longrightarrow> sound_tx C (\<lambda>_. True) tx"
  by (auto simp: fresh_tx_def sound_tx_def verdict_ok_def is_active_iff)

lemmas gmp_loop_sound = gmp_adapters.gmp.finalized_sound
  [unfolded gmp_adapters.gmp.turn_def gmp_adapters.gmp.run_ok_def gmp_adapters.gmp.received_def]

lemmas gmp_loop_returns = gmp_adapters.gmp.finalized_returns
  [unfolded gmp_adapters.gmp.turn_def gmp_adapters.gmp.run_ok_def gmp_adapters.gmp.clock_ok_def]

lemma start_poll_simps [simp]:
  "pw_txs (start_poll w) = pw_txs w" "pw_polls (start_poll w) = 0" "pw_net (start_poll w) = pw_net w"
  "pw_last_progress (start_poll w) = poll_now w"
  by (simp_all add: start_poll_def)

lemma gmp_verdicts_simps [simp]:
  "vc_env (gmp_verdicts V evidence args al el) = V" "vc_network (gmp_verdicts V evidence args al el) = pa_network args"
  "vc_approval_label (gmp_verdicts V evidence args al el) = al" "vc_execution_label (gmp_verdicts V evidence args al el) = el"
  by (simp_all add: gmp_verdicts_def)

lemma list_all_fresh_sound: "list_all fresh_tx txs \<Longrightarrow> list_all (sound_tx C (\<lambda>_. True)) txs"
  by (induction txs) (auto intro: fresh_sound)

lemma gmp_settled:
  assumes "poll_pipeline V (gmp_adapter V d) F args w = Some (Inr peak, w')"
    and "list_all fresh_tx (pw_txs w)" and "\<And>k. list_all fresh_tx (pf_receive F k)"
  shows "list_all (\<lambda>tx. verdict_ok (gmp_verdicts_for V d args) tx \<and> \<not> is_active tx) (pw_txs w') \<and>
    map pt_message_id (pw_txs w') =
      map pt_message_id (pw_txs w @ concat (map (pf_receive F) [0..<pw_polls w'])) \<and>
    peak = compute_peak_throughput (pw_txs w')"
proof -
  obtain default_contract_addr where
    "poll_and_finalize V (pa_network args) (da_approval_label (gmp_adapter V d)) (da_execution_label (gmp_adapter V d))
       (poll_step V F (pa_network args) (fill_contract default_contract_addr)
          (gmp_round V (da_check (gmp_adapter V d)) args)) (start_poll w) = Some (Inr peak, w')"
    using assms(1) by (auto elim: poll_pipeline_cases)
  then show ?thesis
    using gmp_loop_sound [where V = V and Va = V and d = d and args = args and F = F and w = "start_poll w"
        and approval_label = "da_approval_label (gmp_adapter V d)" and execution_label = "da_execution_label (gmp_adapter V d)"
        and default_contract_addr = default_contract_addr and peak = peak and w' = w'] list_all_fresh_sound [OF assms(2)] assms(3)
    by (simp add: gmp_verdicts_for_def map_concat comp_def)
qed


text \<open>
  C29: A GMP verification run ends.  Once the sender has finished and its channel is empty for
  good, the loop stops after finitely many polls, whatever the chains, the hub and the GMP API
  answer and however long they take.
\<close>

theorem gmp_poll_returns:
  assumes "\<And>k. K \<le> k \<Longrightarrow> pf_send_done F k \<and> pf_receive F k = []"
    and "list_all fresh_tx (pw_txs w)" and "\<And>k. list_all fresh_tx (pf_receive F k)"
  shows "\<exists>r w'. poll_pipeline V (gmp_adapter V d) F args w = Some (r, w')"
proof -
  have "\<exists>r w'. poll_and_finalize V (pa_network args) al el
      (poll_step V F (pa_network args) (fill_contract default_contract_addr)
        (gmp_round V (da_check (gmp_adapter V d)) args)) (start_poll w) = Some (r, w')" for default_contract_addr al el
    using gmp_loop_returns [where K = K and F = F and Va = V and Vb = V and d = d and args = args and w = "start_poll w"
        and default_contract_addr = default_contract_addr and V = V and n = "pa_network args" and al = al and el = el]
      list_all_fresh_sound [OF assms(2)] assms(1,3) by simp
  then show ?thesis by (auto simp: poll_pipeline_def Let_def split: sum.splits)
qed

text \<open>A run to Sui whose message is executed at the first poll.\<close>

definition sample_env :: verify_env where
  "sample_env =
     \<lparr> vn_latency = (\<lambda>_. 1000), vn_jitter = (\<lambda>_ _. 1000), vn_lcd_override = None,
       vn_get = (\<lambda>_ _. SendFailed), vn_encode = (\<lambda>_. None), vn_base64 = (\<lambda>s. s), vn_parse = (\<lambda>_. None),
       vn_hex = (\<lambda>_. None), vn_keccak = (\<lambda>_. 0), vn_parse_address = (\<lambda>_. None),
       vn_post_search = (\<lambda>_ _ _. Inr []), vn_discover = (\<lambda>_ _ _. Inr None),
       vn_message_approved = (\<lambda>_ _ _ _ _ _. Inr False), vn_message_executed = (\<lambda>_ _ _. Inr False),
       vn_command_executed = (\<lambda>_ _. Inr False), vn_find_approval = (\<lambda>_ _ _ _ _. Inr None),
       vn_message_pda = (\<lambda>_ _. []), vn_accounts = (\<lambda>_ _. Inr []),
       vn_stellar_approved = (\<lambda>_ _ _ _ _ _. Inr None), vn_stellar_executed = (\<lambda>_ _ _. Inr None),
       vn_sui_approved = (\<lambda>_ _ _ _. Inr True), vn_sui_executed = (\<lambda>_ _ _ _. Inr True),
       vn_xrpl_inbound = (\<lambda>_ _ _. Inr None) \<rparr>"

definition sample_pending :: "string \<Rightarrow> phase \<Rightarrow> pending_tx" where
  "sample_pending message_id p =
     new_pending
       \<lparr> pi_idx = 0, pi_message_id = message_id, pi_send_instant = 0, pi_source_address = ''src'',
         pi_contract_addr = 0, pi_payload_hash = Some 7, pi_payload_hash_hex = ''07'', pi_command_id = None,
         pi_gmp_destination_chain = ''sui'', pi_gmp_destination_address = ''0x1'', pi_initial_phase = p \<rparr>"

definition sample_args :: poll_pipeline_args where
  "sample_args =
     \<lparr> pa_context = \<lparr> cx_lcd = ''lcd'', cx_voting_verifier = None, cx_cosm_gateway = None,
         cx_axelarnet_gateway = None, cx_source_chain = ''eth'' \<rparr>,
       pa_destination_chain = ''sui'', pa_destination_address = ''0x1'', pa_network = DevnetAmplifier \<rparr>"

definition sample_poll :: poll_world where
  "sample_poll =
     \<lparr> pw_net = \<lparr> vw_now = 0, vw_calls = 0 \<rparr>, pw_txs = [sample_pending ''0xa-1'' Approved],
       pw_last_progress = 0, pw_last_check = 0, pw_polls = 0 \<rparr>"

definition sample_outcome :: "(peak_throughput result \<times> poll_world) option" where
  "sample_outcome =
     poll_pipeline sample_env (gmp_adapter sample_env (SuiDestination ''pkg'')) (batch_feed None) sample_args sample_poll"

lemma sample_fresh: "list_all fresh_tx (pw_txs sample_poll)" "list_all fresh_tx (pf_receive (batch_feed None) k)"
  by (simp_all add: sample_poll_def sample_pending_def batch_feed_def)

lemma sample_outcome_states:
  "map_option (\<lambda>(r, w). (is_ok r, map pt_state (pw_txs w), pw_polls w)) sample_outcome = Some (True, [Succeeded False], 2)"
  by code_simp

lemma sample_runs:
  obtains peak w where "sample_outcome = Some (Inr peak, w)" "map pt_state (pw_txs w) = [Succeeded False]" "pw_polls w = 2"
  using sample_outcome_states by (auto simp: is_ok_iff split: prod.splits)


theorem gmp_poll_returns_witness: "\<exists>r w'. sample_outcome = Some (r, w')"
  unfolding sample_outcome_def
  by (rule gmp_poll_returns [of 0 "batch_feed None", OF _ sample_fresh]) (simp add: batch_feed_def)

subsection \<open>The report of a run\<close>

definition succeeded_tx :: "pending_tx \<Rightarrow> bool" where
  "succeeded_tx tx = (case pt_state tx of Succeeded _ \<Rightarrow> True | _ \<Rightarrow> False)"

lemma settled_verdict:
  assumes "verdict_ok C tx" and "\<not> is_active tx"
  shows "is_ok_settled tx = succeeded_tx tx" "is_failed tx = (\<not> succeeded_tx tx)" "recovered_via_api tx \<Longrightarrow> succeeded_tx tx"
  using assms
  by (auto simp: verdict_ok_def is_ok_settled_def is_failed_def succeeded_tx_def is_active_def recovered_via_api_def
      split: verification_state.splits verification_failure.splits bool.splits)

lemma u64_rat_pos: "(0 < u64_rat n) = (0 < n)"
  unfolding u64_rat_def of_nat_0_less_iff word_less_nat_alt by simp

lemma u64_rat_nonneg: "0 \<le> u64_rat n"
  unfolding u64_rat_def by (rule of_nat_0_le_iff)

lemma filter_length_mono: "(\<And>x. x \<in> set xs \<Longrightarrow> P x \<Longrightarrow> Q x) \<Longrightarrow> length (filter P xs) \<le> length (filter Q xs)"
  by (induction xs) (auto intro: le_SucI)

lemma rate_in_unit: "s \<le> t \<Longrightarrow> 0 < t \<Longrightarrow> 0 \<le> u64_rat s / u64_rat t \<and> u64_rat s / u64_rat t \<le> 1" for s t :: u64
  using u64_rat_pos [of t] u64_rat_mono [of s t] u64_rat_nonneg [of s] by simp



subsection \<open>The order of observations\<close>

definition updated :: "('a \<Rightarrow> pending_tx \<Rightarrow> bool \<times> pending_tx) \<Rightarrow> (nat \<times> 'a) list \<Rightarrow> pending_tx list \<Rightarrow> pending_tx list" where
  "updated f rs txs =
     map (\<lambda>i. case map_of rs i of Some x \<Rightarrow> snd (f x (txs ! i)) | None \<Rightarrow> txs ! i) [0..<length txs]"

lemma apply_each_closed:
  "distinct (map fst rs) \<Longrightarrow>
   apply_each f rs txs =
     (if \<forall>(i, x) \<in> set rs. i < length txs
      then Inr (\<exists>(i, x) \<in> set rs. fst (f x (txs ! i)), updated f rs txs)
      else Inl (Report ''index out of bounds''))"
proof (induction rs arbitrary: txs)
  case Nil
  then show ?case by (simp add: updated_def map_nth)
next
  case (Cons r rs)
  obtain i x where r: "r = (i, x)" by (cases r)
  have i: "i \<notin> fst ` set rs" and "distinct (map fst rs)" using Cons.prems by (auto simp: r)
  note IH = Cons.IH [OF this(2)]
  show ?case
  proof (cases "i < length txs")
    case True
    let ?txs = "txs[i := snd (f x (txs ! i))]"
    have none: "map_of rs i = None" using i by (simp add: map_of_eq_None_iff)
    have moved: "(\<exists>(j, y) \<in> set rs. fst (f y (?txs ! j))) = (\<exists>(j, y) \<in> set rs. fst (f y (txs ! j)))"
      using i by (intro bex_cong) (auto simp: nth_list_update image_iff)
    have "updated f rs ?txs = updated f (r # rs) txs"
      using none by (auto simp: updated_def r nth_list_update intro!: map_cong split: option.splits)
    then show ?thesis using True IH [of ?txs] moved by (auto simp: r at_index_def)
  qed (simp add: r at_index_def)
qed

lemma map_of_mset:
  assumes "distinct (map fst rs)" and "mset rs = mset rs'"
  shows "distinct (map fst rs')" "map_of rs' = map_of rs"
proof -
  have set_eq: "set rs' = set rs" using assms(2) by (metis set_mset_mset)
  have "mset (map fst rs') = mset (map fst rs)" using assms(2) by simp
  then show d: "distinct (map fst rs')" using assms(1) mset_eq_imp_distinct_iff by blast
  show "map_of rs' = map_of rs" using set_eq assms(1) d by (simp add: map_of_inject_set)
qed



subsection \<open>A message that arrives after the last drain\<close>

text \<open>
  The scheduler empties the channel first and reads the flag of the sender afterwards.  When the
  sender queues its last message and raises the flag between the two, the loop takes the run for
  finished: the message is never verified and the run returns without it.
\<close>

theorem late_message_is_dropped:
  assumes "pf_receive F 0 = []" and "pf_receive F 1 = [tx]" and "pf_send_done F 0" and "pw_txs w = []"
    and "\<not> da_needs_contract_address verifier"
  shows "\<exists>w'. poll_pipeline V verifier F args w = Some (Inr no_throughput, w') \<and> pw_txs w' = []"
  using assms
  by (simp add: poll_pipeline_def Let_def poll_and_finalize_def poll_until.simps poll_step_def next_action_def
      finalize_timed_out_txs_def io_bind_def on_net_def compute_peak_throughput_def reduce_def)

end
