(* ===== verification/Verify_Its.thy ===== *)
theory Verify_Its
  imports Verify_Gmp
begin

text \<open>
  The ITS pipeline of \<open>verification/engine/pipeline.rs\<close>: a transfer goes through the hub, whose
  own message to the destination chain, the second leg, is discovered and then verified.  The
  scheduler, the loop and the final verdicts are those of the GMP pipeline.
\<close>

datatype second_leg_target = TargetRouted | TargetDestinationApproval

record its_hub_verifier =
  ih_lcd :: string
  ih_voting_verifier :: "string option"
  ih_source_chain :: string
  ih_axelarnet_gateway :: string
  ih_rpc :: string
  ih_destination_gateway :: string
  ih_second_leg_target :: second_leg_target
  ih_backfill_voted_timing :: bool

record its_hub_phase_data =
  id_voted :: "voted_entry list"
  id_hub_approved :: "(nat \<times> string) list"
  id_routed :: "(nat \<times> string) list"
  id_voting_destination :: "string \<times> string"

definition normalize_start :: "its_hub_verifier \<Rightarrow> pending_tx \<Rightarrow> pending_tx" where
  "normalize_start H tx =
     (if ih_voting_verifier H = None \<and> is_phase tx Voted then snd (transition_to HubApproved tx) else tx)"

definition collect_phase_data :: "pending_tx list \<Rightarrow> phase_indices \<Rightarrow> its_hub_phase_data result" where
  "collect_phase_data txs phases =
     and_then (map_ok (\<lambda>i. and_then (required_second_leg (txs ! i)) (\<lambda>leg. Inr (i, sl_message_id leg)))
       (ph_routed phases)) (\<lambda>routed.
     Inr \<lparr> id_voted = voted_entries txs (ph_voted phases),
           id_hub_approved = message_entries txs (ph_hub_approved phases),
           id_routed = routed,
           id_voting_destination =
             (case first_destination txs (ph_voted phases) of Some d \<Rightarrow> d | None \<Rightarrow> ([], [])) \<rparr>)"

definition run_phase_checks ::
  "verify_env \<Rightarrow> its_hub_verifier \<Rightarrow> its_hub_phase_data \<Rightarrow> (verify_world, phase_check_results) io" where
  "run_phase_checks V H data =
     io_bind (join_checks
       (phase_check (id_voted data) (ih_voting_verifier H) (\<lambda>verifier.
          batch_check_voting_verifier_owned V (ih_lcd H) verifier (ih_source_chain H)
            (fst (id_voting_destination data)) (snd (id_voting_destination data)) (id_voted data)))
       (phase_check (id_hub_approved data) (Some (ih_axelarnet_gateway H)) (\<lambda>gateway.
          batch_check_hub_approved_owned V (ih_lcd H) gateway (ih_source_chain H) (id_hub_approved data)))
       (phase_check (id_routed data) (Some (ih_destination_gateway H)) (\<lambda>gateway.
          batch_check_cosmos_routed_owned V (ih_lcd H) gateway ''axelar'' (id_routed data))))
     (\<lambda>(voted, hub_approved, routed).
     io_return \<lparr> pc_voted = voted, pc_routed = routed, pc_hub_approved = hub_approved \<rparr>)"

definition backfill_slot :: "bool \<Rightarrow> timing_slot" where
  "backfill_slot backfill s t =
     t\<lparr> at_voted_secs := (if backfill \<and> at_voted_secs t = None then Some s else at_voted_secs t),
        at_hub_approved_secs := Some s \<rparr>"

definition apply_phase_results :: "its_hub_verifier \<Rightarrow> phase_check_results \<Rightarrow> (poll_world, bool) io" where
  "apply_phase_results H results =
     io_bind (with_txs (apply_cosmos_results voted_slot HubApproved (pc_voted results))) (\<lambda>voted.
     io_bind (with_txs (apply_cosmos_results (backfill_slot (ih_backfill_voted_timing H)) DiscoverSecondLeg
       (pc_hub_approved results))) (\<lambda>hub.
     io_bind (with_txs (apply_cosmos_results routed_slot Approved (pc_routed results))) (\<lambda>routed.
     io_return (voted \<or> hub \<or> routed))))"

text \<open>The first failed lookup, or a payload hash that does not parse, ends the run.\<close>

definition leg_found ::
  "verify_env \<Rightarrow> nat \<times> leg_info option \<Rightarrow> (nat \<times> second_leg) option result" where
  "leg_found V found =
     (case found of
        (i, None) \<Rightarrow> Inr None
      | (i, Some info) \<Rightarrow>
          (case parse_payload_hash (vn_hex V) (li_payload_hash info) of
             Inl _ \<Rightarrow> Inl (Report ''tx has an invalid second-leg payload_hash'')
           | Inr h \<Rightarrow>
               Inr (Some (i, \<lparr> sl_message_id = li_message_id info, sl_payload_hash = h,
                 sl_source_address = li_source_address info,
                 sl_destination_address = li_destination_address info \<rparr>))))"

definition target_phase :: "second_leg_target \<Rightarrow> phase" where
  "target_phase t = (case t of TargetRouted \<Rightarrow> Routed | TargetDestinationApproval \<Rightarrow> Approved)"

definition discover_second_legs :: "verify_env \<Rightarrow> its_hub_verifier \<Rightarrow> nat list \<Rightarrow> (poll_world, bool) io" where
  "discover_second_legs V H indices =
     io_bind (io_gets pw_txs) (\<lambda>txs.
     io_bind (on_net (io_map (\<lambda>(i, message_id). io_try
       (io_bind (read_net V (\<lambda>k. vn_discover V k (ih_rpc H) message_id)) (\<lambda>info. io_return (i, info))))
       (message_entries txs indices))) (\<lambda>results.
     io_bind (io_lift (map_ok (\<lambda>r. and_then r (leg_found V)) results)) (\<lambda>legs.
     with_txs (\<lambda>_. apply_each (\<lambda>leg. discover_second_leg leg (target_phase (ih_second_leg_target H)))
       (List.map_filter id legs)))))"

definition check_hub :: "verify_env \<Rightarrow> its_hub_verifier \<Rightarrow> phase_indices \<Rightarrow> (poll_world, bool) io" where
  "check_hub V H phases =
     io_bind (io_gets pw_txs) (\<lambda>txs.
     io_bind (io_lift (collect_phase_data txs phases)) (\<lambda>data.
     io_bind (on_net (run_phase_checks V H data)) (\<lambda>results.
     io_bind (apply_phase_results H results) (\<lambda>progressed.
     io_bind (discover_second_legs V H (ph_discover_second_leg phases)) (\<lambda>discovered.
     io_return (progressed \<or> discovered))))))"

definition mark_if :: "bool \<Rightarrow> (poll_world, unit) io" where
  "mark_if progressed = io_if progressed mark_progress (io_return ())"

definition its_round ::
  "verify_env \<Rightarrow> its_hub_verifier \<Rightarrow> destination_check \<Rightarrow> nat list \<Rightarrow> (poll_world, unit) io" where
  "its_round V H check active =
     io_bind (io_gets pw_txs) (\<lambda>txs.
     io_bind (io_lift (collect_phases txs active)) (\<lambda>phases.
     io_bind (check_hub V H phases) (\<lambda>progressed.
     io_bind (mark_if progressed) (\<lambda>_.
     io_bind (check_destination check ''axelar'' (ph_destination phases)) (\<lambda>moved.
     mark_if moved)))))"

definition poll_its ::
  "verify_env \<Rightarrow> its_hub_verifier \<Rightarrow> destination_adapter \<Rightarrow> poll_feed \<Rightarrow> network \<Rightarrow> poll_world
   \<Rightarrow> (peak_throughput result \<times> poll_world) option" where
  "poll_its V H dest F n w =
     (let w = start_poll w;
          w = w\<lparr> pw_txs := map (normalize_start H) (pw_txs w) \<rparr> in
      poll_and_finalize V n (da_approval_label dest) (da_execution_label dest)
        (poll_step V F n (normalize_start H) (its_round V H (da_check dest))) w)"

record poll_its_hub_args =
  ia_lcd :: string
  ia_voting_verifier :: "string option"
  ia_source_chain :: string
  ia_axelarnet_gateway :: string
  ia_rpc :: string
  ia_cosm_gateway_dest :: string
  ia_network :: network

definition hub_verifier :: "poll_its_hub_args \<Rightarrow> second_leg_target \<Rightarrow> bool \<Rightarrow> its_hub_verifier" where
  "hub_verifier args target backfill =
     \<lparr> ih_lcd = ia_lcd args, ih_voting_verifier = ia_voting_verifier args, ih_source_chain = ia_source_chain args,
       ih_axelarnet_gateway = ia_axelarnet_gateway args, ih_rpc = ia_rpc args,
       ih_destination_gateway = ia_cosm_gateway_dest args, ih_second_leg_target = target,
       ih_backfill_voted_timing = backfill \<rparr>"

definition poll_pipeline_its_hub ::
  "verify_env \<Rightarrow> destination_adapter \<Rightarrow> poll_feed \<Rightarrow> poll_its_hub_args \<Rightarrow> poll_world
   \<Rightarrow> (peak_throughput result \<times> poll_world) option" where
  "poll_pipeline_its_hub V dest F args w =
     poll_its V (hub_verifier args TargetRouted False) dest F (ia_network args) w"

definition poll_pipeline_its_hub_evm ::
  "verify_env \<Rightarrow> its_evm_dest \<Rightarrow> poll_feed \<Rightarrow> poll_its_hub_args \<Rightarrow> poll_world
   \<Rightarrow> (peak_throughput result \<times> poll_world) option" where
  "poll_pipeline_its_hub_evm V dest F args w =
     poll_its V
       (hub_verifier args
         (case dest of ItsLegacy _ \<Rightarrow> TargetDestinationApproval | ItsAmplifier \<Rightarrow> TargetRouted) True)
       (evm_its_destination_verifier V dest) F (ia_network args) w"

subsection \<open>The ITS round keeps the promise\<close>

definition its_rank :: "pending_tx \<Rightarrow> nat" where
  "its_rank tx =
     (case pt_state tx of
        Active Voted \<Rightarrow> 6
      | Active HubApproved \<Rightarrow> 5
      | Active DiscoverSecondLeg \<Rightarrow> 4
      | Active Routed \<Rightarrow> 3
      | Active Approved \<Rightarrow> 2
      | Active Executed \<Rightarrow> 1
      | _ \<Rightarrow> 0)"

text \<open>Past the hub, the second leg of a transfer is known.\<close>

definition leg_known :: "pending_tx \<Rightarrow> bool" where
  "leg_known tx = (pt_state tx \<in> {Active Routed, Active Approved, Active Executed} \<longrightarrow> pt_second_leg tx \<noteq> None)"

text \<open>A transfer as the ITS senders create it.\<close>

definition fresh_its :: "pending_tx \<Rightarrow> bool" where
  "fresh_its tx = (fresh_tx tx \<and> pt_state tx \<in> {Active Voted, Active HubApproved})"

lemma its_rank_observation:
  "its_rank (snd (apply_observation now s tx)) \<le> its_rank tx \<and>
   (fst (apply_observation now s tx) \<longrightarrow> its_rank (snd (apply_observation now s tx)) < its_rank tx)"
  by (auto simp: apply_observation_def approve_destination_def execute_destination_def is_phase_def its_rank_def
      split: destination_status.splits)

lemma backfill_executed_ok [simp]: "at_executed_ok (backfill_slot b s t) = at_executed_ok t"
  by (simp add: backfill_slot_def)

abbreviation its_sound :: "verdict_context \<Rightarrow> pending_tx \<Rightarrow> bool" where
  "its_sound C \<equiv> sound_tx C leg_known"

text \<open>What a step of the hub check keeps: \<open>idx\<close> are the transactions it may touch.\<close>

definition its_pass :: "verdict_context \<Rightarrow> nat set \<Rightarrow> bool \<Rightarrow> poll_world \<Rightarrow> poll_world \<Rightarrow> bool" where
  "its_pass C idx m w w' =
     (list_all (its_sound C) (pw_txs w') \<and> ids (pw_txs w') = ids (pw_txs w) \<and>
      (\<forall>i < length (pw_txs w). i \<notin> idx \<longrightarrow> pw_txs w' ! i = pw_txs w ! i) \<and>
      poll_now w \<le> poll_now w' \<and> pw_polls w' = pw_polls w \<and> pw_last_progress w' = pw_last_progress w \<and>
      total_rank its_rank (pw_txs w') \<le> total_rank its_rank (pw_txs w) \<and>
      (m \<longrightarrow> total_rank its_rank (pw_txs w') < total_rank its_rank (pw_txs w)))"

lemma its_pass_trans:
  assumes "its_pass C a m w1 w2" and "its_pass C b n w2 w3"
  shows "its_pass C (a \<union> b) (m \<or> n) w1 w3"
proof -
  have len: "length (pw_txs w2) = length (pw_txs w1)"
    using assms(1) unfolding its_pass_def by (metis length_map)
  have "pw_txs w3 ! i = pw_txs w1 ! i" if "i < length (pw_txs w1)" "i \<notin> a \<union> b" for i
    using assms that len unfolding its_pass_def by (metis UnCI)
  then show ?thesis using assms unfolding its_pass_def by auto
qed

lemma its_transition:
  assumes "pt_state tx \<in> {Active q, Active p}" and "can_transition_to q p" and "\<not> can_transition_to p p"
  shows "pt_state (snd (transition_to p (stamp f tx))) = Active p \<and>
    pt_second_leg (snd (transition_to p (stamp f tx))) = pt_second_leg tx \<and>
    (fst (transition_to p (stamp f tx)) \<longrightarrow> pt_state tx = Active q)"
  using assms by (auto simp: transition_to_def)

lemma cosmos_its_pass:
  assumes run: "with_txs (apply_cosmos_results slot p results) w = (Inr m, w')"
    and slot: "\<And>s t. at_executed_ok (slot s t) = at_executed_ok t"
    and sound: "list_all (its_sound C) (pw_txs w)"
    and idx: "\<And>i. i \<in> fst ` set results \<Longrightarrow> pt_state (pw_txs w ! i) = Active q"
    and can: "can_transition_to q p" "\<not> can_transition_to p p"
    and lower: "\<And>tx. pt_state tx = Active p \<Longrightarrow> its_rank tx < its_rank (tx\<lparr> pt_state := Active q \<rparr>)"
    and legs: "p \<in> {Routed, Approved, Executed} \<Longrightarrow> q \<in> {Routed, Approved, Executed}"
  shows "its_pass C (fst ` set results) m w w'"
proof -
  let ?txs = "pw_txs w" and ?f = "\<lambda>_ tx. transition_to p (stamp (slot (elapsed (poll_now w) tx)) tx)"
  obtain txs where each: "apply_each ?f (filter snd results) ?txs = Inr (m, txs)" and w': "w' = w\<lparr> pw_txs := txs \<rparr>"
    using run by (auto simp: with_txs_Inr apply_cosmos_results_def)
  let ?Q = "\<lambda>i tx. its_sound C tx \<and> pt_message_id tx = pt_message_id (?txs ! i) \<and>
    (i \<notin> fst ` set results \<longrightarrow> tx = ?txs ! i) \<and>
    (i \<in> fst ` set results \<longrightarrow> pt_state tx \<in> {Active q, Active p} \<and> (pt_second_leg tx \<noteq> None \<or> p \<notin> {Routed, Approved, Executed}))"
  have start: "?Q i (?txs ! i)" if "i < length ?txs" for i
    using that sound idx legs by (auto simp: list_all_length sound_tx_def leg_known_def is_active_iff)
  have step: "?Q i (snd (?f x tx)) \<and> its_rank (snd (?f x tx)) \<le> its_rank tx \<and>
      (fst (?f x tx) \<longrightarrow> its_rank (snd (?f x tx)) < its_rank tx)"
    if "(i, x) \<in> set (filter snd results)" "?Q i tx" for i x tx
  proof -
    have i: "i \<in> fst ` set results" using that(1) by force
    then have st: "pt_state tx \<in> {Active q, Active p}" using that(2) by blast
    note t = its_transition [OF st can, of "slot (elapsed (poll_now w) tx)"]
    have "verdict_ok C (snd (?f x tx))" using that(2) verdict_stamped [OF _ slot, of C tx] by (simp add: sound_tx_def)
    moreover have "its_rank (snd (?f x tx)) = its_rank (tx\<lparr> pt_state := Active p \<rparr>)"
      using t by (simp add: its_rank_def)
    moreover have "its_rank (tx\<lparr> pt_state := Active p \<rparr>) < its_rank (tx\<lparr> pt_state := Active q \<rparr>)"
      using lower [of "tx\<lparr> pt_state := Active p \<rparr>"] by simp
    moreover have "its_rank tx = its_rank (tx\<lparr> pt_state := Active q \<rparr>) \<or> its_rank tx = its_rank (tx\<lparr> pt_state := Active p \<rparr>)"
      using st by (auto simp: its_rank_def)
    moreover have "fst (?f x tx) \<Longrightarrow> its_rank tx = its_rank (tx\<lparr> pt_state := Active q \<rparr>)"
      using t by (simp add: its_rank_def)
    moreover have "its_sound C (snd (?f x tx))"
      using calculation(1) t that(2) i by (auto simp: sound_tx_def leg_known_def)
    ultimately show ?thesis using t that(2) i by (auto simp: transition_state)
  qed
  have "length txs = length ?txs \<and> (\<forall>i < length ?txs. ?Q i (txs ! i))"
    by (rule apply_each_inv [where Q = ?Q, OF each start conjunct1 [OF step]])
  moreover have "total_rank its_rank txs \<le> total_rank its_rank ?txs \<and> (m \<longrightarrow> total_rank its_rank txs < total_rank its_rank ?txs)"
    by (rule apply_each_rank [where Q = ?Q, OF each start step])
  ultimately show ?thesis by (auto simp: its_pass_def w' list_all_length intro: nth_equalityI)
qed

lemma discover_eq:
  assumes "p \<in> {Routed, Approved}"
  shows "discover_second_leg leg p tx =
    (if pt_state tx = Active DiscoverSecondLeg then (True, tx\<lparr> pt_second_leg := Some leg, pt_state := Active p \<rparr>)
     else (False, tx))"
proof -
  have "can_transition_to DiscoverSecondLeg p" using assms by simp
  then show ?thesis by (cases "pt_state tx") (simp_all add: discover_second_leg_def)
qed

lemma discover_step:
  assumes "p \<in> {Routed, Approved}" and "its_sound C tx"
  shows "its_sound C (snd (discover_second_leg leg p tx)) \<and>
    pt_message_id (snd (discover_second_leg leg p tx)) = pt_message_id tx \<and>
    its_rank (snd (discover_second_leg leg p tx)) \<le> its_rank tx \<and>
    (fst (discover_second_leg leg p tx) \<longrightarrow> its_rank (snd (discover_second_leg leg p tx)) < its_rank tx)"
proof (cases "pt_state tx = Active DiscoverSecondLeg")
  case True
  have "its_rank (tx\<lparr> pt_second_leg := Some leg, pt_state := Active p \<rparr>) < its_rank tx"
    using assms(1) True by (auto simp: its_rank_def)
  moreover have "its_sound C (tx\<lparr> pt_second_leg := Some leg, pt_state := Active p \<rparr>)"
    using assms(2) True by (simp add: sound_tx_def verdict_ok_def leg_known_def is_active_iff)
  ultimately show ?thesis using True by (simp add: discover_eq [OF assms(1)])
qed (use assms(2) in \<open>simp add: discover_eq [OF assms(1)]\<close>)

lemma discover_pass:
  assumes "discover_second_legs V H indices w = (Inr m, w')" and "list_all (its_sound C) (pw_txs w)"
  shows "its_pass C (set indices) m w w'"
proof -
  let ?txs = "pw_txs w" and ?p = "target_phase (ih_second_leg_target H)"
  let ?read = "\<lambda>(i, message_id). io_try (io_bind (read_net V (\<lambda>k. vn_discover V k (ih_rpc H) message_id))
    (\<lambda>info. io_return (i, info)))"
  obtain results net legs txs where
      read: "io_map ?read (message_entries ?txs indices) (pw_net w) = (Inr results, net)"
      and legs: "map_ok (\<lambda>r. and_then r (leg_found V)) results = Inr legs"
      and each: "apply_each (\<lambda>leg. discover_second_leg leg ?p) (List.map_filter id legs) ?txs = Inr (m, txs)"
      and w': "w' = w\<lparr> pw_net := net, pw_txs := txs \<rparr>"
    using assms(1) by (auto simp: discover_second_legs_def io_runs on_net_Inr with_txs_Inr)
  have p: "?p \<in> {Routed, Approved}" by (simp add: target_phase_def split: second_leg_target.splits)
  have "outputs (?read e) (\<lambda>r. \<forall>x. r = Inr x \<longrightarrow> fst x = fst e)" for e
  proof (cases e)
    case (Pair i message_id)
    have "outputs (io_bind (read_net V (\<lambda>k. vn_discover V k (ih_rpc H) message_id)) (\<lambda>info. io_return (i, info)))
        (\<lambda>x. fst x = i)" by (rule outputs_bind [OF outputs_any]) (simp add: outputs_basic)
    from outputs_try [OF this] show ?thesis by (simp add: Pair)
  qed
  from outputsD [OF outputs_map [OF this] read]
  have read_idx: "list_all2 (\<lambda>e r. \<forall>x. r = Inr x \<longrightarrow> fst x = fst e) (message_entries ?txs indices) results" by simp
  have results_idx: "i \<in> set indices" if "Inr (i, info) \<in> set results" for i info
    using list_all2_right [OF read_idx that] by (auto simp: message_entries_def)
  have idx: "i \<in> set indices" if "(i, leg) \<in> set (List.map_filter id legs)" for i leg
  proof -
    have "Some (i, leg) \<in> set legs" using that by (auto simp: List.map_filter_def)
    from map_ok_right [OF legs this] obtain r where "r \<in> set results" "and_then r (leg_found V) = Inr (Some (i, leg))" by blast
    then obtain j info where "Inr (j, info) \<in> set results" "leg_found V (j, info) = Inr (Some (i, leg))"
      by (auto simp: result_simps)
    moreover have "j = i" using calculation(2) by (auto simp: leg_found_def split: option.splits sum.splits)
    ultimately show ?thesis using results_idx by blast
  qed
  let ?Q = "\<lambda>i tx. its_sound C tx \<and> pt_message_id tx = pt_message_id (?txs ! i) \<and> (i \<notin> set indices \<longrightarrow> tx = ?txs ! i)"
  have start: "?Q i (?txs ! i)" if "i < length ?txs" for i using that assms(2) by (auto simp: list_all_length)
  have step: "?Q i (snd (discover_second_leg leg ?p tx)) \<and> its_rank (snd (discover_second_leg leg ?p tx)) \<le> its_rank tx \<and>
      (fst (discover_second_leg leg ?p tx) \<longrightarrow> its_rank (snd (discover_second_leg leg ?p tx)) < its_rank tx)"
    if "(i, leg) \<in> set (List.map_filter id legs)" "?Q i tx" for i leg tx
    using discover_step [OF p, of C tx leg] that idx [OF that(1)] by simp
  have "length txs = length ?txs \<and> (\<forall>i < length ?txs. ?Q i (txs ! i))"
    by (rule apply_each_inv [where Q = ?Q, OF each start conjunct1 [OF step]])
  moreover have "total_rank its_rank txs \<le> total_rank its_rank ?txs \<and> (m \<longrightarrow> total_rank its_rank txs < total_rank its_rank ?txs)"
    by (rule apply_each_rank [where Q = ?Q, OF each start step])
  moreover have "poll_now w \<le> vw_now net"
    by (rule since_run [OF keeps_map read]) (auto intro!: keeps_prod keeps_try keeps_bind)
  ultimately show ?thesis by (auto simp: its_pass_def w' list_all_length intro: nth_equalityI)
qed

lemma hub_checks_indices:
  "outputs (run_phase_checks V H data) (\<lambda>rs. fst ` set (pc_voted rs) \<subseteq> fst ` set (id_voted data) \<and>
     fst ` set (pc_hub_approved rs) \<subseteq> fst ` set (id_hub_approved data) \<and>
     fst ` set (pc_routed rs) \<subseteq> fst ` set (id_routed data))"
  unfolding run_phase_checks_def
  by (rule outputs_bind [OF outputs_join [OF phase_check_indices phase_check_indices phase_check_indices]])
    (auto simp: outputs_basic intro: batch_check_indices)

lemma hub_checks_since: "keeps (since t) (run_phase_checks V H data)"
  unfolding run_phase_checks_def
  by (intro keeps_bind join_checks_since phase_check_since keeps_prod) simp_all

lemma check_hub_run:
  assumes "check_hub V H phases w = (Inr m, w')"
  obtains data rs net m1 w1 m2 w2 m3 w3 m4 where
    "collect_phase_data (pw_txs w) phases = Inr data"
    "run_phase_checks V H data (pw_net w) = (Inr rs, net)"
    "with_txs (apply_cosmos_results voted_slot HubApproved (pc_voted rs)) (w\<lparr> pw_net := net \<rparr>) = (Inr m1, w1)"
    "with_txs (apply_cosmos_results (backfill_slot (ih_backfill_voted_timing H)) DiscoverSecondLeg (pc_hub_approved rs)) w1
       = (Inr m2, w2)"
    "with_txs (apply_cosmos_results routed_slot Approved (pc_routed rs)) w2 = (Inr m3, w3)"
    "discover_second_legs V H (ph_discover_second_leg phases) w3 = (Inr m4, w')"
    "m = ((m1 \<or> m2 \<or> m3) \<or> m4)"
  using assms
  unfolding check_hub_def apply_phase_results_def io_bind_eq_Inr on_net_Inr io_apply prod.inject sum.inject
  apply (elim exE conjE)
  apply hypsubst
  apply (rule that)
        apply assumption+
  done

lemma its_pass_state:
  "its_pass C idx m w w' \<Longrightarrow> i < length (pw_txs w) \<Longrightarrow> i \<notin> idx \<Longrightarrow> pw_txs w' ! i = pw_txs w ! i"
  by (simp add: its_pass_def)

lemma its_pass_length: "its_pass C idx m w w' \<Longrightarrow> length (pw_txs w') = length (pw_txs w)"
  unfolding its_pass_def by (metis length_map)

lemma its_pass_sound: "its_pass C idx m w w' \<Longrightarrow> list_all (its_sound C) (pw_txs w')"
  by (simp add: its_pass_def)

lemma its_pass_mono: "its_pass C a m w w' \<Longrightarrow> a \<subseteq> b \<Longrightarrow> its_pass C b m w w'"
  unfolding its_pass_def by blast

lemma collected_data:
  assumes "collect_phase_data txs phases = Inr data"
  shows "fst ` set (id_voted data) = set (ph_voted phases)" "fst ` set (id_hub_approved data) = set (ph_hub_approved phases)"
    "fst ` set (id_routed data) \<subseteq> set (ph_routed phases)"
  using assms
  by (auto simp: collect_phase_data_def result_simps voted_entries_def message_entries_def image_image dest!: map_ok_right)

lemma its_ranks_lower:
  "pt_state tx = Active HubApproved \<Longrightarrow> its_rank tx < its_rank (tx\<lparr> pt_state := Active Voted \<rparr>)"
  "pt_state tx = Active DiscoverSecondLeg \<Longrightarrow> its_rank tx < its_rank (tx\<lparr> pt_state := Active HubApproved \<rparr>)"
  "pt_state tx = Active Approved \<Longrightarrow> its_rank tx < its_rank (tx\<lparr> pt_state := Active Routed \<rparr>)"
  by (simp_all add: its_rank_def)

lemma hub_pass:
  assumes "check_hub V H phases w = (Inr m, w')" and ph: "collect_phases (pw_txs w) active = Inr phases"
    and sound: "list_all (its_sound C) (pw_txs w)"
  shows "its_pass C (set (ph_voted phases) \<union> set (ph_hub_approved phases) \<union> set (ph_routed phases) \<union>
    set (ph_discover_second_leg phases)) m w w'"
proof -
  obtain data rs net m1 w1 m2 w2 m3 w3 m4 where
      data: "collect_phase_data (pw_txs w) phases = Inr data"
      and rs: "run_phase_checks V H data (pw_net w) = (Inr rs, net)"
      and a1: "with_txs (apply_cosmos_results voted_slot HubApproved (pc_voted rs)) (w\<lparr> pw_net := net \<rparr>) = (Inr m1, w1)"
      and a2: "with_txs (apply_cosmos_results (backfill_slot (ih_backfill_voted_timing H)) DiscoverSecondLeg
        (pc_hub_approved rs)) w1 = (Inr m2, w2)"
      and a3: "with_txs (apply_cosmos_results routed_slot Approved (pc_routed rs)) w2 = (Inr m3, w3)"
      and a4: "discover_second_legs V H (ph_discover_second_leg phases) w3 = (Inr m4, w')"
      and m: "m = ((m1 \<or> m2 \<or> m3) \<or> m4)"
    by (rule check_hub_run [OF assms(1)])
  let ?v = "set (ph_voted phases)" and ?h = "set (ph_hub_approved phases)" and ?r = "set (ph_routed phases)"
  note col = collected_phases [OF ph]
  note found = outputsD [OF hub_checks_indices rs, unfolded collected_data(1,2) [OF data]]
  have idx: "fst ` set (pc_voted rs) \<subseteq> ?v" "fst ` set (pc_hub_approved rs) \<subseteq> ?h" using found by simp_all
  have idx3: "fst ` set (pc_routed rs) \<subseteq> ?r"
    by (rule subset_trans [OF _ collected_data(3) [OF data]]) (simp add: found)
  let ?w0 = "w\<lparr> pw_net := net \<rparr>"
  have p0: "its_pass C {} False w ?w0"
    using since_run [OF hub_checks_since rs] sound by (simp add: its_pass_def)
  have "its_pass C (fst ` set (pc_voted rs)) m1 ?w0 w1"
    by (rule cosmos_its_pass [where q = Voted, OF a1 _ its_pass_sound [OF p0]])
      (use idx(1) col(1) in \<open>auto intro: its_ranks_lower\<close>)
  from its_pass_trans [OF p0 its_pass_mono [OF this idx(1)]] have p1: "its_pass C ?v m1 w w1" by simp
  have st2: "pt_state (pw_txs w1 ! i) = Active HubApproved" if "i \<in> fst ` set (pc_hub_approved rs)" for i
  proof -
    have i: "i \<in> ?h" using that idx(2) by blast
    then have "i \<notin> ?v" using col(1,3) [of i] by auto
    then show ?thesis using its_pass_state [OF p1, of i] col(3) [OF i] by simp
  qed
  have "its_pass C (fst ` set (pc_hub_approved rs)) m2 w1 w2"
    by (rule cosmos_its_pass [OF a2 backfill_executed_ok its_pass_sound [OF p1] st2]) (simp_all add: its_ranks_lower)
  from its_pass_trans [OF p1 its_pass_mono [OF this idx(2)]] have p2: "its_pass C (?v \<union> ?h) (m1 \<or> m2) w w2" .
  have st3: "pt_state (pw_txs w2 ! i) = Active Routed" if "i \<in> fst ` set (pc_routed rs)" for i
  proof -
    have i: "i \<in> ?r" using that idx3 by blast
    then have "i \<notin> ?v \<union> ?h" using col(1-3) [of i] by auto
    then show ?thesis using its_pass_state [OF p2, of i] col(2) [OF i] by simp
  qed
  have "its_pass C (fst ` set (pc_routed rs)) m3 w2 w3"
    by (rule cosmos_its_pass [OF a3 slots_executed_ok(2) its_pass_sound [OF p2] st3]) (simp_all add: its_ranks_lower)
  from its_pass_trans [OF p2 its_pass_mono [OF this idx3]] have p3: "its_pass C (?v \<union> ?h \<union> ?r) ((m1 \<or> m2) \<or> m3) w w3" .
  from its_pass_trans [OF p3 discover_pass [OF a4 its_pass_sound [OF p3]]] show ?thesis by (simp add: m)
qed

definition its_verdicts ::
  "verify_env \<Rightarrow> (string \<Rightarrow> pending_tx \<Rightarrow> bool) \<Rightarrow> network \<Rightarrow> string \<Rightarrow> string \<Rightarrow> verdict_context" where
  "its_verdicts V evidence n approval_label execution_label =
     \<lparr> vc_env = V, vc_network = n, vc_evidence = evidence, vc_source_chain = ''axelar'',
       vc_approval_label = approval_label, vc_execution_label = execution_label \<rparr>"

lemma mark_if_run:
  "mark_if m w = (Inr u, w') \<Longrightarrow> w' = (if m then w\<lparr> pw_last_progress := poll_now w \<rparr> else w)"
  by (cases m) (auto simp: mark_if_def mark_progress_def)

context destination_verifier
begin

lemma its_round_run:
  assumes "its_round V H check active w = (Inr (), w')"
    and C: "C = its_verdicts V evidence n al el" and sound: "list_all (its_sound C) (pw_txs w)"
  shows "list_all (its_sound C) (pw_txs w') \<and> ids (pw_txs w') = ids (pw_txs w) \<and> advances its_rank w w'"
proof -
  obtain phases m1 w1 u w2 m2 w3 where ph: "collect_phases (pw_txs w) active = Inr phases"
      and hub: "check_hub V H phases w = (Inr m1, w1)" and k1: "mark_if m1 w1 = (Inr u, w2)"
      and d: "check_destination check ''axelar'' (ph_destination phases) w2 = (Inr m2, w3)"
      and k2: "mark_if m2 w3 = (Inr (), w')"
    using assms(1) unfolding its_round_def io_bind_eq_Inr io_apply prod.inject sum.inject by blast
  note p = hub_pass [OF hub ph sound] and col = collected_phases [OF ph]
  have w2: "pw_txs w2 = pw_txs w1" "poll_now w2 = poll_now w1" "pw_polls w2 = pw_polls w1"
      "pw_last_progress w2 = (if m1 then poll_now w1 else pw_last_progress w1)"
    using mark_if_run [OF k1] by simp_all
  have dest: "pt_state (pw_txs w2 ! i) \<in> {Active Approved, Active Executed}" if "i \<in> set (ph_destination phases)" for i
  proof -
    have "i \<notin> set (ph_voted phases) \<union> set (ph_hub_approved phases) \<union> set (ph_routed phases) \<union>
        set (ph_discover_second_leg phases)"
      using col(1-4) [of i] col(5) [OF that] by auto
    then show ?thesis using its_pass_state [OF p, of i] col(5) [OF that] by (simp add: w2)
  qed
  have v: "list_all (verdict_ok C) (pw_txs w2)" "list_all (its_sound C) (pw_txs w2)"
    using its_pass_sound [OF p] by (simp_all add: w2 list_all_iff sound_tx_def)
  have "vc_evidence C = evidence" "vc_source_chain C = ''axelar''" by (simp_all add: C its_verdicts_def)
  note q = destination_pass [OF d dest v(1) this its_rank_observation]
  have "leg_known (pw_txs w3 ! i)" if i: "i < length (pw_txs w2)" for i
  proof (cases "i \<in> set (ph_destination phases)")
    case True
    then have "pt_second_leg (pw_txs w2 ! i) \<noteq> None"
      using v(2) i dest [OF True] by (auto simp: list_all_length sound_tx_def leg_known_def is_active_iff)
    then show ?thesis using q i by (auto simp: leg_known_def same_message_def)
  next
    case False
    then have "pw_txs w3 ! i = pw_txs w2 ! i" using q i by blast
    then show ?thesis using v(2) i by (auto simp: list_all_length sound_tx_def leg_known_def is_active_iff)
  qed
  then have "list_all (its_sound C) (pw_txs w3)" using q by (auto simp: list_all_length sound_tx_def)
  moreover have "ids (pw_txs w3) = ids (pw_txs w2)" using q by (auto intro!: nth_equalityI simp: same_message_def)
  moreover have "poll_now w2 \<le> poll_now w3" "pw_polls w3 = pw_polls w2" "pw_last_progress w3 = pw_last_progress w2"
      "total_rank its_rank (pw_txs w3) \<le> total_rank its_rank (pw_txs w2)"
      "m2 \<longrightarrow> total_rank its_rank (pw_txs w3) < total_rank its_rank (pw_txs w2)" using q by blast+
  ultimately show ?thesis
    using p w2 mark_if_run [OF k2] unfolding its_pass_def advances_def by (cases m1; cases m2) simp_all
qed

end

sublocale destination_verifier \<subseteq> its: polling_round "its_verdicts V evidence n approval_label execution_label" fresh_its
    leg_known "normalize_start H" its_rank "its_round V H check"
  for V n approval_label execution_label H
proof unfold_locales
  let ?C = "its_verdicts V evidence n approval_label execution_label"
  show "its_sound ?C (normalize_start H tx) \<and> pt_message_id (normalize_start H tx) = pt_message_id tx"
    if "fresh_its tx" for tx
    using that
    by (auto simp: sound_tx_def verdict_ok_def fresh_its_def fresh_tx_def normalize_start_def is_phase_def leg_known_def
        transition_to_def)
  show "\<not> is_active tx \<Longrightarrow> its_rank tx = 0" for tx
    by (simp add: its_rank_def is_active_def split: verification_state.splits)
  show "list_all (its_sound ?C) (pw_txs w') \<and> ids (pw_txs w') = ids (pw_txs w)" "advances its_rank w w'"
    if "its_round V H check active w = (Inr (), w')" "list_all (its_sound ?C) (pw_txs w)" for active w w'
    using its_round_run [OF that(1) refl that(2)] by simp_all
qed

subsection \<open>The pipeline with each destination\<close>

datatype its_destination =
    ItsEvm its_evm_dest
  | ItsSolana network
  | ItsStellar
  | ItsXrpl string
  | ItsSui string

fun its_adapter :: "verify_env \<Rightarrow> its_destination \<Rightarrow> destination_adapter" where
  "its_adapter V (ItsEvm mode) = evm_its_destination_verifier V mode"
| "its_adapter V (ItsSolana n) = solana_its_destination_verifier V n"
| "its_adapter V ItsStellar = stellar_its_destination_verifier V"
| "its_adapter V (ItsXrpl recipient_address) = xrpl_its_destination_verifier V recipient_address"
| "its_adapter V (ItsSui gateway_pkg) = sui_its_destination_verifier V gateway_pkg"

fun its_evidence :: "verify_env \<Rightarrow> its_destination \<Rightarrow> string \<Rightarrow> pending_tx \<Rightarrow> bool" where
  "its_evidence V (ItsEvm ItsAmplifier) = leg_evidence (evm_leg_executed V)"
| "its_evidence V (ItsEvm (ItsLegacy from_block)) = its_legacy_evidence V"
| "its_evidence V (ItsSolana n) =
     leg_evidence (\<lambda>leg. solana_executed V n (vn_keccak V (''axelar-'' @ sl_message_id leg)))"
| "its_evidence V ItsStellar = leg_evidence (stellar_leg_executed V)"
| "its_evidence V (ItsXrpl recipient_address) = leg_evidence (xrpl_leg_delivered V recipient_address)"
| "its_evidence V (ItsSui gateway_pkg) = leg_evidence (sui_leg_executed V gateway_pkg)"

lemma its_adapter_contract: "destination_verifier (da_check (its_adapter V d)) (its_evidence V d)"
proof (cases d)
  case (ItsEvm mode)
  then show ?thesis
    by (cases mode) (simp_all add: evm_its_destination_verifier_def evm_its_amplifier.destination_verifier_axioms
        evm_its_legacy.destination_verifier_axioms)
next
  case (ItsSolana n)
  then show ?thesis
    using solana_its.destination_verifier_axioms [of V n] by (simp add: solana_its_destination_verifier_def)
qed (simp_all add: stellar_its_destination_verifier_def stellar_its.destination_verifier_axioms
    xrpl_its_destination_verifier_def xrpl_its.destination_verifier_axioms
    sui_its_destination_verifier_def sui_its.destination_verifier_axioms)

interpretation its_adapters: destination_verifier "da_check (its_adapter V d)" "its_evidence V d" for V d
  by (rule its_adapter_contract)

definition its_verdicts_for :: "verify_env \<Rightarrow> its_destination \<Rightarrow> network \<Rightarrow> verdict_context" where
  "its_verdicts_for V d n =
     its_verdicts V (its_evidence V d) n (da_approval_label (its_adapter V d)) (da_execution_label (its_adapter V d))"

lemmas its_loop_sound = its_adapters.its.finalized_sound
  [unfolded its_adapters.its.turn_def its_adapters.its.run_ok_def its_adapters.its.received_def]

lemmas its_loop_returns = its_adapters.its.finalized_returns
  [unfolded its_adapters.its.turn_def its_adapters.its.run_ok_def its_adapters.its.clock_ok_def]

lemma its_verdicts_simps [simp]:
  "vc_env (its_verdicts V evidence n al el) = V" "vc_network (its_verdicts V evidence n al el) = n"
  "vc_approval_label (its_verdicts V evidence n al el) = al" "vc_execution_label (its_verdicts V evidence n al el) = el"
  by (simp_all add: its_verdicts_def)

lemma normalized_batch:
  assumes "list_all fresh_its txs"
  shows "list_all (its_sound (its_verdicts V evidence n al el)) (map (normalize_start H) txs)"
    "ids (map (normalize_start H) txs) = ids txs"
  using assms
  by (induction txs) (auto simp: sound_tx_def verdict_ok_def fresh_its_def fresh_tx_def normalize_start_def is_phase_def
      leg_known_def transition_to_def)


text \<open>
  C30: An ITS verification run ends: once the sender has finished and its channel is empty for
  good, the loop stops after finitely many polls, although the phases of a transfer form a cycle
  in the table of allowed transitions.
\<close>

theorem its_poll_returns:
  assumes "\<And>k. K \<le> k \<Longrightarrow> pf_send_done F k \<and> pf_receive F k = []"
    and "list_all fresh_its (pw_txs w)" and "\<And>k. list_all fresh_its (pf_receive F k)"
  shows "\<exists>r w'. poll_its V H (its_adapter V d) F n w = Some (r, w')"
  using its_loop_returns [where K = K and F = F and Va = V and Vb = V and d = d and na = n and H = H and V = V and n = n
      and w = "start_poll w\<lparr> pw_txs := map (normalize_start H) (pw_txs w) \<rparr>"
      and al = "da_approval_label (its_adapter V d)" and el = "da_execution_label (its_adapter V d)"]
    assms normalized_batch [OF assms(2)]
  by (simp add: poll_its_def Let_def)

text \<open>
  A transfer to XRPL whose second leg is not found in time; at the timeout the GMP API reports it
  executed.
\<close>

definition sample_its_env :: verify_env where
  "sample_its_env = sample_env\<lparr>
     vn_encode := (\<lambda>_. Some ''q''), vn_get := (\<lambda>_ _. Answered 200 (Some ''ok'')),
     vn_parse := (\<lambda>_. Some (JObject [(''data'', JArray [JBool True])])),
     vn_post_search := (\<lambda>_ _ _. Inr [\<lparr> er_status = Some ''Executed'', er_executed = False \<rparr>]) \<rparr>"

definition sample_its_args :: poll_its_hub_args where
  "sample_its_args =
     \<lparr> ia_lcd = ''lcd'', ia_voting_verifier = None, ia_source_chain = ''eth'', ia_axelarnet_gateway = ''gw'',
       ia_rpc = ''rpc'', ia_cosm_gateway_dest = ''dest'', ia_network = Mainnet \<rparr>"

definition sample_its_poll :: poll_world where
  "sample_its_poll = sample_poll\<lparr> pw_txs := [sample_pending ''0xa-1'' Voted] \<rparr>"

definition sample_its_outcome :: "(peak_throughput result \<times> poll_world) option" where
  "sample_its_outcome =
     poll_its sample_its_env (hub_verifier sample_its_args TargetRouted False)
       (its_adapter sample_its_env (ItsXrpl ''r1'')) (batch_feed (Some 0)) Mainnet sample_its_poll"

lemma sample_its_fresh:
  "list_all fresh_its (pw_txs sample_its_poll)" "list_all fresh_its (pf_receive (batch_feed (Some 0)) k)"
  by (simp_all add: sample_its_poll_def sample_pending_def batch_feed_def fresh_its_def) (simp add: new_pending_def)

lemma sample_its_states:
  "map_option (\<lambda>(r, w). (is_ok r, map pt_state (pw_txs w), pw_polls w)) sample_its_outcome =
     Some (True, [Succeeded True], 1)"
  by code_simp


theorem its_poll_returns_witness: "\<exists>r w'. sample_its_outcome = Some (r, w')"
  unfolding sample_its_outcome_def
  by (rule its_poll_returns [of 0 "batch_feed (Some 0)", OF _ sample_its_fresh]) (simp add: batch_feed_def)

end
