(* ===== verification/Mcp_Policy.thy ===== *)
theory Mcp_Policy
  imports Axe_Text
begin

text \<open>
  The operator's limits on what a spending tool of the MCP server may do (\<open>mcp/policy.rs\<close>).  The
  running count lives in memory under one lock and, when persistent, in a ledger file.  Files are
  a map from paths to texts; how a write ends is an argument, because directory creation,
  opening and writing can each fail, the last after part of the text.  The JSON decoder of the
  ledger is an argument as well.
\<close>

definition DEFAULT_MAX_TXS_PER_RUN :: u64 where "DEFAULT_MAX_TXS_PER_RUN = 10"

record spend_limits =
  lm_max_txs_per_run :: u64
  lm_max_txs_total :: "u64 option"
  lm_allowed_chains :: "string list"

definition default_limits :: spend_limits where
  "default_limits =
     \<lparr> lm_max_txs_per_run = DEFAULT_MAX_TXS_PER_RUN, lm_max_txs_total = None, lm_allowed_chains = [] \<rparr>"

datatype policy_violation =
    RunTooLarge u64 u64
  | BudgetExhausted u64 u64 u64
  | ChainNotAllowed string "string list"
  | LedgerUnavailable string string

fun violation_text :: "policy_violation \<Rightarrow> string" where
  "violation_text (RunTooLarge requested limit) =
     show_word requested @ '' transactions exceed the per-run cap of '' @ show_word limit @ '' set by the operator''"
| "violation_text (BudgetExhausted requested remaining limit) =
     show_word requested @ '' transactions exceed the remaining budget of '' @ show_word remaining @
     '' (server lifetime cap '' @ show_word limit @ '' set by the operator)''"
| "violation_text (ChainNotAllowed chain allowed) =
     ''chain '' @ chain @ '' is not in the operator's allowlist: '' @ join_with '', '' allowed"
| "violation_text (LedgerUnavailable path e) = ''could not record the spend in '' @ path @ '': '' @ e"

record spent =
  sp_count :: u64
  sp_ledger :: "string option"

type_synonym files = "string \<Rightarrow> string option"

datatype fs_outcome =
    FsDone
  | FsFailed string
  | FsTorn nat string

text \<open>\<open>std::fs::write\<close>; a partial write leaves a proper prefix of the text.\<close>

definition fs_write :: "fs_outcome \<Rightarrow> string \<Rightarrow> string \<Rightarrow> files \<Rightarrow> (string + unit) \<times> files" where
  "fs_write outcome path text fs =
     (case outcome of
        FsDone \<Rightarrow> (Inr (), fs(path \<mapsto> text))
      | FsFailed e \<Rightarrow> (Inl e, fs)
      | FsTorn k e \<Rightarrow> (Inl e, fs(path \<mapsto> take (min k (length text - 1)) text)))"

definition ledger_text :: "u64 \<Rightarrow> string" where
  "ledger_text n =
     [CHR ''{'', CHR 0x22] @ ''transactions'' @ [CHR 0x22, CHR '':''] @ show_word n @ ''}''"

definition write_ledger :: "fs_outcome \<Rightarrow> spent \<Rightarrow> files \<Rightarrow> (policy_violation + unit) \<times> files" where
  "write_ledger outcome s fs =
     (case sp_ledger s of
        None \<Rightarrow> (Inr (), fs)
      | Some path \<Rightarrow>
          (case fs_write outcome path (ledger_text (sp_count s)) fs of
             (Inl e, fs') \<Rightarrow> (Inl (LedgerUnavailable path e), fs')
           | (Inr _, fs') \<Rightarrow> (Inr (), fs')))"

text \<open>\<open>failure\<close> is the error of reading a file that exists, if any.\<close>

definition read_ledger :: "(string \<Rightarrow> u64 option) \<Rightarrow> string option \<Rightarrow> string \<Rightarrow> files \<Rightarrow> u64 result" where
  "read_ledger decode failure path fs =
     (case fs path of
        None \<Rightarrow> Inr 0
      | Some text \<Rightarrow>
          (case failure of
             Some e \<Rightarrow> Inl (Report ''could not read the spend ledger'')
           | None \<Rightarrow> ok_or (decode text) ''spend ledger is not readable''))"

definition policy_new :: spent where
  "policy_new = \<lparr> sp_count = 0, sp_ledger = None \<rparr>"

definition persistent :: "(string \<Rightarrow> u64 option) \<Rightarrow> string option \<Rightarrow> string \<Rightarrow> files \<Rightarrow> spent result" where
  "persistent decode failure path fs =
     and_then (read_ledger decode failure path fs) (\<lambda>count.
     Inr \<lparr> sp_count = count, sp_ledger = Some path \<rparr>)"

definition check_chain :: "spend_limits \<Rightarrow> string \<Rightarrow> policy_violation + unit" where
  "check_chain limits chain =
     (let allowed = lm_allowed_chains limits in
      if allowed = [] \<or> list_ex (\<lambda>a. eq_ignore_ascii_case a chain) allowed then Inr ()
      else Inl (ChainNotAllowed chain allowed))"

definition policy_reserve ::
  "spend_limits \<Rightarrow> fs_outcome \<Rightarrow> u64 \<Rightarrow> spent \<Rightarrow> files \<Rightarrow> (policy_violation + unit) \<times> spent \<times> files" where
  "policy_reserve limits outcome num_txs s fs =
     (if num_txs > lm_max_txs_per_run limits
      then (Inl (RunTooLarge num_txs (lm_max_txs_per_run limits)), s, fs)
      else
        let total = saturating_add (sp_count s) num_txs in
        case lm_max_txs_total limits of
          Some limit \<Rightarrow>
            if total > limit
            then (Inl (BudgetExhausted num_txs (saturating_sub limit (sp_count s)) limit), s, fs)
            else
              (case write_ledger outcome (s\<lparr> sp_count := total \<rparr>) fs of
                 (Inl v, fs') \<Rightarrow> (Inl v, s, fs')
               | (Inr _, fs') \<Rightarrow> (Inr (), s\<lparr> sp_count := total \<rparr>, fs'))
        | None \<Rightarrow>
            (case write_ledger outcome (s\<lparr> sp_count := total \<rparr>) fs of
               (Inl v, fs') \<Rightarrow> (Inl v, s, fs')
             | (Inr _, fs') \<Rightarrow> (Inr (), s\<lparr> sp_count := total \<rparr>, fs')))"

definition policy_release :: "fs_outcome \<Rightarrow> u64 \<Rightarrow> spent \<Rightarrow> files \<Rightarrow> spent \<times> files" where
  "policy_release outcome num_txs s fs =
     (let s' = s\<lparr> sp_count := saturating_sub (sp_count s) num_txs \<rparr> in
      (s', snd (write_ledger outcome s' fs)))"

definition describe_policy :: "spend_limits \<Rightarrow> spent \<Rightarrow> string" where
  "describe_policy limits s =
     ''Operator caps: '' @
     join_with ''; ''
       ([''at most '' @ show_word (lm_max_txs_per_run limits) @ '' transactions per load test''] @
        (case lm_max_txs_total limits of
           None \<Rightarrow> []
         | Some limit \<Rightarrow>
             [show_word (saturating_sub limit (sp_count s)) @ '' of '' @ show_word limit @
              '' transactions remaining over the server's lifetime'']) @
        (if lm_allowed_chains limits = [] then []
         else [''only these chains: '' @ join_with '', '' (lm_allowed_chains limits)])) @ ''.''"

subsection \<open>Chains\<close>

lemma check_chain_Inr:
  "(check_chain limits chain = Inr u) =
   (lm_allowed_chains limits = [] \<or> (\<exists>a \<in> set (lm_allowed_chains limits). eq_ignore_ascii_case a chain))"
  by (auto simp: check_chain_def Let_def list_ex_iff)

subsection \<open>The ledger\<close>

text \<open>
  What is relied on of the decoder: it reads back a whole ledger, and refuses one that was cut
  short, which is not a JSON text.
\<close>

definition ledger_decoder :: "(string \<Rightarrow> u64 option) \<Rightarrow> bool" where
  "ledger_decoder decode =
     ((\<forall>n. decode (ledger_text n) = Some n) \<and>
      (\<forall>n k. k < length (ledger_text n) \<longrightarrow> decode (take k (ledger_text n)) = None))"

text \<open>The count a ledger file stands for: none when it would be refused.\<close>

definition recorded :: "(string \<Rightarrow> u64 option) \<Rightarrow> string \<Rightarrow> files \<Rightarrow> u64 option" where
  "recorded decode path fs = (case fs path of None \<Rightarrow> Some 0 | Some text \<Rightarrow> decode text)"

text \<open>The ledger accounts for \<open>n\<close>: whatever it is read as is at least that.\<close>

definition covers :: "(string \<Rightarrow> u64 option) \<Rightarrow> string \<Rightarrow> files \<Rightarrow> nat \<Rightarrow> bool" where
  "covers decode path fs n = (\<forall>v. recorded decode path fs = Some v \<longrightarrow> n \<le> unat v)"

lemma persistent_Inr:
  "persistent decode failure path fs = Inr s \<Longrightarrow>
   recorded decode path fs = Some (sp_count s) \<and> sp_ledger s = Some path"
  by (auto simp: persistent_def read_ledger_def recorded_def result_simps split: option.splits)

lemma covers_mono: "covers decode path fs n \<Longrightarrow> m \<le> n \<Longrightarrow> covers decode path fs m"
  using order_trans by (fastforce simp: covers_def)

lemma length_ledger_text: "0 < length (ledger_text n)"
  by (simp add: ledger_text_def)

lemma decode_prefix:
  assumes "ledger_decoder decode"
  shows "decode (take k (ledger_text n)) = (if k < length (ledger_text n) then None else Some n)"
  using assms by (simp add: ledger_decoder_def)

lemma covers_prefix:
  assumes "ledger_decoder decode" and "n \<le> unat c"
  shows "covers decode path (fs(path \<mapsto> take k (ledger_text c))) n"
  using assms by (simp add: covers_def recorded_def decode_prefix)

text \<open>A write leaves the ledger covering whatever both the old ledger and the new count cover.\<close>

lemma write_ledger_covers:
  assumes "ledger_decoder decode" and "sp_ledger s = Some path"
    and "covers decode path fs n" and "n \<le> unat (sp_count s)"
  shows "covers decode path (snd (write_ledger outcome s fs)) n"
  using assms covers_prefix [OF assms(1,4), of path fs] covers_prefix [OF assms(1,4), of path fs "length (ledger_text (sp_count s))"]
  by (cases outcome) (simp_all add: write_ledger_def fs_write_def)

lemma write_ledger_Inr:
  assumes "ledger_decoder decode" and "sp_ledger s = Some path" and "write_ledger outcome s fs = (Inr u, fs')"
  shows "recorded decode path fs' = Some (sp_count s)"
  using assms by (cases outcome) (auto simp: write_ledger_def fs_write_def recorded_def ledger_decoder_def)

text \<open>A failed write is never taken for the new count: the old text stays, or an unreadable one.\<close>

lemma write_ledger_Inl_covers:
  assumes "ledger_decoder decode" and "sp_ledger s = Some path" and "write_ledger outcome s fs = (Inl v, fs')"
    and "covers decode path fs n"
  shows "covers decode path fs' n"
proof (cases outcome)
  case (FsTorn k e)
  have "min k (length (ledger_text (sp_count s)) - 1) < length (ledger_text (sp_count s))"
    using length_ledger_text [of "sp_count s"] by linarith
  then have "decode (take (min k (length (ledger_text (sp_count s)) - 1)) (ledger_text (sp_count s))) = None"
    by (simp only: decode_prefix [OF assms(1)] if_True)
  then show ?thesis using assms(2,3) FsTorn by (auto simp: write_ledger_def fs_write_def covers_def recorded_def)
qed (use assms in \<open>auto simp: write_ledger_def fs_write_def\<close>)

subsection \<open>Reservations\<close>

lemma policy_reserve_Inr:
  assumes "policy_reserve limits outcome n s fs = (Inr u, s', fs')"
  shows "n \<le> lm_max_txs_per_run limits"
    and "s' = s\<lparr> sp_count := saturating_add (sp_count s) n \<rparr>"
    and "\<And>m. lm_max_txs_total limits = Some m \<Longrightarrow> saturating_add (sp_count s) n \<le> m"
    and "write_ledger outcome s' fs = (Inr (), fs')"
  using assms
  by (auto simp: policy_reserve_def Let_def not_less split: if_splits option.splits prod.splits sum.splits)

lemma policy_reserve_Inl:
  assumes "policy_reserve limits outcome n s fs = (Inl v, s', fs')"
  shows "s' = s" and "fs' = fs \<or> (\<exists>t. sp_ledger t = sp_ledger s \<and> write_ledger outcome t fs = (Inl v, fs'))"
  using assms
  by (auto simp: policy_reserve_def Let_def split: if_splits option.splits prod.splits sum.splits
      intro: exI [of _ "s\<lparr> sp_count := saturating_add (sp_count s) n \<rparr>"])

text \<open>With a budget below the largest number the count never saturates.\<close>

lemma reserve_exact:
  assumes "policy_reserve limits outcome n s fs = (Inr u, s', fs')"
    and "lm_max_txs_total limits = Some m" and "m < - 1"
  shows "unat (sp_count s') = unat (sp_count s) + unat n \<and> unat (sp_count s') \<le> unat m"
proof -
  note reserve = policy_reserve_Inr [OF assms(1)]
  have le: "unat (saturating_add (sp_count s) n) \<le> unat m"
    using reserve(3) [OF assms(2)] by (simp add: word_le_nat_alt)
  moreover have "unat m < 2 ^ 64 - 1"
    using assms(3) by (simp add: word_less_nat_alt unsigned_minus_1_eq_mask mask_eq_exp_minus_1)
  ultimately have "unat (saturating_add (sp_count s) n) = unat (sp_count s) + unat n"
    by (simp add: unat_saturating_add min_def split: if_splits)
  then show ?thesis using le reserve(2) by simp
qed

end
