(* ===== verification/Mcp_Runs.thy ===== *)
theory Mcp_Runs
  imports Axe_Text Axe_Json Mcp_Policy "HOL-Library.Product_Lexorder"
begin

text \<open>
  Background runs of the MCP server (\<open>mcp/runs.rs\<close>): their identifiers, the report files they
  leave behind and the listing of the runs a server knows of.
\<close>

section \<open>Run identifiers\<close>

datatype run_kind = LoadTest | IntentsSend | IntentsRoundtrip | IntentsSweep | IntentsTraffic | IntentsStress

definition run_kinds :: "run_kind list" where
  "run_kinds = [LoadTest, IntentsSend, IntentsRoundtrip, IntentsSweep, IntentsTraffic, IntentsStress]"

fun slug :: "run_kind \<Rightarrow> string" where
  "slug LoadTest = ''load-test''"
| "slug IntentsSend = ''intents-send''"
| "slug IntentsRoundtrip = ''intents-roundtrip''"
| "slug IntentsSweep = ''intents-sweep''"
| "slug IntentsTraffic = ''intents-traffic''"
| "slug IntentsStress = ''intents-stress''"

definition kind_prefix :: "run_kind \<Rightarrow> string" where
  "kind_prefix kind = ''axe-'' @ slug kind @ ''-''"

text \<open>The identifier minted at a clock reading, and the last one handed out by this process.\<close>

definition mint :: "nat \<Rightarrow> u64 \<Rightarrow> run_kind \<Rightarrow> string \<times> u64" where
  "mint clock previous kind =
     (let now = of_nat (min clock (2 ^ 64 - 1));
          millis = max now (saturating_add previous 1) in
      (kind_prefix kind @ show_word millis, millis))"

definition kind_of :: "string \<Rightarrow> run_kind option" where
  "kind_of text = find (\<lambda>kind. starts_with (kind_prefix kind) text) run_kinds"

definition parse_run_id :: "string \<Rightarrow> string option" where
  "parse_run_id text = map_option (\<lambda>_. text) (kind_of text)"

definition minted_millis :: "string \<Rightarrow> u64" where
  "minted_millis run_id =
     (case Option.bind (Option.bind (kind_of run_id) (\<lambda>kind. strip_prefix (kind_prefix kind) run_id)) parse_word of
        Some millis \<Rightarrow> millis
      | None \<Rightarrow> 0)"

definition report_file_name :: "string \<Rightarrow> string" where
  "report_file_name run_id = run_id @ ''.json''"

definition from_report_file_name :: "string \<Rightarrow> string option" where
  "from_report_file_name name = Option.bind (strip_suffix ''.json'' name) parse_run_id"

lemma kind_prefix_free: "starts_with (kind_prefix k) (kind_prefix k' @ text) \<Longrightarrow> k = k'"
  by (cases k; cases k'; simp add: kind_prefix_def)

lemma kind_of_prefix [simp]: "kind_of (kind_prefix kind @ text) = Some kind"
proof -
  have "find (\<lambda>k. starts_with (kind_prefix k) (kind_prefix kind @ text)) run_kinds =
      find (\<lambda>k. k = kind) run_kinds"
    using kind_prefix_free by (intro arg_cong [where f = "\<lambda>P. find P run_kinds"]) fastforce
  then show ?thesis by (cases kind) (simp_all add: kind_of_def run_kinds_def)
qed

lemma minted_reads_back:
  assumes "mint clock previous kind = (run_id, millis)"
  shows "parse_run_id run_id = Some run_id" and "kind_of run_id = Some kind" and "minted_millis run_id = millis"
    and "from_report_file_name (report_file_name run_id) = Some run_id"
  using assms
  by (auto simp: mint_def Let_def parse_run_id_def minted_millis_def from_report_file_name_def report_file_name_def)

lemma mint_increases:
  assumes "mint clock previous kind = (run_id, millis)" and "previous < - 1"
  shows "previous < millis"
proof -
  have "unat previous < 2 ^ 64 - 1"
    using assms(2) by (simp add: word_less_nat_alt unsigned_minus_1_eq_mask mask_eq_exp_minus_1)
  then have "previous < saturating_add previous 1" by (simp add: word_less_nat_alt unat_saturating_add)
  then show ?thesis using assms(1) by (auto simp: mint_def Let_def less_max_iff_disj)
qed

text \<open>A burst of identifiers minted one after another, the clock read before each.\<close>

fun mint_all :: "u64 \<Rightarrow> (nat \<times> run_kind) list \<Rightarrow> string list" where
  "mint_all previous [] = []"
| "mint_all previous ((clock, kind) # rest) =
     (case mint clock previous kind of (run_id, millis) \<Rightarrow> run_id # mint_all millis rest)"

lemma mint_bound: "mint clock previous kind = (run_id, millis) \<Longrightarrow> unat millis \<le> max clock (unat previous + 1)"
  by (auto simp: mint_def Let_def max_def word_le_nat_alt unat_saturating_add unat_of_nat min_def
      split: if_splits)

lemma mint_all_sorted:
  assumes "\<forall>(clock, kind) \<in> set requests. clock + length requests < 2 ^ 64 - 1"
    and "unat previous + length requests < 2 ^ 64 - 1"
  shows "sorted_wrt (<) (previous # map minted_millis (mint_all previous requests))"
  using assms
proof (induction requests arbitrary: previous)
  case (Cons request rest)
  obtain clock kind where request: "request = (clock, kind)" by force
  obtain run_id millis where minted: "mint clock previous kind = (run_id, millis)" by force
  have up: "previous < millis"
    using Cons.prems(2) by (intro mint_increases [OF minted])
      (simp add: word_less_nat_alt unsigned_minus_1_eq_mask mask_eq_exp_minus_1)
  have "sorted_wrt (<) (millis # map minted_millis (mint_all millis rest))"
  proof (rule Cons.IH)
    show "\<forall>(clock, kind) \<in> set rest. clock + length rest < 2 ^ 64 - 1" using Cons.prems(1) by fastforce
    show "unat millis + length rest < 2 ^ 64 - 1"
      using mint_bound [OF minted] Cons.prems request by (auto simp: max_def split: if_splits)
  qed
  then show ?case using up minted request minted_reads_back(3) [OF minted] by (auto dest: less_trans)
qed simp

lemma mint_all_kinds: "map kind_of (mint_all previous requests) = map (Some \<circ> snd) requests"
  by (induction previous requests rule: mint_all.induct) (auto split: prod.splits dest: minted_reads_back(2))

lemma mint_all_readable:
  "list_all (\<lambda>run_id. parse_run_id run_id = Some run_id \<and> from_report_file_name (report_file_name run_id) = Some run_id)
     (mint_all previous requests)"
  by (induction previous requests rule: mint_all.induct) (auto split: prod.splits dest: minted_reads_back)

text \<open>
  C36: Run identifiers minted one after another are pairwise distinct, their mint times increase
  strictly even when the clock stands still or runs backwards, each still tells its kind, and
  each is recovered from the name of its report file.  The clock and the counter must stay below
  the largest 64-bit number.
\<close>

theorem run_ids_round_trip:
  assumes "list_all (\<lambda>(clock, kind). clock + length requests < 2 ^ 64 - 1) requests"
    and "unat previous + length requests < 2 ^ 64 - 1"
  shows "sorted_wrt (<) (map minted_millis (mint_all previous requests)) \<and>
    distinct (mint_all previous requests) \<and>
    map kind_of (mint_all previous requests) = map (Some \<circ> snd) requests \<and>
    list_all (\<lambda>run_id. parse_run_id run_id = Some run_id \<and> from_report_file_name (report_file_name run_id) = Some run_id)
      (mint_all previous requests)"
proof -
  have up: "sorted_wrt (<) (map minted_millis (mint_all previous requests))"
    using mint_all_sorted [OF _ assms(2)] assms(1) by (simp add: list_all_iff)
  then have "distinct (map minted_millis (mint_all previous requests))" by (simp add: strict_sorted_iff)
  then have "distinct (mint_all previous requests)" by (simp add: distinct_map)
  with up show ?thesis by (simp add: mint_all_kinds mint_all_readable)
qed

lemma mint_example:
  "mint 7 0 LoadTest = (''axe-load-test-7'', 7)" "mint 7 7 IntentsSweep = (''axe-intents-sweep-8'', 8)"
  by (simp add: mint_def Let_def saturating_add_def kind_prefix_def show_word_def show_nat.simps digit_char_def
      char_of_def bit_0)+

theorem run_ids_round_trip_witness:
  "mint_all 0 [(7, LoadTest), (7, IntentsSweep)] = [''axe-load-test-7'', ''axe-intents-sweep-8''] \<and>
   distinct (mint_all 0 [(7, LoadTest), (7, IntentsSweep)])"
proof -
  have "mint_all 0 [(7, LoadTest), (7, IntentsSweep)] = [''axe-load-test-7'', ''axe-intents-sweep-8'']"
    by (simp add: mint_example)
  moreover have "distinct (mint_all 0 [(7, LoadTest), (7, IntentsSweep)])"
    using run_ids_round_trip [of "[(7, LoadTest), (7, IntentsSweep)]" 0] by simp
  ultimately show ?thesis by blast
qed

text \<open>
  An identifier is accepted by its prefix alone, so a text that no clock could have produced is
  looked up as a report as well.
\<close>

theorem unminted_text_is_accepted:
  "parse_run_id ''axe-load-test-notes'' = Some ''axe-load-test-notes'' \<and>
   fst (mint clock previous kind) \<noteq> ''axe-load-test-notes''"
proof
  show "parse_run_id ''axe-load-test-notes'' = Some ''axe-load-test-notes''"
    by (simp add: parse_run_id_def kind_of_def run_kinds_def kind_prefix_def)
  show "fst (mint clock previous kind) \<noteq> ''axe-load-test-notes''"
  proof
    assume eq: "fst (mint clock previous kind) = ''axe-load-test-notes''"
    obtain millis where minted: "mint clock previous kind = (''axe-load-test-notes'', millis)"
      using eq by (metis prod.collapse)
    have "kind_of ''axe-load-test-notes'' = Some LoadTest"
      by (simp add: kind_of_def run_kinds_def kind_prefix_def)
    then have "kind = LoadTest" using minted_reads_back(2) [OF minted] by simp
    then have "show_word millis = ''notes''" using minted by (auto simp: mint_def Let_def kind_prefix_def)
    then have "parse_word ''notes'' = Some millis" by (metis parse_show_word)
    then show False by (simp add: parse_eval)
  qed
qed

section \<open>Reports\<close>

datatype run_state = RunRunning string | RunFinished string json | RunUnknown string

datatype run_phase = Spending | Unlocked | Ended

datatype slot_phase = SlotLocked | SlotCounted | SlotUncounted

text \<open>
  One server process: the counter of claimed slots, the runs with their handles, the slots its
  blocking tools hold and the last identifier minted.  A run spends until its thread drops the
  lock, and its handle is finished a little later; a slot is locked, then counted, and dropped
  the other way round.
\<close>

record axe_server =
  as_claims :: nat
  as_in_flight :: "(string \<times> run_phase) list"
  as_slots :: "slot_phase list"
  as_last_millis :: u64

definition registry_new :: axe_server where
  "registry_new = \<lparr> as_claims = 0, as_in_flight = [], as_slots = [], as_last_millis = 0 \<rparr>"

definition retain_unfinished :: "axe_server \<Rightarrow> axe_server" where
  "retain_unfinished s = s\<lparr> as_in_flight := filter (\<lambda>(_, ph). ph \<noteq> Ended) (as_in_flight s) \<rparr>"

definition running :: "axe_server \<Rightarrow> string list" where
  "running s = map fst (filter (\<lambda>(_, ph). ph \<noteq> Ended) (as_in_flight s))"

definition is_running :: "axe_server \<Rightarrow> string \<Rightarrow> bool" where
  "is_running s run_id = (case map_of (as_in_flight s) run_id of Some ph \<Rightarrow> ph \<noteq> Ended | None \<Rightarrow> False)"

definition read_report :: "(string \<Rightarrow> json option) \<Rightarrow> files \<Rightarrow> string \<Rightarrow> json option" where
  "read_report decode reports run_id = Option.bind (reports (report_file_name run_id)) decode"

text \<open>The file name a report is written under; a failed write is only logged.\<close>

definition record_report :: "(json \<Rightarrow> string) \<Rightarrow> fs_outcome \<Rightarrow> string \<Rightarrow> json \<Rightarrow> files \<Rightarrow> files" where
  "record_report encode outcome run_id report reports =
     snd (fs_write outcome (report_file_name run_id) (encode report) reports)"

definition run_state_of :: "(string \<Rightarrow> json option) \<Rightarrow> files \<Rightarrow> axe_server \<Rightarrow> string \<Rightarrow> run_state" where
  "run_state_of decode reports s text =
     (case parse_run_id text of
        None \<Rightarrow> RunUnknown text
      | Some run_id \<Rightarrow>
          (case read_report decode reports run_id of
             Some report \<Rightarrow> RunFinished run_id report
           | None \<Rightarrow> if is_running s run_id then RunRunning run_id else RunUnknown text))"

record run_list_entry =
  re_run_id :: string
  re_kind :: "run_kind option"
  re_running :: bool

text \<open>\<open>names\<close> are the entries of the reports directory, in the order it is read.\<close>

definition list_runs :: "string list \<Rightarrow> axe_server \<Rightarrow> run_list_entry list \<times> axe_server" where
  "list_runs names s =
     (let ids = List.map_filter from_report_file_name names;
          s' = retain_unfinished s;
          ids = ids @ filter (\<lambda>i. i \<notin> set ids) (map fst (as_in_flight s')) in
      (map (\<lambda>i. \<lparr> re_run_id = i, re_kind = kind_of i, re_running = is_running s' i \<rparr>)
         (sort_key (\<lambda>i. (- int (unat (minted_millis i)), i)) ids), s'))"

end
