(* ===== verification/Mcp_Slot.thy ===== *)
theory Mcp_Slot
  imports Mcp_Runs
begin

text \<open>
  The slot that admits one spending flow at a time on a machine (\<open>mcp/runs.rs\<close>).  It is an
  advisory file lock of the operating system, which any number of servers compete for; within a
  server several requests run at once, so the locking and the counting of a claimed slot are
  separate steps.
\<close>

datatype start_refused =
    RunInFlight string
  | SlotHeldHere
  | HeldByAnotherProcess string
  | LockUnavailable string string

fun refusal_text :: "start_refused \<Rightarrow> string" where
  "refusal_text (RunInFlight run_id) =
     ''a run is already in flight: '' @ run_id @
     ''. Runs spend from shared accounts, so one is admitted at a time. Wait for it, or read its report with run_report''"
| "refusal_text SlotHeldHere =
     ''another tool in this server is spending right now, and flows that spend are admitted one at a time. Wait for it to finish''"
| "refusal_text (HeldByAnotherProcess path) =
     ''another axe mcp process on this machine is running a flow that spends (lock held at '' @ path @
     ''). Runs spend from shared accounts, so one is admitted at a time; wait for it to finish''"
| "refusal_text (LockUnavailable path e) = ''could not take the run lock at '' @ path @ '': '' @ e"

text \<open>
  \<open>failure\<close> is an error of creating the directory, opening or locking the file other than the
  lock being held, \<open>held\<close> whether it is held through any other open file of the machine.
\<close>

definition lock_machine_slot :: "string option \<Rightarrow> string \<Rightarrow> bool \<Rightarrow> axe_server \<Rightarrow> start_refused + unit" where
  "lock_machine_slot failure path held s =
     (if as_claims s > 0 then Inl SlotHeldHere
      else
        (case failure of
           Some e \<Rightarrow> Inl (LockUnavailable path e)
         | None \<Rightarrow> if held then Inl (HeldByAnotherProcess path) else Inr ()))"

definition registry_start ::
  "string option \<Rightarrow> string \<Rightarrow> nat \<Rightarrow> run_kind \<Rightarrow> bool \<Rightarrow> axe_server \<Rightarrow> (start_refused + string) \<times> axe_server" where
  "registry_start failure path clock kind held s =
     (let s = retain_unfinished s in
      case as_in_flight s of
        (run_id, _) # _ \<Rightarrow> (Inl (RunInFlight run_id), s)
      | [] \<Rightarrow>
          (case lock_machine_slot failure path held s of
             Inl refused \<Rightarrow> (Inl refused, s)
           | Inr _ \<Rightarrow>
               (case mint clock (as_last_millis s) kind of
                  (run_id, millis) \<Rightarrow>
                    (Inr run_id,
                     s\<lparr> as_in_flight := (run_id, Spending) # as_in_flight s, as_last_millis := millis \<rparr>))))"

text \<open>Claiming a slot: the lock first, then the counter; dropping it: the counter first, then the lock.\<close>

definition claim_lock :: "string option \<Rightarrow> string \<Rightarrow> bool \<Rightarrow> axe_server \<Rightarrow> (start_refused + unit) \<times> axe_server" where
  "claim_lock failure path held s =
     (case lock_machine_slot failure path held s of
        Inl refused \<Rightarrow> (Inl refused, s)
      | Inr _ \<Rightarrow> (Inr (), s\<lparr> as_slots := SlotLocked # as_slots s \<rparr>))"

fun replace_first :: "'a \<Rightarrow> 'a list \<Rightarrow> 'a list \<Rightarrow> 'a list" where
  "replace_first x ys [] = []"
| "replace_first x ys (z # zs) = (if z = x then ys @ zs else z # replace_first x ys zs)"

definition claim_count :: "axe_server \<Rightarrow> axe_server" where
  "claim_count s =
     s\<lparr> as_claims := as_claims s + 1, as_slots := replace_first SlotLocked [SlotCounted] (as_slots s) \<rparr>"

definition claim_slot :: "string option \<Rightarrow> string \<Rightarrow> bool \<Rightarrow> axe_server \<Rightarrow> (start_refused + unit) \<times> axe_server" where
  "claim_slot failure path held s =
     (case claim_lock failure path held s of
        (Inl refused, s') \<Rightarrow> (Inl refused, s')
      | (Inr _, s') \<Rightarrow> (Inr (), claim_count s'))"

definition drop_count :: "axe_server \<Rightarrow> axe_server" where
  "drop_count s =
     s\<lparr> as_claims := as_claims s - 1, as_slots := replace_first SlotCounted [SlotUncounted] (as_slots s) \<rparr>"

definition drop_lock :: "axe_server \<Rightarrow> axe_server" where
  "drop_lock s = s\<lparr> as_slots := replace_first SlotUncounted [] (as_slots s) \<rparr>"

definition run_phase_to :: "string \<Rightarrow> run_phase \<Rightarrow> axe_server \<Rightarrow> axe_server" where
  "run_phase_to run_id ph s =
     s\<lparr> as_in_flight := map (\<lambda>(i, q). if i = run_id then (i, ph) else (i, q)) (as_in_flight s) \<rparr>"

datatype holder = RunOf nat string | SlotOf nat

fun holder_server :: "holder \<Rightarrow> nat" where
  "holder_server (RunOf p _) = p"
| "holder_server (SlotOf p) = p"

record machine =
  mc_lock :: "holder option"
  mc_servers :: "nat \<Rightarrow> axe_server"

definition machine_start :: machine where
  "machine_start = \<lparr> mc_lock = None, mc_servers = (\<lambda>_. registry_new) \<rparr>"

definition in_server :: "nat \<Rightarrow> axe_server \<Rightarrow> holder option \<Rightarrow> machine \<Rightarrow> machine" where
  "in_server p s l m = m\<lparr> mc_servers := (mc_servers m)(p := s), mc_lock := l \<rparr>"

inductive machine_step :: "machine \<Rightarrow> machine \<Rightarrow> bool" where
  start_admitted:
    "registry_start failure path clock kind (mc_lock m \<noteq> None) (mc_servers m p) = (Inr run_id, s) \<Longrightarrow>
     machine_step m (in_server p s (Some (RunOf p run_id)) m)"
| start_refused:
    "registry_start failure path clock kind (mc_lock m \<noteq> None) (mc_servers m p) = (Inl refused, s) \<Longrightarrow>
     machine_step m (in_server p s (mc_lock m) m)"
| run_unlocks:
    "(run_id, Spending) \<in> set (as_in_flight (mc_servers m p)) \<Longrightarrow>
     machine_step m (in_server p (run_phase_to run_id Unlocked (mc_servers m p)) None m)"
| run_ends:
    "(run_id, Unlocked) \<in> set (as_in_flight (mc_servers m p)) \<Longrightarrow>
     machine_step m (in_server p (run_phase_to run_id Ended (mc_servers m p)) (mc_lock m) m)"
| listing:
    "machine_step m (in_server p (snd (list_runs names (mc_servers m p))) (mc_lock m) m)"
| claim_locks:
    "claim_lock failure path (mc_lock m \<noteq> None) (mc_servers m p) = (Inr (), s) \<Longrightarrow>
     machine_step m (in_server p s (Some (SlotOf p)) m)"
| claim_counts:
    "SlotLocked \<in> set (as_slots (mc_servers m p)) \<Longrightarrow>
     machine_step m (in_server p (claim_count (mc_servers m p)) (mc_lock m) m)"
| drop_counts:
    "SlotCounted \<in> set (as_slots (mc_servers m p)) \<Longrightarrow>
     machine_step m (in_server p (drop_count (mc_servers m p)) (mc_lock m) m)"
| drop_unlocks:
    "SlotUncounted \<in> set (as_slots (mc_servers m p)) \<Longrightarrow>
     machine_step m (in_server p (drop_lock (mc_servers m p)) None m)"
| server_dies:
    "machine_step m (in_server p registry_new
       (case mc_lock m of Some h \<Rightarrow> if holder_server h = p then None else Some h | None \<Rightarrow> None) m)"

abbreviation machine_reaches :: "machine \<Rightarrow> bool" where
  "machine_reaches \<equiv> machine_step\<^sup>*\<^sup>* machine_start"

subsection \<open>Whoever spends holds the lock\<close>

fun none_spending :: "(string \<times> run_phase) list \<Rightarrow> bool" where
  "none_spending [] = True"
| "none_spending [(_, ph)] = (ph \<noteq> Spending)"
| "none_spending _ = False"

inductive server_inv :: "nat \<Rightarrow> holder option \<Rightarrow> axe_server \<Rightarrow> bool" for p l s where
  idle:
    "none_spending (as_in_flight s) \<Longrightarrow> as_slots s = [] \<Longrightarrow> as_claims s = 0 \<Longrightarrow>
     \<forall>h. l = Some h \<longrightarrow> holder_server h \<noteq> p \<Longrightarrow> server_inv p l s"
| run:
    "as_in_flight s = [(run_id, Spending)] \<Longrightarrow> as_slots s = [] \<Longrightarrow> as_claims s = 0 \<Longrightarrow>
     l = Some (RunOf p run_id) \<Longrightarrow> server_inv p l s"
| slot:
    "none_spending (as_in_flight s) \<Longrightarrow> as_slots s = [ph] \<Longrightarrow> as_claims s = (if ph = SlotCounted then 1 else 0) \<Longrightarrow>
     l = Some (SlotOf p) \<Longrightarrow> server_inv p l s"

definition slot_inv :: "machine \<Rightarrow> bool" where
  "slot_inv m = (\<forall>p. server_inv p (mc_lock m) (mc_servers m p))"

lemma slot_inv_start: "slot_inv machine_start"
  by (auto simp: slot_inv_def machine_start_def registry_new_def intro: idle)

text \<open>A step of one server keeps the invariant of the others as long as it moves no lock of theirs.\<close>

lemma slot_inv_in_server:
  assumes "slot_inv m" and "server_inv p l s"
    and "\<forall>h. (mc_lock m = Some h \<and> l \<noteq> Some h \<or> l = Some h \<and> mc_lock m \<noteq> Some h) \<longrightarrow> holder_server h = p"
  shows "slot_inv (in_server p s l m)"
proof -
  have "server_inv q l (mc_servers m q)" if "q \<noteq> p" for q
  proof -
    have same: "(mc_lock m = Some h) = (l = Some h)" if "holder_server h = q" for h
      using assms(3) that \<open>q \<noteq> p\<close> by fastforce
    have "server_inv q (mc_lock m) (mc_servers m q)" using assms(1) by (simp add: slot_inv_def)
    then show ?thesis
    proof (cases rule: server_inv.cases)
      case idle
      have "\<forall>h. l = Some h \<longrightarrow> holder_server h \<noteq> q"
        using idle(4) same by blast
      then show ?thesis by (rule server_inv.idle [OF idle(1-3)])
    next
      case (run run_id)
      have "l = Some (RunOf q run_id)"
        using run(4) same [of "RunOf q run_id"] by simp
      then show ?thesis by (rule server_inv.run [OF run(1-3)])
    next
      case (slot ph)
      have "l = Some (SlotOf q)"
        using slot(4) same [of "SlotOf q"] by simp
      then show ?thesis by (rule server_inv.slot [OF slot(1-3)])
    qed
  qed
  then show ?thesis using assms(2) by (simp add: slot_inv_def in_server_def)
qed

text \<open>Pruning finished handles, and moving a run to a phase in which it no longer spends.\<close>

lemma none_spending_filter: "none_spending xs \<Longrightarrow> none_spending (filter P xs)"
  by (induction xs rule: none_spending.induct) auto


lemma none_spending_phase: "none_spending xs \<Longrightarrow> ph \<noteq> Spending \<Longrightarrow> none_spending (map (\<lambda>(i, q). if i = run_id then (i, ph) else (i, q)) xs)"
  by (induction xs rule: none_spending.induct) auto

lemma none_spending_not_spending: "none_spending xs \<Longrightarrow> (i, Spending) \<notin> set xs"
  by (induction xs rule: none_spending.induct) auto

lemma retain_inv: "server_inv p l s \<Longrightarrow> server_inv p l (retain_unfinished s)"
  by (cases rule: server_inv.cases)
    (auto simp: retain_unfinished_def none_spending_filter intro: server_inv.intros)

lemma registry_start_Inr:
  assumes "registry_start failure path clock kind held s = (Inr run_id, s')"
  shows "as_claims s = 0" "failure = None" "\<not> held" "running s = []"
    "as_in_flight s' = [(run_id, Spending)]" "as_slots s' = as_slots s" "as_claims s' = 0"
  using assms
  by (auto simp: registry_start_def lock_machine_slot_def retain_unfinished_def running_def Let_def
      split: list.splits if_splits option.splits sum.splits prod.splits)

lemma registry_start_Inl:
  "registry_start failure path clock kind held s = (Inl refused, s') \<Longrightarrow> s' = retain_unfinished s"
  by (auto simp: registry_start_def Let_def split: list.splits sum.splits prod.splits)

lemma claim_lock_Inr:
  assumes "claim_lock failure path held s = (Inr u, s')"
  shows "as_claims s = 0" "\<not> held" "s' = s\<lparr> as_slots := SlotLocked # as_slots s \<rparr>"
  using assms by (auto simp: claim_lock_def lock_machine_slot_def split: if_splits option.splits sum.splits)

lemma inv_unlocked: "server_inv p None s \<Longrightarrow> none_spending (as_in_flight s) \<and> as_slots s = [] \<and> as_claims s = 0"
  by (cases rule: server_inv.cases) auto

lemma slot_inv_step: "machine_step m m' \<Longrightarrow> slot_inv m \<Longrightarrow> slot_inv m'"
proof (induction rule: machine_step.induct)
  case (start_admitted failure path clock kind m p run_id s)
  note start = registry_start_Inr [OF start_admitted.hyps]
  have "server_inv p None (mc_servers m p)" using start_admitted.prems start(3) by (auto simp: slot_inv_def)
  then have "server_inv p (Some (RunOf p run_id)) s"
    using start by (auto simp: inv_unlocked intro!: server_inv.run)
  then show ?case using start(3) start_admitted.prems by (intro slot_inv_in_server) auto
next
  case (start_refused failure path clock kind m p refused s)
  have "server_inv p (mc_lock m) s"
    unfolding registry_start_Inl [OF start_refused.hyps] using start_refused.prems
    by (simp add: slot_inv_def retain_inv)
  then show ?case by (intro slot_inv_in_server start_refused.prems) auto
next
  case (run_unlocks run_id m p)
  have "server_inv p (mc_lock m) (mc_servers m p)" using run_unlocks.prems by (simp add: slot_inv_def)
  then have "server_inv p None (run_phase_to run_id Unlocked (mc_servers m p)) \<and> mc_lock m = Some (RunOf p run_id)"
    using run_unlocks.hyps
    by (cases rule: server_inv.cases) (auto simp: run_phase_to_def dest: none_spending_not_spending intro!: server_inv.idle)
  then show ?case by (intro slot_inv_in_server run_unlocks.prems) auto
next
  case (run_ends run_id m p)
  have "server_inv p (mc_lock m) (mc_servers m p)" using run_ends.prems by (simp add: slot_inv_def)
  then have "server_inv p (mc_lock m) (run_phase_to run_id Ended (mc_servers m p))"
    using run_ends.hyps
    by (cases rule: server_inv.cases) (auto simp: run_phase_to_def none_spending_phase intro: server_inv.intros)
  then show ?case by (intro slot_inv_in_server run_ends.prems) auto
next
  case (listing m p names)
  have "server_inv p (mc_lock m) (snd (list_runs names (mc_servers m p)))"
    using listing.prems by (simp add: list_runs_def Let_def slot_inv_def retain_inv)
  then show ?case by (intro slot_inv_in_server listing.prems) auto
next
  case (claim_locks failure path m p s)
  note claim = claim_lock_Inr [OF claim_locks.hyps]
  have "server_inv p None (mc_servers m p)" using claim_locks.prems claim(2) by (auto simp: slot_inv_def)
  then have "server_inv p (Some (SlotOf p)) s"
    using claim(3) by (auto simp: inv_unlocked intro!: server_inv.slot)
  then show ?case using claim(2) claim_locks.prems by (intro slot_inv_in_server) auto
next
  case (claim_counts m p)
  have "server_inv p (mc_lock m) (mc_servers m p)" using claim_counts.prems by (simp add: slot_inv_def)
  then have "server_inv p (mc_lock m) (claim_count (mc_servers m p))"
    using claim_counts.hyps
    by (cases rule: server_inv.cases) (auto simp: claim_count_def intro!: server_inv.slot)
  then show ?case by (intro slot_inv_in_server claim_counts.prems) auto
next
  case (drop_counts m p)
  have "server_inv p (mc_lock m) (mc_servers m p)" using drop_counts.prems by (simp add: slot_inv_def)
  then have "server_inv p (mc_lock m) (drop_count (mc_servers m p))"
    using drop_counts.hyps
    by (cases rule: server_inv.cases) (auto simp: drop_count_def intro!: server_inv.slot)
  then show ?case by (intro slot_inv_in_server drop_counts.prems) auto
next
  case (drop_unlocks m p)
  have "server_inv p (mc_lock m) (mc_servers m p)" using drop_unlocks.prems by (simp add: slot_inv_def)
  then have "server_inv p None (drop_lock (mc_servers m p)) \<and> mc_lock m = Some (SlotOf p)"
    using drop_unlocks.hyps
    by (cases rule: server_inv.cases) (auto simp: drop_lock_def intro!: server_inv.idle)
  then show ?case by (intro slot_inv_in_server drop_unlocks.prems) auto
next
  case (server_dies m p)
  have "server_inv p (case mc_lock m of Some h \<Rightarrow> if holder_server h = p then None else Some h | None \<Rightarrow> None) registry_new"
    by (auto simp: registry_new_def split: option.splits intro!: server_inv.idle)
  then show ?case by (intro slot_inv_in_server server_dies.prems) (auto split: option.splits if_splits)
qed

lemma slot_inv_reaches: "machine_reaches m \<Longrightarrow> slot_inv m"
  by (induction rule: rtranclp_induct) (auto simp: slot_inv_start slot_inv_step)

subsection \<open>The slot is a mutex\<close>

text \<open>Everything that spends right now, read off the registries alone.\<close>

definition spenders :: "machine \<Rightarrow> holder set" where
  "spenders m =
     {h. \<exists>p. (\<exists>run_id. h = RunOf p run_id \<and> (run_id, Spending) \<in> set (as_in_flight (mc_servers m p))) \<or>
             h = SlotOf p \<and> as_slots (mc_servers m p) \<noteq> []}"

inductive mutex_step :: "holder option \<Rightarrow> holder option \<Rightarrow> bool" where
  acquire: "mutex_step None (Some h)"
| free: "mutex_step (Some h) None"
| stay: "mutex_step a a"

lemma server_spends:
  assumes "server_inv p l s"
  shows "(\<exists>run_id. h = RunOf p run_id \<and> (run_id, Spending) \<in> set (as_in_flight s)) \<or> h = SlotOf p \<and> as_slots s \<noteq> []
    \<longleftrightarrow> l = Some h \<and> holder_server h = p"
  using assms
proof (cases rule: server_inv.cases)
  case idle
  then show ?thesis using none_spending_not_spending [OF idle(1)] by blast
next
  case (run run_id)
  then show ?thesis by auto
next
  case (slot ph)
  then show ?thesis using none_spending_not_spending [OF slot(1)] by auto
qed

lemma spenders_lock:
  assumes "slot_inv m"
  shows "spenders m = set_option (mc_lock m)"
proof -
  have "server_inv p (mc_lock m) (mc_servers m p)" for p using assms by (simp add: slot_inv_def)
  note spends = server_spends [OF this]
  show ?thesis unfolding spenders_def by (simp only: spends) auto
qed

lemma step_lock: "machine_step m m' \<Longrightarrow> slot_inv m \<Longrightarrow> mutex_step (mc_lock m) (mc_lock m')"
proof (induction rule: machine_step.induct)
  case (start_admitted failure path clock kind m p run_id s)
  then show ?case using registry_start_Inr(3) [OF start_admitted.hyps] by (auto simp: in_server_def intro: mutex_step.intros)
next
  case (claim_locks failure path m p s)
  then show ?case using claim_lock_Inr(2) [OF claim_locks.hyps] by (auto simp: in_server_def intro: mutex_step.intros)
next
  case (run_unlocks run_id m p)
  then show ?case by (cases "mc_lock m") (auto simp: in_server_def intro: mutex_step.intros)
next
  case (drop_unlocks m p)
  then show ?case by (cases "mc_lock m") (auto simp: in_server_def intro: mutex_step.intros)
qed (auto simp: in_server_def split: option.splits intro: mutex_step.intros)

text \<open>
  C34: The registries of all servers and the file lock together implement one mutex for the
  machine.  However starts, claims, ends, drops, listings and crashes of any number of servers
  interleave, at most one flow spends at a time, and every step is a step of a mutex on the set
  of spending flows: it admits one when there is none, ends the one there is, or leaves it.
\<close>

theorem slot_refines_mutex:
  assumes "machine_reaches m" and "machine_step m m'"
  shows "\<exists>a a'. spenders m = set_option a \<and> spenders m' = set_option a' \<and> mutex_step a a'"
proof -
  have inv: "slot_inv m" using assms(1) by (rule slot_inv_reaches)
  then have "slot_inv m'" using slot_inv_step [OF assms(2)] by blast
  with inv step_lock [OF assms(2) inv] show ?thesis using spenders_lock by blast
qed

definition sample_run :: machine where
  "sample_run =
     in_server 0 (snd (registry_start None ''spend-run.lock'' 7 LoadTest False registry_new))
       (Some (RunOf 0 ''axe-load-test-7'')) machine_start"

lemma sample_started: "machine_step machine_start sample_run"
proof -
  have "registry_start None ''spend-run.lock'' 7 LoadTest False registry_new =
      (Inr ''axe-load-test-7'', snd (registry_start None ''spend-run.lock'' 7 LoadTest False registry_new))"
    by (simp add: registry_start_def retain_unfinished_def registry_new_def lock_machine_slot_def mint_example)
  then show ?thesis
    unfolding sample_run_def by (intro start_admitted) (simp add: machine_start_def)
qed

theorem slot_refines_mutex_witness:
  "\<exists>a a'. spenders machine_start = set_option a \<and> spenders sample_run = set_option a' \<and> mutex_step a a'"
  by (rule slot_refines_mutex [OF rtranclp.rtrancl_refl sample_started])



text \<open>
  Claiming a slot does not ask for the runs of this server: while one is in flight the claim is
  refused with another process as the reason, although the lock is held by this one.
\<close>

theorem claim_blames_another_process:
  assumes "machine_reaches m" and "(run_id, Spending) \<in> set (as_in_flight (mc_servers m p))"
  shows "fst (claim_slot None path (mc_lock m \<noteq> None) (mc_servers m p)) = Inl (HeldByAnotherProcess path) \<and>
    mc_lock m = Some (RunOf p run_id)"
proof -
  have "server_inv p (mc_lock m) (mc_servers m p)" using slot_inv_reaches [OF assms(1)] by (simp add: slot_inv_def)
  then show ?thesis using assms(2)
    by (cases rule: server_inv.cases)
      (auto simp: claim_slot_def claim_lock_def lock_machine_slot_def dest: none_spending_not_spending)
qed

end
