(* ===== verification/Mcp_Server.thy ===== *)
theory Mcp_Server
  imports Mcp_Slot
begin

text \<open>
  The tools of the MCP server that spend (\<open>mcp/server.rs\<close>): an express transfer, a load test and
  the intent runs.  Each claims its transactions against the operator's budget, then the spending
  slot, and hands the claim back when it is not admitted.  The flows themselves, the configuration
  they are built from and the operating system's answers are arguments.  Requests, runs, crashes
  and restarts of a server interleave as a step relation over the budget.
\<close>

datatype tool_error = InvalidParams string | InvalidRequest string | InternalError string

record server_world =
  sw_spent :: spent
  sw_files :: files
  sw_server :: axe_server

text \<open>
  What a request meets: how its ledger writes end, an error of preparing its flow, an error of
  the lock file, the clock, and whether the lock is held elsewhere.
\<close>

record admission =
  ad_reserve :: fs_outcome
  ad_release :: fs_outcome
  ad_prepare :: "string option"
  ad_failure :: "string option"
  ad_path :: string
  ad_clock :: nat
  ad_held :: bool

definition admit_spend ::
  "spend_limits \<Rightarrow> fs_outcome \<Rightarrow> string list \<Rightarrow> u64 \<Rightarrow> spent \<Rightarrow> files \<Rightarrow> (policy_violation + unit) \<times> spent \<times> files" where
  "admit_spend limits outcome route num_txs s fs =
     (case map_ok (check_chain limits) route of
        Inl v \<Rightarrow> (Inl v, s, fs)
      | Inr _ \<Rightarrow> policy_reserve limits outcome num_txs s fs)"

definition admit_in ::
  "spend_limits \<Rightarrow> fs_outcome \<Rightarrow> string list \<Rightarrow> u64 \<Rightarrow> server_world \<Rightarrow> (tool_error + unit) \<times> server_world" where
  "admit_in limits outcome route num_txs w =
     (case admit_spend limits outcome route num_txs (sw_spent w) (sw_files w) of
        (Inl v, s, fs) \<Rightarrow> (Inl (InvalidParams (violation_text v)), w\<lparr> sw_spent := s, sw_files := fs \<rparr>)
      | (Inr _, s, fs) \<Rightarrow> (Inr (), w\<lparr> sw_spent := s, sw_files := fs \<rparr>))"

definition release_in :: "fs_outcome \<Rightarrow> u64 \<Rightarrow> server_world \<Rightarrow> server_world" where
  "release_in outcome num_txs w =
     (case policy_release outcome num_txs (sw_spent w) (sw_files w) of
        (s, fs) \<Rightarrow> w\<lparr> sw_spent := s, sw_files := fs \<rparr>)"

text \<open>Preparing the flow of a claimed run and starting it; the claim is released when either fails.\<close>

definition launch_run :: "admission \<Rightarrow> run_kind \<Rightarrow> u64 \<Rightarrow> server_world \<Rightarrow> (tool_error + string) \<times> server_world" where
  "launch_run A kind num_txs w =
     (case ad_prepare A of
        Some e \<Rightarrow> (Inl (InternalError e), release_in (ad_release A) num_txs w)
      | None \<Rightarrow>
          (case registry_start (ad_failure A) (ad_path A) (ad_clock A) kind (ad_held A) (sw_server w) of
             (Inl refused, s) \<Rightarrow>
               (Inl (InvalidRequest (refusal_text refused)),
                release_in (ad_release A) num_txs (w\<lparr> sw_server := s \<rparr>))
           | (Inr run_id, s) \<Rightarrow> (Inr run_id, w\<lparr> sw_server := s \<rparr>)))"

definition start_load_test ::
  "spend_limits \<Rightarrow> admission \<Rightarrow> string \<Rightarrow> string \<Rightarrow> u64 \<Rightarrow> server_world \<Rightarrow> (tool_error + string) \<times> server_world" where
  "start_load_test limits A source_chain destination_chain num_txs w =
     (if num_txs = 0 then (Inl (InvalidParams ''num_txs must be at least 1''), w)
      else
        (case admit_in limits (ad_reserve A) [source_chain, destination_chain] num_txs w of
           (Inl e, w) \<Rightarrow> (Inl e, w)
         | (Inr _, w) \<Rightarrow> launch_run A LoadTest num_txs w))"

definition start_intents_run ::
  "spend_limits \<Rightarrow> admission \<Rightarrow> run_kind \<Rightarrow> u64 \<Rightarrow> server_world \<Rightarrow> (tool_error + string) \<times> server_world" where
  "start_intents_run limits A kind max_intents w =
     (case admit_in limits (ad_reserve A) [] max_intents w of
        (Inl e, w) \<Rightarrow> (Inl e, w)
      | (Inr _, w) \<Rightarrow> launch_run A kind max_intents w)"

text \<open>What an intent run hands back when its flow reports how many intents it sent.\<close>

definition intents_refund :: "u64 \<Rightarrow> u64 \<Rightarrow> u64" where
  "intents_refund reserved sent = saturating_sub reserved (min sent reserved)"

definition finish_intents_run :: "fs_outcome \<Rightarrow> u64 \<Rightarrow> u64 \<Rightarrow> server_world \<Rightarrow> server_world" where
  "finish_intents_run outcome reserved sent w = release_in outcome (intents_refund reserved sent) w"

text \<open>
  An express transfer holds the slot only while it is sent; \<open>sent\<close> is the transaction hash or the
  error of sending it, after which the claim is deliberately kept.
\<close>

definition express_originate ::
  "spend_limits \<Rightarrow> admission \<Rightarrow> string option \<Rightarrow> string \<Rightarrow> string \<Rightarrow> (string \<Rightarrow> string + string) \<Rightarrow> server_world
   \<Rightarrow> (tool_error + string) \<times> server_world" where
  "express_originate limits A private_key source_chain destination_chain originate w =
     (case private_key of
        None \<Rightarrow> (Inl (InternalError ''EVM_PRIVATE_KEY is not set in the server's environment''), w)
      | Some key \<Rightarrow>
          (case admit_in limits (ad_reserve A) [source_chain, destination_chain] 1 w of
             (Inl e, w) \<Rightarrow> (Inl e, w)
           | (Inr _, w) \<Rightarrow>
               (case claim_slot (ad_failure A) (ad_path A) (ad_held A) (sw_server w) of
                  (Inl refused, s) \<Rightarrow>
                    (Inl (InvalidRequest (refusal_text refused)),
                     release_in (ad_release A) 1 (w\<lparr> sw_server := s \<rparr>))
                | (Inr _, s) \<Rightarrow>
                    (case originate key of
                       Inl e \<Rightarrow> (Inl (InternalError e), w\<lparr> sw_server := drop_lock (drop_count s) \<rparr>)
                     | Inr source_tx \<Rightarrow> (Inr source_tx, w\<lparr> sw_server := drop_lock (drop_count s) \<rparr>)))))"

section \<open>Interleaved spending\<close>

text \<open>
  One claim against the budget: the chains it named, what it reserved, whether its flow may send
  yet and how many transactions it has sent.
\<close>

record spend_task =
  tk_kind :: "run_kind option"
  tk_route :: "string list"
  tk_reserved :: u64
  tk_sending :: bool
  tk_sent :: nat

text \<open>A server that is up or down, its ledger, its claims, and every transaction ever sent.\<close>

record budget_state =
  bs_up :: bool
  bs_spent :: spent
  bs_files :: files
  bs_tasks :: "spend_task list"
  bs_sent :: nat

definition new_task :: "run_kind option \<Rightarrow> string list \<Rightarrow> u64 \<Rightarrow> spend_task" where
  "new_task kind route n =
     \<lparr> tk_kind = kind, tk_route = route, tk_reserved = n, tk_sending = False, tk_sent = 0 \<rparr>"

text \<open>What a finished flow hands back: intent runs the rest of their claim, the others nothing.\<close>

definition task_refund :: "spend_task \<Rightarrow> u64 \<Rightarrow> u64 option" where
  "task_refund t sent =
     (if tk_kind t = None \<or> tk_kind t = Some LoadTest then None
      else Some (intents_refund (tk_reserved t) sent))"

definition after_refund :: "fs_outcome \<Rightarrow> u64 option \<Rightarrow> spent \<Rightarrow> files \<Rightarrow> spent \<times> files" where
  "after_refund outcome refund s fs = (case refund of None \<Rightarrow> (s, fs) | Some n \<Rightarrow> policy_release outcome n s fs)"

inductive budget_step :: "spend_limits \<Rightarrow> (string \<Rightarrow> u64 option) \<Rightarrow> string \<Rightarrow> budget_state \<Rightarrow> budget_state \<Rightarrow> bool"
  for limits decode path where
  admitted:
    "bs_up b \<Longrightarrow> admit_spend limits outcome route n (bs_spent b) (bs_files b) = (Inr (), s, fs) \<Longrightarrow>
     budget_step limits decode path b
       (b\<lparr> bs_spent := s, bs_files := fs, bs_tasks := bs_tasks b @ [new_task kind route n] \<rparr>)"
| refused:
    "bs_up b \<Longrightarrow> admit_spend limits outcome route n (bs_spent b) (bs_files b) = (Inl v, s, fs) \<Longrightarrow>
     budget_step limits decode path b (b\<lparr> bs_spent := s, bs_files := fs \<rparr>)"
| withdrawn:
    "bs_up b \<Longrightarrow> bs_tasks b = before @ t # after \<Longrightarrow> \<not> tk_sending t \<Longrightarrow>
     policy_release outcome (tk_reserved t) (bs_spent b) (bs_files b) = (s, fs) \<Longrightarrow>
     budget_step limits decode path b (b\<lparr> bs_spent := s, bs_files := fs, bs_tasks := before @ after \<rparr>)"
| launched:
    "bs_up b \<Longrightarrow> bs_tasks b = before @ t # after \<Longrightarrow> \<not> tk_sending t \<Longrightarrow>
     budget_step limits decode path b (b\<lparr> bs_tasks := before @ t\<lparr> tk_sending := True \<rparr> # after \<rparr>)"
| sends:
    "bs_up b \<Longrightarrow> bs_tasks b = before @ t # after \<Longrightarrow> tk_sending t \<Longrightarrow> tk_sent t < unat (tk_reserved t) \<Longrightarrow>
     budget_step limits decode path b
       (b\<lparr> bs_tasks := before @ t\<lparr> tk_sent := tk_sent t + 1 \<rparr> # after, bs_sent := bs_sent b + 1 \<rparr>)"
| finished:
    "bs_up b \<Longrightarrow> bs_tasks b = before @ t # after \<Longrightarrow> tk_sending t \<Longrightarrow> tk_sent t \<le> unat reported \<Longrightarrow>
     after_refund outcome (task_refund t reported) (bs_spent b) (bs_files b) = (s, fs) \<Longrightarrow>
     budget_step limits decode path b (b\<lparr> bs_spent := s, bs_files := fs, bs_tasks := before @ after \<rparr>)"
| dies:
    "budget_step limits decode path b (b\<lparr> bs_up := False, bs_tasks := [] \<rparr>)"
| restarts:
    "\<not> bs_up b \<Longrightarrow> persistent decode failure path (bs_files b) = Inr s \<Longrightarrow>
     budget_step limits decode path b (b\<lparr> bs_up := True, bs_spent := s \<rparr>)"

definition budget_start :: "files \<Rightarrow> budget_state" where
  "budget_start fs = \<lparr> bs_up = False, bs_spent = policy_new, bs_files = fs, bs_tasks = [], bs_sent = 0 \<rparr>"

subsection \<open>Every claim is accounted for\<close>

definition outstanding :: "spend_task list \<Rightarrow> nat" where
  "outstanding ts = (\<Sum>t\<leftarrow>ts. unat (tk_reserved t) - tk_sent t)"

definition committed :: "budget_state \<Rightarrow> nat" where
  "committed b = bs_sent b + outstanding (bs_tasks b)"

definition task_ok :: "spend_limits \<Rightarrow> spend_task \<Rightarrow> bool" where
  "task_ok limits t =
     (tk_sent t \<le> unat (tk_reserved t) \<and> (\<not> tk_sending t \<longrightarrow> tk_sent t = 0) \<and> tk_reserved t \<le> lm_max_txs_per_run limits \<and>
      list_all (\<lambda>chain. check_chain limits chain = Inr ()) (tk_route t))"

definition budget_inv :: "spend_limits \<Rightarrow> (string \<Rightarrow> u64 option) \<Rightarrow> string \<Rightarrow> u64 \<Rightarrow> budget_state \<Rightarrow> bool" where
  "budget_inv limits decode path m b =
     ((bs_up b \<longrightarrow> sp_ledger (bs_spent b) = Some path \<and> committed b \<le> unat (sp_count (bs_spent b))) \<and>
      covers decode path (bs_files b) (committed b) \<and> committed b \<le> unat m \<and>
      list_all (task_ok limits) (bs_tasks b))"

lemma outstanding_simps [simp]:
  "outstanding [] = 0"
  "outstanding (t # ts) = unat (tk_reserved t) - tk_sent t + outstanding ts"
  "outstanding (ts @ us) = outstanding ts + outstanding us"
  by (simp_all add: outstanding_def)

lemma admit_spend_Inr:
  assumes "admit_spend limits outcome route n s fs = (Inr u, s', fs')"
  shows "policy_reserve limits outcome n s fs = (Inr (), s', fs')"
    and "list_all (\<lambda>chain. check_chain limits chain = Inr ()) route"
  using assms by (auto simp: admit_spend_def map_ok_Inr list_all_iff split: sum.splits dest: list_all2_lengthD)
    (auto simp: list_all2_conv_all_nth in_set_conv_nth)

lemma admit_spend_Inl:
  assumes "admit_spend limits outcome route n s fs = (Inl v, s', fs')"
  shows "s' = s" and "fs' = fs \<or> (\<exists>t. sp_ledger t = sp_ledger s \<and> write_ledger outcome t fs = (Inl v, fs'))"
  using assms policy_reserve_Inl by (auto simp: admit_spend_def split: sum.splits)

text \<open>Releasing what is no longer committed keeps the count and the ledger above what is.\<close>

lemma release_covers:
  assumes "ledger_decoder decode" and "sp_ledger s = Some path" and "covers decode path fs k"
    and "k + unat n \<le> unat (sp_count s)" and "policy_release outcome n s fs = (s', fs')"
  shows "sp_ledger s' = Some path \<and> k \<le> unat (sp_count s') \<and> covers decode path fs' k"
proof -
  have s': "s' = s\<lparr> sp_count := saturating_sub (sp_count s) n \<rparr>" and fs': "fs' = snd (write_ledger outcome s' fs)"
    using assms(5) by (auto simp: policy_release_def Let_def)
  have le: "k \<le> unat (sp_count s')" using assms(4) by (simp add: s' unat_saturating_sub)
  moreover have "covers decode path fs' k"
    unfolding fs' using assms(2) by (intro write_ledger_covers [OF assms(1) _ assms(3) le]) (simp add: s')
  ultimately show ?thesis using assms(2) by (simp add: s')
qed

lemma intents_refund_bound: "k \<le> unat reported \<Longrightarrow> k \<le> unat n \<Longrightarrow> unat (intents_refund n reported) \<le> unat n - k"
  by (auto simp: intents_refund_def unat_saturating_sub min_def)

lemma admitted_inv:
  assumes "ledger_decoder decode" and "lm_max_txs_total limits = Some m" and "m < - 1" and "bs_up b"
    and "budget_inv limits decode path m b"
    and "admit_spend limits outcome route n (bs_spent b) (bs_files b) = (Inr (), s, fs)"
  shows "budget_inv limits decode path m
    (b\<lparr> bs_spent := s, bs_files := fs, bs_tasks := bs_tasks b @ [new_task kind route n] \<rparr>)"
proof -
  note admit = admit_spend_Inr [OF assms(6)]
  note reserve = policy_reserve_Inr [OF admit(1)]
  have exact: "unat (sp_count s) = unat (sp_count (bs_spent b)) + unat n" "unat (sp_count s) \<le> unat m"
    using reserve_exact [OF admit(1) assms(2,3)] by simp_all
  have ledger: "sp_ledger s = Some path" using assms(4,5) reserve(2) by (simp add: budget_inv_def)
  have "recorded decode path fs = Some (sp_count s)" by (rule write_ledger_Inr [OF assms(1) ledger reserve(4)])
  then show ?thesis
    using assms(4,5) exact ledger admit(2) reserve(1)
    by (simp add: budget_inv_def committed_def covers_def new_task_def task_ok_def)
qed

lemma refused_inv:
  assumes "ledger_decoder decode" and "bs_up b" and "budget_inv limits decode path m b"
    and "admit_spend limits outcome route n (bs_spent b) (bs_files b) = (Inl v, s, fs)"
  shows "budget_inv limits decode path m (b\<lparr> bs_spent := s, bs_files := fs \<rparr>)"
proof -
  note admit = admit_spend_Inl [OF assms(4)]
  have ledger: "sp_ledger (bs_spent b) = Some path" and cov: "covers decode path (bs_files b) (committed b)"
    using assms(2,3) by (simp_all add: budget_inv_def)
  have "covers decode path fs (committed b)"
    using admit(2) cov write_ledger_Inl_covers [OF assms(1) _ _ cov] ledger by metis
  then show ?thesis using assms(3) admit(1) by (simp add: budget_inv_def committed_def)
qed

lemma released_inv:
  assumes "ledger_decoder decode" and "bs_up b" and "budget_inv limits decode path m b"
    and "bs_tasks b = before @ t # after" and "unat n \<le> unat (tk_reserved t) - tk_sent t"
    and "policy_release outcome n (bs_spent b) (bs_files b) = (s, fs)"
  shows "budget_inv limits decode path m (b\<lparr> bs_spent := s, bs_files := fs, bs_tasks := before @ after \<rparr>)"
proof -
  let ?k = "bs_sent b + outstanding (before @ after)"
  have room: "?k + unat n \<le> committed b" using assms(4,5) by (simp add: committed_def)
  have inv: "sp_ledger (bs_spent b) = Some path" "committed b \<le> unat (sp_count (bs_spent b))"
      "covers decode path (bs_files b) (committed b)" "committed b \<le> unat m"
    using assms(2,3) by (simp_all add: budget_inv_def)
  have "covers decode path (bs_files b) ?k" by (rule covers_mono [OF inv(3)]) (use room in linarith)
  from release_covers [OF assms(1) inv(1) this _ assms(6)] room inv(2,4) show ?thesis
    using assms(3,4) by (simp add: budget_inv_def committed_def)
qed

text \<open>Claims may be moved from reserved to sent, or dropped, without touching the count.\<close>

lemma shrunk_inv:
  assumes "budget_inv limits decode path m b" and "sent + outstanding ts \<le> committed b"
    and "list_all (task_ok limits) ts" and "up \<longrightarrow> bs_up b"
  shows "budget_inv limits decode path m (b\<lparr> bs_up := up, bs_tasks := ts, bs_sent := sent \<rparr>)"
proof -
  have "covers decode path (bs_files b) (sent + outstanding ts)"
    using assms(1) by (intro covers_mono [OF _ assms(2)]) (simp add: budget_inv_def)
  then show ?thesis using assms by (auto simp: budget_inv_def committed_def)
qed

lemma budget_inv_step:
  assumes "budget_step limits decode path b b'" and "ledger_decoder decode"
    and "lm_max_txs_total limits = Some m" and "m < - 1" and "budget_inv limits decode path m b"
  shows "budget_inv limits decode path m b'"
  using assms
proof (induction rule: budget_step.induct)
  case (admitted b outcome route n s fs kind)
  then show ?case by (intro admitted_inv)
next
  case (refused b outcome route n v s fs)
  then show ?case by (intro refused_inv)
next
  case (withdrawn b before t after outcome s fs)
  then have "unat (tk_reserved t) \<le> unat (tk_reserved t) - tk_sent t"
    by (simp add: budget_inv_def task_ok_def)
  with withdrawn show ?case by (intro released_inv)
next
  case (launched b before t after)
  have ok: "list_all (task_ok limits) (bs_tasks b)" using launched.prems(4) by (simp add: budget_inv_def)
  have "budget_inv limits decode path m
      (b\<lparr> bs_up := bs_up b, bs_tasks := before @ t\<lparr> tk_sending := True \<rparr> # after, bs_sent := bs_sent b \<rparr>)"
    using ok launched.hyps
    by (intro shrunk_inv [OF launched.prems(4)]) (simp_all add: committed_def task_ok_def)
  then show ?case by simp
next
  case (sends b before t after)
  then have "budget_inv limits decode path m
      (b\<lparr> bs_up := bs_up b, bs_tasks := before @ t\<lparr> tk_sent := tk_sent t + 1 \<rparr> # after, bs_sent := bs_sent b + 1 \<rparr>)"
    by (intro shrunk_inv) (simp_all add: committed_def budget_inv_def task_ok_def)
  then show ?case by simp
next
  case (finished b before t after reported outcome s fs)
  show ?case
  proof (cases "task_refund t reported")
    case None
    then have "budget_inv limits decode path m (b\<lparr> bs_up := bs_up b, bs_tasks := before @ after, bs_sent := bs_sent b \<rparr>)"
      using finished by (intro shrunk_inv) (simp_all add: committed_def budget_inv_def)
    then show ?thesis using finished.hyps(5) None by (auto simp: after_refund_def)
  next
    case (Some n)
    then have "unat n \<le> unat (tk_reserved t) - tk_sent t"
      using finished.hyps(2,4) finished.prems(4)
      by (auto simp: task_refund_def budget_inv_def task_ok_def intro: intents_refund_bound split: if_splits)
    then show ?thesis using finished Some by (intro released_inv) (simp_all add: after_refund_def)
  qed
next
  case (dies b)
  then have "budget_inv limits decode path m (b\<lparr> bs_up := False, bs_tasks := [], bs_sent := bs_sent b \<rparr>)"
    by (intro shrunk_inv) (simp_all add: committed_def)
  then show ?case by simp
next
  case (restarts b failure s)
  then show ?case using persistent_Inr [OF restarts.hyps(2)] by (auto simp: budget_inv_def committed_def covers_def)
qed

lemma budget_inv_start: "budget_inv limits decode path m (budget_start fs)"
  by (simp add: budget_inv_def budget_start_def committed_def covers_def)

lemma budget_inv_reaches:
  assumes "(budget_step limits decode path)\<^sup>*\<^sup>* (budget_start fs) b" and "ledger_decoder decode"
    and "lm_max_txs_total limits = Some m" and "m < - 1"
  shows "budget_inv limits decode path m b"
  using assms by (induction rule: rtranclp_induct) (auto simp: budget_inv_start intro: budget_inv_step)


text \<open>A decoder of exactly the ledgers that are written.\<close>

definition ledger_head :: string where
  "ledger_head = [CHR ''{'', CHR 0x22] @ ''transactions'' @ [CHR 0x22, CHR '':'']"

definition plain_decode :: "string \<Rightarrow> u64 option" where
  "plain_decode text = Option.bind (Option.bind (strip_prefix ledger_head text) (strip_suffix ''}'')) parse_word"

lemma drop_append_length: "drop (length xs) (xs @ ys) = ys"
  by simp

lemma parse_digits_only: "parse_digits acc cs = Some n \<Longrightarrow> c \<in> set cs \<Longrightarrow> digit_value c \<noteq> None"
  by (induction acc cs rule: parse_digits.induct) (auto split: option.splits)

lemma brace_not_shown: "CHR ''}'' \<notin> set (show_word n)"
  using parse_digits_only [OF parse_digits_show, of "CHR ''}''" "unat n"] by (auto simp: show_word_def digit_value_def)

lemma plain_ledger_decoder: "ledger_decoder plain_decode"
proof -
  have shape: "ledger_text n = ledger_head @ show_word n @ ''}''" for n by (simp add: ledger_text_def ledger_head_def)
  have "plain_decode (take k (ledger_text n)) = None" if short: "k < length (ledger_text n)" for n k
  proof (rule ccontr)
    assume "plain_decode (take k (ledger_text n)) \<noteq> None"
    then obtain body digits where cut: "take k (ledger_text n) = ledger_head @ body" and body: "body = digits @ ''}''"
      by (auto simp: plain_decode_def strip_prefix_Some strip_suffix_Some split: bind_splits)
    have "body = take (k - length ledger_head) (show_word n @ ''}'')"
    proof -
      have "body = drop (length ledger_head) (take k (ledger_text n))" by (simp only: cut drop_append_length)
      also have "\<dots> = take (k - length ledger_head) (drop (length ledger_head) (ledger_text n))" by (rule drop_take)
      finally show ?thesis by (simp only: shape drop_append_length)
    qed
    then have "body = take (k - length ledger_head) (show_word n)" using short by (simp add: shape)
    then have "CHR ''}'' \<in> set (show_word n)" using body set_take_subset by (metis UnCI list.set_intros(1) set_append subsetD)
    then show False using brace_not_shown by blast
  qed
  moreover have "plain_decode (ledger_text n) = Some n" for n by (simp add: plain_decode_def shape)
  ultimately show ?thesis by (simp add: ledger_decoder_def)
qed

definition sample_limits :: spend_limits where
  "sample_limits = \<lparr> lm_max_txs_per_run = 2, lm_max_txs_total = Some 3, lm_allowed_chains = [''solana''] \<rparr>"

definition sample_sending :: budget_state where
  "sample_sending =
     \<lparr> bs_up = True, bs_spent = \<lparr> sp_count = 2, sp_ledger = Some ''ledger'' \<rparr>,
       bs_files = [''ledger'' \<mapsto> ledger_text 2],
       bs_tasks = [\<lparr> tk_kind = Some LoadTest, tk_route = [''Solana''], tk_reserved = 2, tk_sending = True, tk_sent = 1 \<rparr>],
       bs_sent = 1 \<rparr>"

lemma sample_sending_reached: "(budget_step sample_limits plain_decode ''ledger'')\<^sup>*\<^sup>* (budget_start Map.empty) sample_sending"
proof -
  let ?step = "budget_step sample_limits plain_decode ''ledger''"
  define b1 where "b1 = (budget_start Map.empty)\<lparr> bs_up := True, bs_spent := \<lparr> sp_count = 0, sp_ledger = Some ''ledger'' \<rparr> \<rparr>"
  define s where "s = \<lparr> sp_count = 2 :: u64, sp_ledger = Some ''ledger'' \<rparr>"
  define b2 where "b2 = b1\<lparr> bs_spent := s, bs_files := [''ledger'' \<mapsto> ledger_text 2],
    bs_tasks := bs_tasks b1 @ [new_task (Some LoadTest) [''Solana''] 2] \<rparr>"
  define t where "t = (new_task (Some LoadTest) [''Solana''] 2)\<lparr> tk_sending := True \<rparr>"
  define b3 where "b3 = b2\<lparr> bs_tasks := [] @ t # [] \<rparr>"
  have "?step (budget_start Map.empty) b1"
    unfolding b1_def by (rule restarts) (simp_all add: budget_start_def persistent_def read_ledger_def)
  moreover have "?step b1 b2"
    unfolding b2_def
  proof (rule admitted [where outcome = FsDone])
    show "bs_up b1" by (simp add: b1_def)
    have "check_chain sample_limits ''Solana'' = Inr ()"
      by (simp add: check_chain_def sample_limits_def eq_ignore_ascii_case_def to_lower_def char_of_def bit_0)
    then show "admit_spend sample_limits FsDone [''Solana''] 2 (bs_spent b1) (bs_files b1) =
        (Inr (), s, [''ledger'' \<mapsto> ledger_text 2])"
      by (simp add: admit_spend_def policy_reserve_def sample_limits_def b1_def budget_start_def saturating_add_def
          write_ledger_def fs_write_def s_def)
  qed
  moreover have "?step b2 b3"
    unfolding b3_def t_def by (rule launched) (simp_all add: b2_def b1_def budget_start_def new_task_def)
  moreover have "?step b3 sample_sending"
  proof -
    have "?step b3 (b3\<lparr> bs_tasks := [] @ t\<lparr> tk_sent := tk_sent t + 1 \<rparr> # [], bs_sent := bs_sent b3 + 1 \<rparr>)"
      by (rule sends) (simp_all add: b3_def b2_def b1_def budget_start_def t_def new_task_def)
    then show ?thesis
      by (simp add: sample_sending_def b3_def b2_def b1_def budget_start_def t_def new_task_def s_def)
  qed
  ultimately show ?thesis by (meson converse_rtranclp_into_rtranclp rtranclp.rtrancl_refl)
qed


subsection \<open>The tools are such steps\<close>

definition serves :: "budget_state \<Rightarrow> server_world \<Rightarrow> bool" where
  "serves b w = (bs_up b \<and> bs_spent b = sw_spent w \<and> bs_files b = sw_files w)"

definition with_budget :: "server_world \<Rightarrow> spend_task list \<Rightarrow> budget_state \<Rightarrow> budget_state" where
  "with_budget w ts b = b\<lparr> bs_spent := sw_spent w, bs_files := sw_files w, bs_tasks := bs_tasks b @ ts \<rparr>"

abbreviation running_task :: "run_kind option \<Rightarrow> string list \<Rightarrow> u64 \<Rightarrow> spend_task" where
  "running_task kind route n \<equiv> (new_task kind route n)\<lparr> tk_sending := True \<rparr>"

lemma admit_in_steps:
  assumes "serves b w" and "admit_in limits outcome route n w = (answer, w')"
  shows "budget_step limits decode path b (with_budget w' (if is_ok answer then [new_task kind route n] else []) b)"
proof (cases "admit_spend limits outcome route n (bs_spent b) (bs_files b)")
  case (fields r s fs)
  show ?thesis
  proof (cases r)
    case (Inl v)
    then have "with_budget w' (if is_ok answer then [new_task kind route n] else []) b = b\<lparr> bs_spent := s, bs_files := fs \<rparr>"
      using assms fields by (auto simp: serves_def admit_in_def with_budget_def)
    then show ?thesis using refused [of b limits outcome route n v s fs] assms(1) fields Inl by (simp add: serves_def)
  next
    case (Inr u)
    then have "with_budget w' (if is_ok answer then [new_task kind route n] else []) b =
        b\<lparr> bs_spent := s, bs_files := fs, bs_tasks := bs_tasks b @ [new_task kind route n] \<rparr>"
      using assms fields by (auto simp: serves_def admit_in_def with_budget_def)
    then show ?thesis using admitted [of b limits outcome route n s fs] assms(1) fields Inr by (simp add: serves_def)
  qed
qed

lemma withdrawn_step:
  assumes "bs_up b"
  shows "budget_step limits decode path (with_budget w [new_task kind route n] b) (with_budget (release_in outcome n w) [] b)"
proof -
  obtain s fs where rel: "policy_release outcome n (sw_spent w) (sw_files w) = (s, fs)" by force
  have "budget_step limits decode path (with_budget w [new_task kind route n] b)
      ((with_budget w [new_task kind route n] b)\<lparr> bs_spent := s, bs_files := fs, bs_tasks := bs_tasks b @ [] \<rparr>)"
    using assms rel
    by (intro withdrawn [where before = "bs_tasks b" and t = "new_task kind route n" and outcome = outcome])
      (simp_all add: with_budget_def serves_def new_task_def)
  then show ?thesis using rel by (simp add: with_budget_def release_in_def)
qed

lemma launched_step:
  assumes "bs_up b"
  shows "budget_step limits decode path (with_budget w [new_task kind route n] b) (with_budget w [running_task kind route n] b)"
proof -
  have "budget_step limits decode path (with_budget w [new_task kind route n] b)
      ((with_budget w [new_task kind route n] b)\<lparr> bs_tasks := bs_tasks b @ running_task kind route n # [] \<rparr>)"
    using assms
    by (intro launched [where before = "bs_tasks b" and t = "new_task kind route n"]) (simp_all add: with_budget_def serves_def new_task_def)
  then show ?thesis by (simp add: with_budget_def)
qed

lemma with_budget_server [simp]: "with_budget (w\<lparr> sw_server := s \<rparr>) ts b = with_budget w ts b"
  by (simp add: with_budget_def)

lemma launch_run_step:
  assumes "bs_up b" and "launch_run A kind n w = (answer, w')"
  shows "budget_step limits decode path (with_budget w [new_task k route n] b)
    (with_budget w' (if is_ok answer then [running_task k route n] else []) b)"
  using assms(2) withdrawn_step [OF assms(1), of limits decode path w k route n "ad_release A"]
    withdrawn_step [OF assms(1), of limits decode path "w\<lparr> sw_server := s \<rparr>" k route n "ad_release A" for s]
    launched_step [OF assms(1), of limits decode path w k route n]
  by (auto simp: launch_run_def split: option.splits sum.splits prod.splits)

text \<open>
  A request of the load test or intent tools is a run of the step relation: it leaves one more
  running claim when it is admitted and none when it is not.
\<close>

lemma start_intents_run_steps:
  assumes "serves b w" and "start_intents_run limits A kind n w = (answer, w')"
  shows "(budget_step limits decode path)\<^sup>*\<^sup>* b
    (with_budget w' (if is_ok answer then [running_task (Some kind) [] n] else []) b)"
proof (cases "admit_in limits (ad_reserve A) [] n w")
  case (Pair r v)
  note admit = admit_in_steps [OF assms(1) Pair, of decode path "Some kind"]
  show ?thesis
  proof (cases r)
    case (Inl e)
    then show ?thesis using assms(2) Pair admit by (auto simp: start_intents_run_def)
  next
    case (Inr u)
    then have "launch_run A kind n v = (answer, w')" using assms(2) Pair by (simp add: start_intents_run_def)
    with launch_run_step [of b A kind n v answer w'] assms(1) have
      "budget_step limits decode path (with_budget v [new_task (Some kind) [] n] b)
        (with_budget w' (if is_ok answer then [running_task (Some kind) [] n] else []) b)"
      by (simp add: serves_def)
    with admit Inr show ?thesis by (simp add: converse_rtranclp_into_rtranclp r_into_rtranclp)
  qed
qed

lemma start_load_test_steps:
  assumes "serves b w" and "start_load_test limits A src dst n w = (answer, w')" and "n \<noteq> 0"
  shows "(budget_step limits decode path)\<^sup>*\<^sup>* b
    (with_budget w' (if is_ok answer then [running_task (Some LoadTest) [src, dst] n] else []) b)"
proof (cases "admit_in limits (ad_reserve A) [src, dst] n w")
  case (Pair r v)
  note admit = admit_in_steps [OF assms(1) Pair, of decode path "Some LoadTest"]
  show ?thesis
  proof (cases r)
    case (Inl e)
    then show ?thesis using assms(2,3) Pair admit by (auto simp: start_load_test_def)
  next
    case (Inr u)
    then have "launch_run A LoadTest n v = (answer, w')" using assms(2,3) Pair by (simp add: start_load_test_def)
    with launch_run_step [of b A LoadTest n v answer w'] assms(1) have
      "budget_step limits decode path (with_budget v [new_task (Some LoadTest) [src, dst] n] b)
        (with_budget w' (if is_ok answer then [running_task (Some LoadTest) [src, dst] n] else []) b)"
      by (simp add: serves_def)
    with admit Inr show ?thesis by (simp add: converse_rtranclp_into_rtranclp r_into_rtranclp)
  qed
qed

subsection \<open>Two servers on one ledger\<close>

text \<open>
  Each server keeps its own count and only reads the ledger when it starts.  A second server that
  was already up writes its smaller count over the first one's, and after a restart the budget
  has forgotten what the first server spent.
\<close>

theorem concurrent_servers_forget_spend:
  assumes "ledger_decoder decode" and "lm_max_txs_per_run limits = 10" and "lm_max_txs_total limits = Some 10"
  shows "\<exists>first second files_1 files_2 restarted.
    persistent decode None path Map.empty = Inr first \<and> persistent decode None path Map.empty = Inr second \<and>
    policy_reserve limits FsDone 10 first Map.empty = (Inr (), first\<lparr> sp_count := 10 \<rparr>, files_1) \<and>
    policy_reserve limits FsDone 1 second files_1 = (Inr (), second\<lparr> sp_count := 1 \<rparr>, files_2) \<and>
    persistent decode None path files_2 = Inr restarted \<and> sp_count restarted = 1"
  using assms
  by (simp add: persistent_def read_ledger_def policy_reserve_def saturating_add_def write_ledger_def fs_write_def
      ledger_decoder_def)

end
