(* ===== verification/Evm_Pipeline.thy ===== *)
theory Evm_Pipeline
  imports Evm_Write_Ahead
begin

text \<open>
  The pipelined sender (\<open>evm/pipeline.rs\<close>) and the broadcast helpers of \<open>evm.rs\<close> it uses.  Many
  deposits are in flight at once on one wallet: a broadcast takes the next nonce and reserves gas
  and tokens under a lock, and its receipt, which other broadcasts may overtake, settles the
  reservation.  Concurrent sends are a step relation over these two parts.
\<close>

section \<open>Broadcasting\<close>

definition send_error_may_mean_landed :: "report \<Rightarrow> bool" where
  "send_error_may_mean_landed e =
     list_ex (\<lambda>p. contains p (map to_lower (report_text e)))
       [''nonce too low'', ''already known'', ''already exists'', ''already imported'', ''already in mempool'']"

definition nonce_held_by_pooled_tx :: "report \<Rightarrow> bool" where
  "nonce_held_by_pooled_tx e =
     list_ex (\<lambda>p. contains p (map to_lower (report_text e)))
       [''replacement transaction underpriced'', ''existing transaction had higher priority'']"

text \<open>One endpoint; the bytes count as sent whatever it answers.\<close>

definition send_raw :: "evm_env \<Rightarrow> bytes \<Rightarrow> (deploy_world, b256 result) io" where
  "send_raw E raw =
     io_bind (io_modify (\<lambda>w. w\<lparr> dw_sent := raw # dw_sent w \<rparr>)) (\<lambda>_.
     io_try (ask E (\<lambda>k. ev_send_raw E k raw)))"

definition errors_of :: "'a result list \<Rightarrow> report list" where
  "errors_of answers = List.map_filter (\<lambda>r. case r of Inl e \<Rightarrow> Some e | Inr _ \<Rightarrow> None) answers"

definition pick_error :: "report list \<Rightarrow> report" where
  "pick_error errors =
     (case find (\<lambda>e. send_error_may_mean_landed e \<or> nonce_held_by_pooled_tx e) errors of
        Some e \<Rightarrow> e
      | None \<Rightarrow> errors ! 0)"

definition broadcast_raw :: "evm_env \<Rightarrow> string list \<Rightarrow> envelope \<Rightarrow> (deploy_world, b256) io" where
  "broadcast_raw E urls envelope =
     retry_async FALLBACK_ATTEMPTS (backoff_sleep E) (\<lambda>e. is_transient_default e \<or> is_pending_state_error e)
       (io_bind (io_map (\<lambda>_. send_raw E (en_raw envelope)) urls) (\<lambda>answers.
        if list_ex is_ok answers then io_return (en_hash envelope)
        else io_raise (pick_error (errors_of answers))))"

fun tx_known_by_hash :: "evm_env \<Rightarrow> string list \<Rightarrow> b256 \<Rightarrow> (deploy_world, bool) io" where
  "tx_known_by_hash E [] h = io_return False"
| "tx_known_by_hash E (url # urls) h =
     io_bind (io_try (ask E (\<lambda>k. ev_known_tx E k h))) (\<lambda>r.
     if r = Inr True then io_return True else tx_known_by_hash E urls h)"

section \<open>The sender\<close>

record pipeline_limits =
  li_native_reserve :: u256
  li_gas_budget :: "u256 option"

record pipeline_transaction =
  pl_request :: tx_request
  pl_token :: address
  pl_amount :: u256
  pl_deadline :: nat

datatype pipeline_error = NotSent string | Uncertain string

record nonce_state =
  ns_next :: "u64 option"
  ns_gas_reserved :: u256
  ns_gas_spent :: u256
  ns_tokens_reserved :: "address \<rightharpoonup> u256"
  ns_stopped :: "string option"

record pending_deposit =
  pd_hash :: b256
  pd_gas_reserved :: u256
  pd_token :: address
  pd_amount :: u256

text \<open>The sender's configuration, with the token balances its endpoints answer.\<close>

record pipelined_sender =
  se_env :: evm_env
  se_urls :: "string list"
  se_key :: string
  se_owner :: address
  se_limits :: pipeline_limits
  se_token_balance :: "nat \<Rightarrow> address \<Rightarrow> address \<Rightarrow> u256 result"

text \<open>The sender's shared state; \<open>px_log\<close> lists every envelope handed to the endpoints.\<close>

record pipe_world =
  px_net :: deploy_world
  px_state :: nonce_state
  px_stopped :: bool
  px_broadcasts :: u64
  px_log :: "envelope list"

definition default_nonce_state :: nonce_state where
  "default_nonce_state =
     \<lparr> ns_next = None, ns_gas_reserved = 0, ns_gas_spent = 0, ns_tokens_reserved = Map.empty, ns_stopped = None \<rparr>"

definition or_default :: "u256 option \<Rightarrow> u256" where
  "or_default x = (case x of Some v \<Rightarrow> v | None \<Rightarrow> 0)"

definition check_funding ::
  "pipeline_limits \<Rightarrow> u256 \<Rightarrow> u256 \<Rightarrow> address \<Rightarrow> u256 \<Rightarrow> u256 \<Rightarrow> nonce_state \<Rightarrow> unit result" where
  "check_funding limits native tokens token amount gas st =
     (let reserved = saturating_add (ns_gas_reserved st) gas in
      and_then (ensure (case li_gas_budget limits of
                          Some cap \<Rightarrow> \<not> saturating_add (ns_gas_spent st) reserved > cap
                        | None \<Rightarrow> True) ''waiting for pending gas reservations'') (\<lambda>_.
      and_then (ensure (\<not> native < saturating_add (li_native_reserve limits) reserved)
        ''native balance is reserved for pending deposits'') (\<lambda>_.
      ensure (\<not> tokens < saturating_add (or_default (ns_tokens_reserved st token)) amount)
        ''token balance is reserved for pending deposits'')))"

definition reserve_deposit :: "pending_deposit \<Rightarrow> nonce_state \<Rightarrow> nonce_state" where
  "reserve_deposit p st =
     st\<lparr> ns_gas_reserved := saturating_add (ns_gas_reserved st) (pd_gas_reserved p),
         ns_tokens_reserved := (ns_tokens_reserved st)
           (pd_token p \<mapsto> saturating_add (or_default (ns_tokens_reserved st (pd_token p))) (pd_amount p)) \<rparr>"

definition release_deposit :: "pending_deposit \<Rightarrow> u256 \<Rightarrow> nonce_state \<Rightarrow> nonce_state" where
  "release_deposit p gas_paid st =
     st\<lparr> ns_gas_reserved := saturating_sub (ns_gas_reserved st) (pd_gas_reserved p),
         ns_gas_spent := saturating_add (ns_gas_spent st) gas_paid,
         ns_tokens_reserved := (ns_tokens_reserved st)
           (pd_token p \<mapsto> saturating_sub (or_default (ns_tokens_reserved st (pd_token p))) (pd_amount p)) \<rparr>"

definition on_chain :: "(deploy_world, 'a) io \<Rightarrow> (pipe_world, 'a) io" where
  "on_chain m w = (case m (px_net w) of (r, n) \<Rightarrow> (r, w\<lparr> px_net := n \<rparr>))"

definition with_state :: "(nonce_state \<Rightarrow> nonce_state) \<Rightarrow> (pipe_world, unit) io" where
  "with_state f = io_modify (\<lambda>w. w\<lparr> px_state := f (px_state w) \<rparr>)"

definition starting_nonce :: "pipelined_sender \<Rightarrow> (deploy_world, u64) io" where
  "starting_nonce S =
     (let E = se_env S in
      retry_with_fallback_all (backoff_sleep E)
        (\<lambda>_. io_bind (io_try (ask E (\<lambda>k. ev_count E k (se_owner S)))) (\<lambda>r.
           case r of
             Inl e \<Rightarrow>
               if is_pending_state_error e then ask E (\<lambda>k. ev_count E k (se_owner S)) else io_raise e
           | Inr n \<Rightarrow> io_return n)) (se_urls S))"

definition pipeline_balances :: "pipelined_sender \<Rightarrow> address \<Rightarrow> (deploy_world, u256 \<times> u256) io" where
  "pipeline_balances S token =
     (let E = se_env S in
      retry_with_fallback_all (backoff_sleep E)
        (\<lambda>_. io_bind (ask E (\<lambda>k. ev_balance E k (se_owner S))) (\<lambda>native.
             io_bind (ask E (\<lambda>k. se_token_balance S k token (se_owner S))) (\<lambda>tokens.
             io_return (native, tokens)))) (se_urls S))"

definition next_nonce :: "pipelined_sender \<Rightarrow> (pipe_world, u64) io" where
  "next_nonce S =
     io_bind (io_gets (\<lambda>w. ns_next (px_state w))) (\<lambda>stored.
     case stored of
       Some n \<Rightarrow> io_return n
     | None \<Rightarrow>
         io_bind (on_chain (starting_nonce S)) (\<lambda>n.
         io_bind (with_state (\<lambda>st. st\<lparr> ns_next := Some n \<rparr>)) (\<lambda>_.
         io_return n)))"

text \<open>The budget, the balances and the deadline of a signed deposit.\<close>

definition fund_deposit :: "pipelined_sender \<Rightarrow> pipeline_transaction \<Rightarrow> envelope \<Rightarrow> (pipe_world, unit) io" where
  "fund_deposit S tx envelope =
     (let gas = gas_cost_of envelope in
      io_bind (io_gets (\<lambda>w. ns_gas_spent (px_state w))) (\<lambda>spent.
      if (case li_gas_budget (se_limits S) of Some cap \<Rightarrow> saturating_add spent gas > cap | None \<Rightarrow> False)
      then
        io_bind (with_state (\<lambda>st. st\<lparr> ns_stopped := Some ''source gas budget reached'' \<rparr>)) (\<lambda>_.
        io_raise (Report ''source gas budget reached''))
      else
        io_bind (on_chain (pipeline_balances S (pl_token tx))) (\<lambda>(native, tokens).
        io_bind (io_gets px_state) (\<lambda>st.
        io_bind (io_lift (check_funding (se_limits S) native tokens (pl_token tx) (pl_amount tx) gas st)) (\<lambda>_.
        io_bind (io_gets (\<lambda>w. dw_now (px_net w))) (\<lambda>now.
        io_ensure (now < pl_deadline tx) ''quote expired before broadcast''))))))"

definition pipeline_prepare :: "pipelined_sender \<Rightarrow> pipeline_transaction \<Rightarrow> (pipe_world, envelope) io" where
  "pipeline_prepare S tx =
     io_bind (next_nonce S) (\<lambda>nonce.
     io_bind (on_chain (fill_and_sign (se_env S) (se_urls S) (se_key S)
       ((pl_request tx)\<lparr> rq_nonce := Some nonce \<rparr>))) (\<lambda>envelope.
     io_bind (fund_deposit S tx envelope) (\<lambda>_.
     io_return envelope)))"

definition deposit_of :: "pipeline_transaction \<Rightarrow> envelope \<Rightarrow> pending_deposit" where
  "deposit_of tx envelope =
     \<lparr> pd_hash = en_hash envelope, pd_gas_reserved = gas_cost_of envelope, pd_token = pl_token tx,
       pd_amount = pl_amount tx \<rparr>"

text \<open>The world once a prepared deposit is reserved and logged.\<close>

definition reserved_world :: "pipeline_transaction \<Rightarrow> envelope \<Rightarrow> pipe_world \<Rightarrow> pipe_world" where
  "reserved_world tx envelope w =
     w\<lparr> px_state := reserve_deposit (deposit_of tx envelope) (px_state w), px_log := px_log w @ [envelope] \<rparr>"

text \<open>The bytes go out: whether an endpoint took them, or the transaction is known anyway.\<close>

definition hand_over :: "pipelined_sender \<Rightarrow> envelope \<Rightarrow> (deploy_world, bool) io" where
  "hand_over S envelope =
     io_bind (io_try (broadcast_raw (se_env S) (se_urls S) envelope)) (\<lambda>r.
     case r of
       Inr _ \<Rightarrow> io_return True
     | Inl _ \<Rightarrow> tx_known_by_hash (se_env S) (se_urls S) (en_hash envelope))"

definition pipeline_broadcast ::
  "pipelined_sender \<Rightarrow> pipeline_transaction \<Rightarrow> pipe_world \<Rightarrow> (pipeline_error + pending_deposit) \<times> pipe_world" where
  "pipeline_broadcast S tx w =
     (case ns_stopped (px_state w) of
        Some reason \<Rightarrow> (Inl (NotSent reason), w)
      | None \<Rightarrow>
          (case pipeline_prepare S tx w of
             (Inl e, w) \<Rightarrow> (Inl (NotSent (report_text e)), w\<lparr> px_stopped := ns_stopped (px_state w) \<noteq> None \<rparr>)
           | (Inr envelope, w) \<Rightarrow>
               let p = deposit_of tx envelope; w = reserved_world tx envelope w in
               (case hand_over S envelope (px_net w) of
                  (landed, net) \<Rightarrow>
                    let w = w\<lparr> px_net := net \<rparr>;
                        st = px_state w in
                    if landed \<noteq> Inr True
                    then
                      (Inl (Uncertain ''broadcast uncertain''),
                       w\<lparr> px_state := st\<lparr> ns_stopped := Some ''broadcast uncertain'' \<rparr>, px_stopped := True \<rparr>)
                    else
                      (case checked_add (en_nonce envelope) 1 of
                         Some n \<Rightarrow> (Inr p, w\<lparr> px_state := st\<lparr> ns_next := Some n \<rparr>, px_broadcasts := px_broadcasts w + 1 \<rparr>)
                       | None \<Rightarrow>
                           (Inr p,
                            w\<lparr> px_state := st\<lparr> ns_next := None, ns_stopped := Some ''nonce space exhausted'' \<rparr>,
                               px_stopped := True, px_broadcasts := px_broadcasts w + 1 \<rparr>)))))"

text \<open>What \<open>send\<close> does once its receipt is there, with the gas it paid, or its time is up.\<close>

definition settle_deposit :: "pending_deposit \<Rightarrow> u256 option \<Rightarrow> pipe_world \<Rightarrow> (pipeline_error + unit) \<times> pipe_world" where
  "settle_deposit p paid w =
     (case paid of
        Some gas \<Rightarrow> (Inr (), w\<lparr> px_state := release_deposit p gas (px_state w) \<rparr>)
      | None \<Rightarrow>
          (Inl (Uncertain ''deposit is unconfirmed''),
           w\<lparr> px_state := (px_state w)\<lparr> ns_stopped := Some ''deposit is unconfirmed'' \<rparr>, px_stopped := True \<rparr>))"

section \<open>What a broadcast does\<close>

text \<open>What is relied on of the filler: it keeps a nonce that the request fixes.\<close>

definition fills_nonce :: "evm_env \<Rightarrow> bool" where
  "fills_nonce E =
     (\<forall>k key rq envelope n. ev_fill E k key rq = Inr envelope \<and> rq_nonce rq = Some n \<longrightarrow> en_nonce envelope = n)"

lemma fill_once_nonce:
  assumes "fills_nonce E" and "rq_nonce rq = Some n"
  shows "outputs (fill_and_sign_once E urls key rq) (\<lambda>e. en_nonce e = n)"
  unfolding fill_and_sign_once_def using assms
  by (intro outputs_retry_with_fallback) (auto simp: outputs_def ask_def fills_nonce_def)

lemma prefill_nonce:
  "rq_nonce rq = Some n \<Longrightarrow> outputs (prefill_from_latest E urls rq) (\<lambda>rq'. rq_nonce rq' = Some n)"
  unfolding prefill_from_latest_def
  by (rule outputs_bind [OF outputs_any], rule outputs_bind [where P = "\<lambda>rq'. rq_nonce rq' = Some n"])
    (auto simp: outputs_basic split: option.split intro!: outputs_bind [OF outputs_any])

lemma fill_and_sign_nonce:
  assumes "fills_nonce E" and "rq_nonce rq = Some n"
  shows "outputs (fill_and_sign E urls key rq) (\<lambda>e. en_nonce e = n)"
proof -
  have "outputs (prepare_fill E urls rq) (\<lambda>rq'. rq_nonce rq' = Some n)"
    using prefill_nonce [OF assms(2)] assms(2) by (simp add: prepare_fill_def outputs_basic)
  then show ?thesis
    unfolding fill_and_sign_def
  proof (rule outputs_bind)
    fix rq' :: tx_request
    assume rq': "rq_nonce rq' = Some n"
    note once = fill_once_nonce [OF assms(1)]
    have tried: "outputs (io_try (fill_and_sign_once E urls key rq')) (\<lambda>r. \<forall>e. r = Inr e \<longrightarrow> en_nonce e = n)"
      by (rule outputs_try [OF once [OF rq']])
    have pinned: "outputs (io_bind (prefill_from_latest E urls rq') (\<lambda>pinned. fill_and_sign_once E urls key pinned))
        (\<lambda>e. en_nonce e = n)"
      by (rule outputs_bind [OF prefill_nonce [OF rq']]) (rule once)
    have legacy: "outputs (io_bind (ask E (ev_gas_price E)) (\<lambda>gas_price.
        fill_and_sign_once E urls key (rq'\<lparr> rq_gas_price := Some gas_price \<rparr>))) (\<lambda>e. en_nonce e = n)"
      by (rule outputs_bind [OF outputs_any]) (simp add: once rq')
    show "outputs (io_bind (io_try (fill_and_sign_once E urls key rq')) (\<lambda>r.
        case r of Inr envelope \<Rightarrow> io_return envelope
        | Inl e \<Rightarrow>
            if is_pending_state_error e then
              io_bind (prefill_from_latest E urls rq') (\<lambda>pinned. fill_and_sign_once E urls key pinned)
            else if is_missing_base_fee_error e then
              io_bind (ask E (ev_gas_price E)) (\<lambda>gas_price.
              fill_and_sign_once E urls key (rq'\<lparr> rq_gas_price := Some gas_price \<rparr>))
            else io_raise e)) (\<lambda>e. en_nonce e = n)"
      by (rule outputs_bind [OF tried])
        (simp add: outputs_basic pinned legacy split: sum.split)
  qed
qed

text \<open>The parts of a world that a preparation may not touch.\<close>

definition same_ledger :: "pipe_world \<Rightarrow> pipe_world \<Rightarrow> bool" where
  "same_ledger w w' =
     (px_log w' = px_log w \<and> ns_gas_reserved (px_state w') = ns_gas_reserved (px_state w) \<and>
      ns_gas_spent (px_state w') = ns_gas_spent (px_state w))"

lemma on_chain_run: "on_chain m w = (r, w') \<longleftrightarrow> (\<exists>net. m (px_net w) = (r, net) \<and> w' = w\<lparr> px_net := net \<rparr>)"
  by (auto simp: on_chain_def split: prod.splits)

lemma next_nonce_run:
  assumes "next_nonce S w = (r, w')"
  shows "same_ledger w w' \<and> ns_stopped (px_state w') = ns_stopped (px_state w) \<and>
    (ns_next (px_state w) \<noteq> None \<longrightarrow> ns_next (px_state w') = ns_next (px_state w)) \<and>
    (\<forall>n. r = Inr n \<longrightarrow> ns_next (px_state w') = Some n)"
  using assms
  by (auto simp: next_nonce_def io_bind_def with_state_def same_ledger_def on_chain_def
      split: option.splits prod.splits sum.splits)

lemma fund_deposit_run:
  assumes "fund_deposit S tx envelope w = (r, w')"
  shows "same_ledger w w' \<and> ns_next (px_state w') = ns_next (px_state w)"
  using assms
  by (auto simp: fund_deposit_def Let_def io_bind_def with_state_def same_ledger_def on_chain_def
      split: option.splits prod.splits sum.splits if_splits)

lemma fund_deposit_Inr:
  assumes "fund_deposit S tx envelope w = (Inr u, w')"
  shows "\<exists>native tokens. check_funding (se_limits S) native tokens (pl_token tx) (pl_amount tx)
      (gas_cost_of envelope) (px_state w) = Inr () \<and> px_state w' = px_state w"
  using assms
  by (auto simp: fund_deposit_def Let_def io_bind_def with_state_def on_chain_def
      split: option.splits prod.splits sum.splits if_splits) blast+

lemma prepare_run:
  assumes "pipeline_prepare S tx w = (r, w')"
  shows "same_ledger w w' \<and>
    (ns_next (px_state w) \<noteq> None \<longrightarrow> ns_next (px_state w') = ns_next (px_state w))"
proof -
  obtain r1 w1 where nonce: "next_nonce S w = (r1, w1)" by force
  note first = next_nonce_run [OF nonce]
  show ?thesis
  proof (cases r1)
    case (Inl e)
    then show ?thesis using assms nonce first by (simp add: pipeline_prepare_def io_bind_def)
  next
    case (Inr n)
    obtain r2 net where fill: "fill_and_sign (se_env S) (se_urls S) (se_key S) ((pl_request tx)\<lparr> rq_nonce := Some n \<rparr>)
        (px_net w1) = (r2, net)" by force
    show ?thesis
    proof (cases r2)
      case (Inl e)
      then have "w' = w1\<lparr> px_net := net \<rparr>"
        using assms nonce Inr fill by (simp add: pipeline_prepare_def io_bind_def on_chain_def)
      then show ?thesis using first by (simp add: same_ledger_def)
    next
      case (Inr envelope)
      obtain r3 w3 where fund: "fund_deposit S tx envelope (w1\<lparr> px_net := net \<rparr>) = (r3, w3)" by force
      have "w' = w3"
        using assms nonce \<open>r1 = Inr n\<close> fill Inr fund
        by (auto simp: pipeline_prepare_def io_bind_def on_chain_def split: sum.splits)
      then show ?thesis using first fund_deposit_run [OF fund] by (simp add: same_ledger_def)
    qed
  qed
qed

lemma prepare_Inr:
  assumes "pipeline_prepare S tx w = (Inr envelope, w')" and "fills_nonce (se_env S)"
  shows "ns_next (px_state w') = Some (en_nonce envelope) \<and> ns_stopped (px_state w') = ns_stopped (px_state w) \<and>
    (\<exists>native tokens. check_funding (se_limits S) native tokens (pl_token tx) (pl_amount tx)
      (gas_cost_of envelope) (px_state w') = Inr ())"
proof -
  obtain n w1 net where nonce: "next_nonce S w = (Inr n, w1)"
      and fill: "fill_and_sign (se_env S) (se_urls S) (se_key S) ((pl_request tx)\<lparr> rq_nonce := Some n \<rparr>) (px_net w1)
        = (Inr envelope, net)"
      and fund: "fund_deposit S tx envelope (w1\<lparr> px_net := net \<rparr>) = (Inr (), w')"
    using assms(1) unfolding pipeline_prepare_def io_bind_eq_Inr on_chain_run by auto
  have "en_nonce envelope = n"
    using outputsD [OF fill_and_sign_nonce [OF assms(2)] fill] by simp
  then show ?thesis using next_nonce_run [OF nonce] fund_deposit_Inr [OF fund] by auto
qed

lemma funding_exact:
  assumes "check_funding limits native tokens token amount gas st = Inr u"
    and "li_gas_budget limits = Some cap" and "cap < - 1"
  shows "unat (ns_gas_spent st) + unat (ns_gas_reserved st) + unat gas \<le> unat cap"
proof -
  have "unat cap < 2 ^ 256 - 1"
    using assms(3) by (simp add: word_less_nat_alt unsigned_minus_1_eq_mask mask_eq_exp_minus_1)
  moreover have "unat (saturating_add (ns_gas_spent st) (saturating_add (ns_gas_reserved st) gas)) \<le> unat cap"
    using assms(1,2) by (simp add: check_funding_def Let_def result_simps not_less word_le_nat_alt)
  ultimately show ?thesis by (simp add: unat_saturating_add min_def split: if_splits)
qed

section \<open>Concurrent sends\<close>

text \<open>
  The sender with the deposits that wait for a receipt and those whose fate is uncertain.  A
  receipt never costs more than was reserved: gas used is at most the gas limit, the effective
  price at most the maximum fee.
\<close>

record pipe_machine =
  pm_world :: pipe_world
  pm_waiting :: "pending_deposit list"
  pm_lost :: "pending_deposit list"

inductive pipe_step :: "pipelined_sender \<Rightarrow> pipe_machine \<Rightarrow> pipe_machine \<Rightarrow> bool" for S where
  deposit_sent:
    "pipeline_broadcast S tx (pm_world m) = (Inr p, w) \<Longrightarrow>
     pipe_step S m (m\<lparr> pm_world := w, pm_waiting := pm_waiting m @ [p] \<rparr>)"
| deposit_uncertain:
    "pipeline_broadcast S tx (pm_world m) = (Inl (Uncertain reason), w) \<Longrightarrow>
     pipe_step S m (m\<lparr> pm_world := w, pm_lost := pm_lost m @ [deposit_of tx (last (px_log w))] \<rparr>)"
| deposit_not_sent:
    "pipeline_broadcast S tx (pm_world m) = (Inl (NotSent reason), w) \<Longrightarrow>
     pipe_step S m (m\<lparr> pm_world := w \<rparr>)"
| deposit_confirmed:
    "pm_waiting m = before @ p # after \<Longrightarrow> gas \<le> pd_gas_reserved p \<Longrightarrow>
     settle_deposit p (Some gas) (pm_world m) = (r, w) \<Longrightarrow>
     pipe_step S m (m\<lparr> pm_world := w, pm_waiting := before @ after \<rparr>)"
| deposit_timed_out:
    "pm_waiting m = before @ p # after \<Longrightarrow> settle_deposit p None (pm_world m) = (r, w) \<Longrightarrow>
     pipe_step S m (m\<lparr> pm_world := w, pm_waiting := before @ after, pm_lost := pm_lost m @ [p] \<rparr>)"

definition pipe_start :: "deploy_world \<Rightarrow> pipe_machine" where
  "pipe_start net =
     \<lparr> pm_world = \<lparr> px_net = net, px_state = default_nonce_state, px_stopped = False, px_broadcasts = 0, px_log = [] \<rparr>,
       pm_waiting = [], pm_lost = [] \<rparr>"

definition gas_held :: "pending_deposit list \<Rightarrow> nat" where
  "gas_held ps = (\<Sum>p\<leftarrow>ps. unat (pd_gas_reserved p))"

text \<open>Nonces without a gap or a repetition, the next of which is free unless the sender stopped.\<close>

definition nonces_in_order :: "envelope list \<Rightarrow> bool" where
  "nonces_in_order log = (\<forall>i < length log. unat (en_nonce (log ! i)) = unat (en_nonce (log ! 0)) + i)"

definition nonce_ready :: "envelope list \<Rightarrow> nonce_state \<Rightarrow> bool" where
  "nonce_ready log st =
     (log = [] \<or> ns_stopped st \<noteq> None \<or>
      (\<exists>n. ns_next st = Some n \<and> unat n = unat (en_nonce (last log)) + 1))"

definition pipe_inv :: "u256 \<Rightarrow> pipe_machine \<Rightarrow> bool" where
  "pipe_inv cap m =
     (let w = pm_world m; st = px_state w in
      gas_held (pm_waiting m @ pm_lost m) = unat (ns_gas_reserved st) \<and>
      unat (ns_gas_spent st) + unat (ns_gas_reserved st) \<le> unat cap \<and>
      nonces_in_order (px_log w) \<and> nonce_ready (px_log w) st \<and>
      (pm_lost m \<noteq> [] \<longrightarrow> ns_stopped st \<noteq> None))"

lemma gas_held_simps [simp]:
  "gas_held [] = 0" "gas_held (p # ps) = unat (pd_gas_reserved p) + gas_held ps"
  "gas_held (ps @ qs) = gas_held ps + gas_held qs"
  by (simp_all add: gas_held_def)

lemma nonces_snoc:
  assumes "nonces_in_order log" and "log \<noteq> [] \<longrightarrow> unat (en_nonce e) = unat (en_nonce (last log)) + 1"
  shows "nonces_in_order (log @ [e])"
proof (cases "log = []")
  case False
  have nth: "unat (en_nonce (log ! i)) = unat (en_nonce (log ! 0)) + i" if "i < length log" for i
    using assms(1) that unfolding nonces_in_order_def by blast
  have pos: "0 < length log" and first: "(log @ [e]) ! 0 = log ! 0" using False by (simp_all add: nth_append)
  have e: "unat (en_nonce e) = unat (en_nonce (log ! 0)) + length log"
    using assms(2) False nth [of "length log - 1"] pos by (simp add: last_conv_nth)
  show ?thesis unfolding nonces_in_order_def
  proof (intro allI impI)
    fix i assume "i < length (log @ [e])"
    then consider "i < length log" | "i = length log" by fastforce
    then show "unat (en_nonce ((log @ [e]) ! i)) = unat (en_nonce ((log @ [e]) ! 0)) + i"
    proof cases
      case 1
      then show ?thesis unfolding first using nth [OF 1] by (simp only: nth_append if_True)
    next
      case 2
      show ?thesis unfolding first 2 nth_append_length by (rule e)
    qed
  qed
qed (simp add: nonces_in_order_def)

text \<open>Preparing a deposit keeps the invariant, and so does handing it over.\<close>

lemma prepared_inv:
  assumes "pipe_inv cap m" and "pipeline_prepare S tx (pm_world m) = (r, w)" and "ns_stopped (px_state (pm_world m)) = None"
  shows "pipe_inv cap (m\<lparr> pm_world := w\<lparr> px_stopped := b \<rparr> \<rparr>)"
proof -
  note run = prepare_run [OF assms(2)]
  have "nonce_ready (px_log w) (px_state w)"
    using assms(1,3) run by (auto simp: pipe_inv_def Let_def nonce_ready_def same_ledger_def)
  moreover have "pm_lost m = []" using assms(1,3) by (auto simp: pipe_inv_def Let_def)
  ultimately show ?thesis using assms(1) run by (simp add: pipe_inv_def Let_def same_ledger_def)
qed

lemma reserved_facts:
  assumes "pipe_inv cap m" and "ns_stopped (px_state (pm_world m)) = None"
    and "pipeline_prepare S tx (pm_world m) = (Inr envelope, w)"
    and "fills_nonce (se_env S)" and "li_gas_budget (se_limits S) = Some cap" and "cap < - 1"
  shows "gas_held (pm_waiting m) + unat (gas_cost_of envelope) = unat (ns_gas_reserved (px_state (reserved_world tx envelope w)))"
    and "unat (ns_gas_spent (px_state (reserved_world tx envelope w))) +
      unat (ns_gas_reserved (px_state (reserved_world tx envelope w))) \<le> unat cap"
    and "nonces_in_order (px_log (reserved_world tx envelope w))" and "pm_lost m = []"
proof -
  note run = prepare_run [OF assms(3)]
  note prep = prepare_Inr [OF assms(3,4)]
  obtain native tokens where "check_funding (se_limits S) native tokens (pl_token tx) (pl_amount tx)
      (gas_cost_of envelope) (px_state w) = Inr ()" using prep by blast
  note funded = funding_exact [OF this assms(5,6)]
  have exact: "unat (saturating_add (ns_gas_reserved (px_state w)) (gas_cost_of envelope)) =
      unat (ns_gas_reserved (px_state w)) + unat (gas_cost_of envelope)"
    using funded unsigned_less [of cap, where 'a = nat] by (simp add: unat_saturating_add)
  show lost: "pm_lost m = []" using assms(1,2) by (auto simp: pipe_inv_def Let_def)
  show "gas_held (pm_waiting m) + unat (gas_cost_of envelope) = unat (ns_gas_reserved (px_state (reserved_world tx envelope w)))"
    using exact run assms(1) lost
    by (simp add: reserved_world_def reserve_deposit_def deposit_of_def pipe_inv_def Let_def same_ledger_def)
  show "unat (ns_gas_spent (px_state (reserved_world tx envelope w))) +
      unat (ns_gas_reserved (px_state (reserved_world tx envelope w))) \<le> unat cap"
    using exact funded by (simp add: reserved_world_def reserve_deposit_def deposit_of_def)
  have "px_log w \<noteq> [] \<longrightarrow> unat (en_nonce envelope) = unat (en_nonce (last (px_log w))) + 1"
    using assms(1,2) run prep by (auto simp: pipe_inv_def Let_def nonce_ready_def same_ledger_def)
  moreover have "nonces_in_order (px_log w)" using assms(1) run by (simp add: pipe_inv_def Let_def same_ledger_def)
  ultimately show "nonces_in_order (px_log (reserved_world tx envelope w))"
    by (simp add: reserved_world_def nonces_snoc)
qed

lemma broadcast_inv:
  assumes "pipe_inv cap m" and "pipeline_broadcast S tx (pm_world m) = (answer, w)"
    and "fills_nonce (se_env S)" and "li_gas_budget (se_limits S) = Some cap" and "cap < - 1"
  shows "(\<forall>p. answer = Inr p \<longrightarrow> pipe_inv cap (m\<lparr> pm_world := w, pm_waiting := pm_waiting m @ [p] \<rparr>)) \<and>
    (\<forall>reason. answer = Inl (Uncertain reason) \<longrightarrow>
      pipe_inv cap (m\<lparr> pm_world := w, pm_lost := pm_lost m @ [deposit_of tx (last (px_log w))] \<rparr>)) \<and>
    (\<forall>reason. answer = Inl (NotSent reason) \<longrightarrow> pipe_inv cap (m\<lparr> pm_world := w \<rparr>))"
proof (cases "ns_stopped (px_state (pm_world m))")
  case (Some reason)
  then show ?thesis using assms(1,2) by (auto simp: pipeline_broadcast_def)
next
  case None
  obtain r v where prep: "pipeline_prepare S tx (pm_world m) = (r, v)" by force
  show ?thesis
  proof (cases r)
    case (Inl e)
    then show ?thesis
      using assms(2) None prep prepared_inv [OF assms(1) prep None] by (auto simp: pipeline_broadcast_def)
  next
    case (Inr envelope)
    note facts = reserved_facts [OF assms(1) None prep [unfolded Inr] assms(3-5)]
    let ?v = "reserved_world tx envelope v"
    have log: "last (px_log ?v) = envelope" "px_log ?v \<noteq> []" by (simp_all add: reserved_world_def)
    obtain landed net where hand: "hand_over S envelope (px_net ?v) = (landed, net)" by force
    show ?thesis
    proof (cases "landed = Inr True")
      case False
      then have "answer = Inl (Uncertain ''broadcast uncertain'')"
        and "w = ?v\<lparr> px_net := net, px_state := (px_state ?v)\<lparr> ns_stopped := Some ''broadcast uncertain'' \<rparr>, px_stopped := True \<rparr>"
        using assms(2) None prep Inr hand by (auto simp: pipeline_broadcast_def Let_def)
      then show ?thesis using facts log by (simp add: pipe_inv_def Let_def nonce_ready_def deposit_of_def)
    next
      case True
      show ?thesis
      proof (cases "checked_add (en_nonce envelope) 1")
        case exhausted: None
        then have "answer = Inr (deposit_of tx envelope)"
          and "w = ?v\<lparr> px_net := net, px_state := (px_state ?v)\<lparr> ns_next := None, ns_stopped := Some ''nonce space exhausted'' \<rparr>,
            px_stopped := True, px_broadcasts := px_broadcasts ?v + 1 \<rparr>"
          using assms(2) None prep Inr hand True by (auto simp: pipeline_broadcast_def Let_def)
        then show ?thesis using facts by (simp add: pipe_inv_def Let_def nonce_ready_def deposit_of_def)
      next
        case (Some n)
        then have "answer = Inr (deposit_of tx envelope)"
          and "w = ?v\<lparr> px_net := net, px_state := (px_state ?v)\<lparr> ns_next := Some n \<rparr>, px_broadcasts := px_broadcasts ?v + 1 \<rparr>"
          using assms(2) None prep Inr hand True by (auto simp: pipeline_broadcast_def Let_def)
        moreover have "unat n = unat (en_nonce envelope) + 1" using Some by (simp add: checked_simps)
        ultimately show ?thesis using facts log by (simp add: pipe_inv_def Let_def nonce_ready_def deposit_of_def)
      qed
    qed
  qed
qed

lemma confirmed_inv:
  assumes "pipe_inv cap m" and "pm_waiting m = before @ p # after" and "gas \<le> pd_gas_reserved p"
  shows "pipe_inv cap (m\<lparr> pm_world := (pm_world m)\<lparr> px_state := release_deposit p gas (px_state (pm_world m)) \<rparr>,
    pm_waiting := before @ after \<rparr>)"
proof -
  have le: "unat gas \<le> unat (pd_gas_reserved p)" using assms(3) by (simp add: word_le_nat_alt)
  then show ?thesis using assms(1,2) unsigned_less [of cap, where 'a = nat]
    by (simp add: pipe_inv_def Let_def release_deposit_def unat_saturating_sub unat_saturating_add nonce_ready_def)
      (intro conjI; linarith)
qed

lemma pipe_inv_step:
  assumes "pipe_step S m m'" and "pipe_inv cap m"
    and "fills_nonce (se_env S)" and "li_gas_budget (se_limits S) = Some cap" and "cap < - 1"
  shows "pipe_inv cap m'"
  using assms
proof (induction rule: pipe_step.induct)
  case (deposit_sent tx m p w)
  then show ?case using broadcast_inv [of cap m S tx "Inr p" w] by blast
next
  case (deposit_uncertain tx m reason w)
  then show ?case using broadcast_inv [of cap m S tx "Inl (Uncertain reason)" w] by blast
next
  case (deposit_not_sent tx m reason w)
  then show ?case using broadcast_inv [of cap m S tx "Inl (NotSent reason)" w] by blast
next
  case (deposit_confirmed m before p after gas r w)
  then show ?case using confirmed_inv [of cap m before p after gas] by (simp add: settle_deposit_def)
next
  case (deposit_timed_out m before p after r w)
  then have "w = (pm_world m)\<lparr> px_state := (px_state (pm_world m))\<lparr> ns_stopped := Some ''deposit is unconfirmed'' \<rparr>, px_stopped := True \<rparr>"
    by (simp add: settle_deposit_def)
  then show ?case using deposit_timed_out by (simp add: pipe_inv_def Let_def nonce_ready_def)
qed

lemma pipe_inv_reaches:
  assumes "(pipe_step S)\<^sup>*\<^sup>* (pipe_start net) m"
    and "fills_nonce (se_env S)" and "li_gas_budget (se_limits S) = Some cap" and "cap < - 1"
  shows "pipe_inv cap m"
  using assms(1)
proof (induction rule: rtranclp_induct)
  case base
  show ?case by (simp add: pipe_inv_def pipe_start_def default_nonce_state_def nonces_in_order_def nonce_ready_def)
next
  case (step m m')
  then show ?case using pipe_inv_step [OF _ _ assms(2-4)] by blast
qed


definition sample_sender :: pipelined_sender where
  "sample_sender =
     \<lparr> se_env = sample_env\<lparr> ev_fill := (\<lambda>k s rq. Inr (sample_envelope\<lparr>
         en_nonce := (case rq_nonce rq of Some n \<Rightarrow> n | None \<Rightarrow> 0) \<rparr>)) \<rparr>,
       se_urls = [''http://rpc''], se_key = ''key'', se_owner = 5,
       se_limits = \<lparr> li_native_reserve = 10, li_gas_budget = Some 1000 \<rparr>,
       se_token_balance = (\<lambda>k t a. Inr 100) \<rparr>"

definition sample_deposit :: pipeline_transaction where
  "sample_deposit = \<lparr> pl_request = sample_request, pl_token = 9, pl_amount = 50, pl_deadline = 1000 \<rparr>"

definition sample_broadcast :: "(pipeline_error + pending_deposit) \<times> pipe_world" where
  "sample_broadcast = pipeline_broadcast sample_sender sample_deposit (pm_world (pipe_start sample_world))"

lemma sample_broadcast_run:
  "fst sample_broadcast = Inr (deposit_of sample_deposit sample_envelope) \<and>
   px_log (snd sample_broadcast) = [sample_envelope]"
  unfolding sample_broadcast_def
  by (simp add: evm_eval sample_eval pipeline_broadcast_def pipeline_prepare_def next_nonce_def fund_deposit_def
      on_chain_def with_state_def starting_nonce_def pipeline_balances_def retry_with_fallback_all_def
      check_funding_def hand_over_def broadcast_raw_def send_raw_def retry_async_def reserved_world_def
      reserve_deposit_def deposit_of_def or_default_def default_nonce_state_def pipe_start_def sample_sender_def
      sample_deposit_def sample_request_def AVALANCHE_FUJI_CHAIN_ID_def FALLBACK_ATTEMPTS_def saturating_add_def
      checked_add_def)


end
