(* ===== verification/Evm_Robust.thy ===== *)
theory Evm_Robust
  imports Evm_Pipeline
begin

text \<open>
  The robust sender of \<open>evm.rs\<close>: fill and sign, broadcast the same bytes everywhere, wait for a
  receipt of any hash sent so far, and replace an unmined transaction at its nonce with doubled
  fees.  The loop is bounded by its attempts and the wait by its deadline, so both are total.
  \<open>ro_log\<close> and \<open>ro_given_up\<close> record, for the statements below, the envelopes broadcast, one group
  per nonce, and the moments at which a nonce was given up.
\<close>

definition SEND_ROUNDS :: nat where "SEND_ROUNDS = 3"
definition NONCE_CONTENTION_ATTEMPTS :: nat where "NONCE_CONTENTION_ATTEMPTS = 5"
definition MAX_SEND_ATTEMPTS :: nat where "MAX_SEND_ATTEMPTS = 16"

fun after_first :: "string \<Rightarrow> string \<Rightarrow> string option" where
  "after_first p [] = (if p = [] then Some [] else None)"
| "after_first p (c # cs) = (if starts_with p (c # cs) then Some (drop (length p) (c # cs)) else after_first p cs)"

definition parse_expected_nonce :: "string \<Rightarrow> u64 option" where
  "parse_expected_nonce err =
     Option.bind (after_first ''next nonce '' err) (\<lambda>rest.
     parse_word (takeWhile (\<lambda>c. digit_value c \<noteq> None) rest))"

definition rotated :: "nat \<Rightarrow> string list \<Rightarrow> string list" where
  "rotated n urls = rotate (if length urls = 0 then 0 else n mod length urls) urls"

record replacement_fees =
  rf_gas_price :: "u128 option"
  rf_max_fee_per_gas :: "u128 option"
  rf_max_priority_fee_per_gas :: "u128 option"

definition doubled_from :: "envelope \<Rightarrow> replacement_fees" where
  "doubled_from e =
     (case en_gas_price e of
        Some price \<Rightarrow>
          \<lparr> rf_gas_price = Some (saturating_mul price 2), rf_max_fee_per_gas = None,
            rf_max_priority_fee_per_gas = None \<rparr>
      | None \<Rightarrow>
          \<lparr> rf_gas_price = None, rf_max_fee_per_gas = Some (saturating_mul (en_max_fee_per_gas e) 2),
            rf_max_priority_fee_per_gas = map_option (\<lambda>tip. saturating_mul tip 2) (en_max_priority_fee_per_gas e) \<rparr>)"

definition or_keep :: "'a option \<Rightarrow> 'a option \<Rightarrow> 'a option" where
  "or_keep new old = (case new of Some x \<Rightarrow> Some x | None \<Rightarrow> old)"

definition apply_fees :: "replacement_fees \<Rightarrow> tx_request \<Rightarrow> tx_request" where
  "apply_fees f rq =
     rq\<lparr> rq_gas_price := or_keep (rf_gas_price f) (rq_gas_price rq),
         rq_max_fee_per_gas := or_keep (rf_max_fee_per_gas f) (rq_max_fee_per_gas rq),
         rq_max_priority_fee_per_gas := or_keep (rf_max_priority_fee_per_gas f) (rq_max_priority_fee_per_gas rq) \<rparr>"

definition round_request ::
  "tx_request \<Rightarrow> u64 option \<Rightarrow> u64 option \<Rightarrow> replacement_fees option \<Rightarrow> tx_request" where
  "round_request tx nonce_override gas_override fees =
     (let rq = tx\<lparr> rq_nonce := nonce_override, rq_gas := or_keep gas_override (rq_gas tx) \<rparr> in
      case fees of Some f \<Rightarrow> apply_fees f rq | None \<Rightarrow> rq)"

fun any_tx_known_by_hash :: "evm_env \<Rightarrow> string list \<Rightarrow> b256 list \<Rightarrow> (deploy_world, bool) io" where
  "any_tx_known_by_hash E urls [] = io_return False"
| "any_tx_known_by_hash E urls (h # hs) =
     io_bind (tx_known_by_hash E urls h) (\<lambda>found.
     if found then io_return True else any_tx_known_by_hash E urls hs)"

fun poll_endpoints :: "evm_env \<Rightarrow> string list \<Rightarrow> b256 \<Rightarrow> (deploy_world, receipt option) io" where
  "poll_endpoints E [] h = io_return None"
| "poll_endpoints E (url # urls) h =
     io_bind (io_try (ask E (\<lambda>k. ev_receipt E k h))) (\<lambda>r.
     case r of Inr (Some rc) \<Rightarrow> io_return (Some rc) | _ \<Rightarrow> poll_endpoints E urls h)"

fun poll_hashes :: "evm_env \<Rightarrow> string list \<Rightarrow> b256 list \<Rightarrow> (deploy_world, receipt option) io" where
  "poll_hashes E urls [] = io_return None"
| "poll_hashes E urls (h # hs) =
     io_bind (poll_endpoints E urls h) (\<lambda>found.
     case found of Some rc \<Rightarrow> io_return (Some rc) | None \<Rightarrow> poll_hashes E urls hs)"

lemma keeps_poll_endpoints [simp]: "keeps (quiet w0) (poll_endpoints E urls h)"
  by (induction urls) (auto intro!: keeps_bind keeps_try keeps_sum keeps_option split: sum.split option.split)

lemma keeps_poll_hashes [simp]: "keeps (quiet w0) (poll_hashes E urls hs)"
  by (induction hs) (auto intro!: keeps_bind keeps_option split: option.split)

lemma poll_hashes_now: "poll_hashes E urls hs w = (r, w') \<Longrightarrow> dw_now w \<le> dw_now w'"
  using quiet_run [OF keeps_poll_hashes, of E urls hs w r w'] by (simp add: quiet_def)

function wait_receipt_any ::
  "evm_env \<Rightarrow> string list \<Rightarrow> b256 list \<Rightarrow> nat \<Rightarrow> deploy_world \<Rightarrow> receipt option \<times> deploy_world" where
  "wait_receipt_any E urls hashes deadline w =
     (case poll_hashes E urls hashes w of
        (Inr (Some rc), w') \<Rightarrow> (Some rc, w')
      | (_, w') \<Rightarrow>
          if deadline \<le> dw_now w' then (None, w')
          else wait_receipt_any E urls hashes deadline (tick 2000 w'))"
  by pat_completeness auto
termination
  by (relation "measure (\<lambda>(E, urls, hashes, deadline, w). deadline - dw_now w)")
    (auto simp: tick_def dest!: poll_hashes_now [OF sym])

declare wait_receipt_any.simps [simp del]

section \<open>The send loop\<close>

record robust =
  ro_envelope :: "envelope option"
  ro_nonce :: "u64 option"
  ro_fees :: "replacement_fees option"
  ro_gas :: "u64 option"
  ro_sent :: "b256 list"
  ro_round :: nat
  ro_contention :: nat
  ro_pool :: "string list"
  ro_log :: "envelope list list"
  ro_given_up :: "(nat \<times> b256 list) list"

definition robust_start :: "string list \<Rightarrow> tx_request \<Rightarrow> robust" where
  "robust_start urls tx =
     \<lparr> ro_envelope = None, ro_nonce = rq_nonce tx, ro_fees = None, ro_gas = None, ro_sent = [],
       ro_round = 0, ro_contention = 0, ro_pool = urls, ro_log = [[]], ro_given_up = [] \<rparr>"

definition sign_round :: "evm_env \<Rightarrow> string \<Rightarrow> tx_request \<Rightarrow> robust \<Rightarrow> (deploy_world, envelope) io" where
  "sign_round E key tx s =
     (case ro_envelope s of
        Some envelope \<Rightarrow> io_return envelope
      | None \<Rightarrow> fill_and_sign E (ro_pool s) key (round_request tx (ro_nonce s) (ro_gas s) (ro_fees s)))"

definition sending :: "envelope \<Rightarrow> robust \<Rightarrow> robust" where
  "sending envelope s =
     s\<lparr> ro_envelope := Some envelope,
        ro_sent := (if en_hash envelope \<in> set (ro_sent s) then ro_sent s else ro_sent s @ [en_hash envelope]),
        ro_log := (envelope # hd (ro_log s)) # tl (ro_log s) \<rparr>"

text \<open>What a broadcast means for the loop; \<open>Resign\<close> carries the moment the hashes were looked up.\<close>

datatype verdict = Confirm | Resign nat "u64 option" | Contend | GiveUp report

definition judge_broadcast :: "evm_env \<Rightarrow> envelope \<Rightarrow> robust \<Rightarrow> (deploy_world, verdict) io" where
  "judge_broadcast E envelope s =
     io_bind (io_try (broadcast_raw E (ro_pool s) envelope)) (\<lambda>r.
     case r of
       Inr _ \<Rightarrow> io_return Confirm
     | Inl e \<Rightarrow>
         if send_error_may_mean_landed e then
           io_bind (io_gets dw_calls) (\<lambda>k.
           io_bind (any_tx_known_by_hash E (ro_pool s) (ro_sent s)) (\<lambda>landed.
           io_return (if landed then Confirm else Resign k (parse_expected_nonce (report_text e)))))
         else if nonce_held_by_pooled_tx e then
           io_return (if NONCE_CONTENTION_ATTEMPTS \<le> ro_contention s
             then GiveUp (Report ''nonce still held after 5 backoff attempts'') else Contend)
         else io_return (GiveUp e))"

definition resigned :: "nat \<Rightarrow> u64 option \<Rightarrow> robust \<Rightarrow> robust" where
  "resigned k nonce s =
     s\<lparr> ro_nonce := nonce, ro_envelope := None, ro_fees := None, ro_gas := None,
        ro_log := [] # ro_log s, ro_given_up := (k, ro_sent s) # ro_given_up s \<rparr>"

definition contended :: "string list \<Rightarrow> robust \<Rightarrow> robust" where
  "contended urls s =
     s\<lparr> ro_contention := Suc (ro_contention s), ro_pool := rotated (Suc (ro_contention s)) urls,
        ro_nonce := None, ro_envelope := None, ro_fees := None, ro_gas := None, ro_log := [] # ro_log s \<rparr>"

definition replaced :: "robust \<Rightarrow> robust" where
  "replaced s =
     (case ro_envelope s of
        Some e \<Rightarrow>
          s\<lparr> ro_round := Suc (ro_round s), ro_envelope := None, ro_nonce := Some (en_nonce e),
             ro_gas := Some (en_gas_limit e), ro_fees := Some (doubled_from e) \<rparr>
      | None \<Rightarrow> s\<lparr> ro_round := Suc (ro_round s) \<rparr>)"

text \<open>One pass of the loop: a result, or the state to go on with.\<close>

definition robust_step ::
  "evm_env \<Rightarrow> string list \<Rightarrow> string \<Rightarrow> tx_request \<Rightarrow> nat \<Rightarrow> robust \<Rightarrow> deploy_world
   \<Rightarrow> receipt result option \<times> robust \<times> deploy_world" where
  "robust_step E urls key tx timeout s w =
     (case sign_round E key tx s w of
        (Inl e, w) \<Rightarrow> (Some (Inl e), s, w)
      | (Inr envelope, w) \<Rightarrow>
          let s = sending envelope s in
          (case judge_broadcast E envelope s w of
             (Inl e, w) \<Rightarrow> (Some (Inl e), s, w)
           | (Inr (GiveUp e), w) \<Rightarrow> (Some (Inl e), s, w)
           | (Inr (Resign k nonce), w) \<Rightarrow> (None, resigned k nonce s, w)
           | (Inr Contend, w) \<Rightarrow>
               (None, contended urls s, backoff_sleep E (backoff_for_attempt (ro_contention s)) w)
           | (Inr Confirm, w) \<Rightarrow>
               (case wait_receipt_any E (ro_pool s) (ro_sent s) (dw_now w + timeout) w of
                  (Some rc, w) \<Rightarrow> (Some (Inr rc), s, w)
                | (None, w) \<Rightarrow> (None, replaced s, w))))"

fun robust_from ::
  "evm_env \<Rightarrow> string list \<Rightarrow> string \<Rightarrow> tx_request \<Rightarrow> nat \<Rightarrow> nat \<Rightarrow> robust \<Rightarrow> deploy_world
   \<Rightarrow> receipt result \<times> robust \<times> deploy_world" where
  "robust_from E urls key tx timeout 0 s w = (Inl (Report ''no receipt after 3 broadcast rounds''), s, w)"
| "robust_from E urls key tx timeout (Suc n) s w =
     (if SEND_ROUNDS \<le> ro_round s then (Inl (Report ''no receipt after 3 broadcast rounds''), s, w)
      else
        case robust_step E urls key tx timeout s w of
          (Some r, s', w') \<Rightarrow> (r, s', w')
        | (None, s', w') \<Rightarrow> robust_from E urls key tx timeout n s' w')"

definition send_tx_robust ::
  "evm_env \<Rightarrow> string list \<Rightarrow> string \<Rightarrow> tx_request \<Rightarrow> nat \<Rightarrow> deploy_world \<Rightarrow> receipt result \<times> robust \<times> deploy_world" where
  "send_tx_robust E urls key tx timeout w =
     robust_from E urls key tx timeout MAX_SEND_ATTEMPTS (robust_start urls tx) w"

section \<open>What a send does\<close>

text \<open>What is relied on of the nodes: a receipt is that of the transaction asked for.\<close>

definition receipts_match :: "evm_env \<Rightarrow> bool" where
  "receipts_match E = (\<forall>k h rc. ev_receipt E k h = Inr (Some rc) \<longrightarrow> rc_transaction_hash rc = h)"

lemma poll_endpoints_match:
  assumes "receipts_match E"
  shows "outputs (poll_endpoints E urls h) (\<lambda>found. \<forall>rc. found = Some rc \<longrightarrow> rc_transaction_hash rc = h)"
proof (induction urls)
  case (Cons url urls)
  have "outputs (io_try (ask E (\<lambda>k. ev_receipt E k h))) (\<lambda>r. \<forall>rc. r = Inr (Some rc) \<longrightarrow> rc_transaction_hash rc = h)"
    using assms by (auto simp: outputs_def io_try_def ask_def receipts_match_def)
  then show ?case
    by (simp, elim outputs_bind) (use Cons in \<open>auto simp: outputs_basic split: sum.split option.split\<close>)
qed (simp add: outputs_basic)

lemma poll_hashes_match:
  assumes "receipts_match E"
  shows "outputs (poll_hashes E urls hs) (\<lambda>found. \<forall>rc. found = Some rc \<longrightarrow> rc_transaction_hash rc \<in> set hs)"
proof (induction hs)
  case (Cons h hs)
  have rest: "outputs (poll_hashes E urls hs) (\<lambda>found. \<forall>rc. found = Some rc \<longrightarrow> rc_transaction_hash rc \<in> set (h # hs))"
    using Cons by (auto simp: outputs_def)
  show ?case
    by (simp, rule outputs_bind [OF poll_endpoints_match [OF assms]])
      (use rest in \<open>auto simp: outputs_basic split: option.split\<close>)
qed (simp add: outputs_basic)

lemma wait_receipt_any_run:
  "wait_receipt_any E urls hs deadline w = (found, w') \<Longrightarrow> receipts_match E \<Longrightarrow>
    dw_sent w' = dw_sent w \<and> (\<forall>rc. found = Some rc \<longrightarrow> rc_transaction_hash rc \<in> set hs)"
proof (induction E urls hs deadline w rule: wait_receipt_any.induct)
  case (1 E urls hs deadline w)
  obtain r v where poll: "poll_hashes E urls hs w = (r, v)" by force
  have sent: "dw_sent v = dw_sent w"
    using quiet_run [OF keeps_poll_hashes poll] by (simp add: quiet_def)
  show ?case
  proof (cases "\<exists>rc. r = Inr (Some rc)")
    case True
    then show ?thesis
      using 1(3,4) poll sent outputsD [OF poll_hashes_match [OF 1(4)]] by (auto simp: wait_receipt_any.simps)
  next
    case missing: False
    show ?thesis
    proof (cases "deadline \<le> dw_now v")
      case True
      then show ?thesis
        using 1(3) poll sent missing by (auto simp: wait_receipt_any.simps split: sum.splits option.splits)
    next
      case False
      have run: "wait_receipt_any E urls hs deadline (tick 2000 v) = (found, w')"
        using 1(3) poll missing False
        by (subst (asm) wait_receipt_any.simps) (auto split: sum.splits option.splits)
      have "dw_sent w' = dw_sent (tick 2000 v) \<and> (\<forall>rc. found = Some rc \<longrightarrow> rc_transaction_hash rc \<in> set hs)"
        using missing 1(1,2) [OF poll [symmetric]] run False 1(4) by (cases r) (auto split: option.splits)
      then show ?thesis using sent by (simp add: tick_def)
    qed
  qed
qed

lemma keeps_known [simp]: "keeps (quiet w0) (tx_known_by_hash E urls h)"
  by (induction urls) (auto intro!: keeps_bind keeps_try)

lemma keeps_any_known [simp]: "keeps (quiet w0) (any_tx_known_by_hash E urls hs)"
  by (induction hs) (auto intro!: keeps_bind)

lemma quiet_sent: "(\<And>w0. keeps (quiet w0) m) \<Longrightarrow> keeps (\<lambda>w. set (dw_sent w) \<subseteq> A) m"
  by (rule keepsI) (use quiet_run in \<open>fastforce simp: quiet_def\<close>)

lemma broadcast_raw_sent:
  assumes "en_raw envelope \<in> A"
  shows "keeps (\<lambda>w. set (dw_sent w) \<subseteq> A) (broadcast_raw E urls envelope)"
  unfolding broadcast_raw_def retry_async_def send_raw_def
  by (intro keeps_retry_from keeps_bind keeps_map keeps_if keeps_modify keeps_try quiet_sent)
    (use assms in \<open>auto simp: backoff_sleep_def tick_def\<close>)

lemma judge_broadcast_sent:
  assumes "en_raw envelope \<in> A"
  shows "keeps (\<lambda>w. set (dw_sent w) \<subseteq> A) (judge_broadcast E envelope s)"
  unfolding judge_broadcast_def
  by (intro keeps_bind keeps_try keeps_sum keeps_if broadcast_raw_sent [OF assms] quiet_sent) simp_all

lemma sign_round_run:
  assumes "sign_round E key tx s w = (r, w')" and "ro_envelope s = None" and "fills_nonce E"
  shows "dw_sent w' = dw_sent w \<and> (\<forall>e n. r = Inr e \<and> ro_nonce s = Some n \<longrightarrow> en_nonce e = n)"
proof -
  let ?rq = "round_request tx (ro_nonce s) (ro_gas s) (ro_fees s)"
  have run: "fill_and_sign E (ro_pool s) key ?rq w = (r, w')" using assms(1,2) by (simp add: sign_round_def)
  have "rq_nonce ?rq = ro_nonce s"
    by (simp add: round_request_def apply_fees_def Let_def split: option.split)
  then show ?thesis
    using run outputsD [OF fill_and_sign_nonce [OF assms(3)]] quiet_run [OF keeps_fill_and_sign run]
    by (auto simp: quiet_def)
qed

text \<open>
  The account of a send: every hash and every byte handed out belongs to a logged envelope, a
  group of the log shares one nonce, and a group was closed once per nonce given up.
\<close>

definition one_nonce :: "envelope list \<Rightarrow> bool" where
  "one_nonce g = (\<forall>a \<in> set g. \<forall>b \<in> set g. en_nonce a = en_nonce b)"

definition accounts :: "deploy_world \<Rightarrow> robust \<Rightarrow> deploy_world \<Rightarrow> bool" where
  "accounts w0 s w =
     (set (ro_sent s) = en_hash ` set (concat (ro_log s)) \<and>
      set (dw_sent w) \<subseteq> set (dw_sent w0) \<union> en_raw ` set (concat (ro_log s)) \<and>
      (\<forall>g \<in> set (ro_log s). one_nonce g) \<and>
      length (ro_log s) = Suc (length (ro_given_up s) + ro_contention s) \<and>
      ro_contention s \<le> NONCE_CONTENTION_ATTEMPTS \<and> ro_round s \<le> SEND_ROUNDS)"

text \<open>At the head of the loop the nonce to use is that of the group being extended.\<close>

definition ready :: "robust \<Rightarrow> bool" where
  "ready s = (ro_envelope s = None \<and> (\<forall>e \<in> set (hd (ro_log s)). ro_nonce s = Some (en_nonce e)))"

definition logged :: "robust \<Rightarrow> nat" where
  "logged s = length (concat (ro_log s))"

lemma one_nonce_Nil [simp]: "one_nonce []"
  by (simp add: one_nonce_def)

lemma accounts_log: "accounts w0 s w \<Longrightarrow> ro_log s \<noteq> []"
  by (auto simp: accounts_def)

lemma sending_accounts:
  assumes "accounts w0 s w" and "ready s" and "\<And>n. ro_nonce s = Some n \<Longrightarrow> en_nonce e = n"
  shows "accounts w0 (sending e s) w" and "logged (sending e s) = Suc (logged s)"
    and "\<forall>a \<in> set (hd (ro_log (sending e s))). en_nonce a = en_nonce e"
proof -
  obtain g gs where log: "ro_log s = g # gs" using accounts_log [OF assms(1)] by (cases "ro_log s") auto
  have g: "\<forall>a \<in> set g. en_nonce a = en_nonce e" using assms(2,3) log by (auto simp: ready_def)
  then show "\<forall>a \<in> set (hd (ro_log (sending e s))). en_nonce a = en_nonce e" by (simp add: sending_def log)
  show "logged (sending e s) = Suc (logged s)" by (simp add: logged_def sending_def log)
  have "one_nonce (e # g)" using g by (auto simp: one_nonce_def)
  then show "accounts w0 (sending e s) w"
    using assms(1) log by (auto simp: accounts_def sending_def)
qed

lemma closed_accounts:
  assumes "accounts w0 s w"
  shows "accounts w0 (resigned k n s) w" and "ready (resigned k n s)" and "logged (resigned k n s) = logged s"
    and "ro_contention s < NONCE_CONTENTION_ATTEMPTS \<Longrightarrow> accounts w0 (contended urls s) w"
    and "ready (contended urls s)" and "logged (contended urls s) = logged s"
  using assms by (simp_all add: accounts_def resigned_def contended_def ready_def logged_def)

lemma replaced_accounts:
  assumes "accounts w0 s w" and "ro_envelope s = Some e" and "\<forall>a \<in> set (hd (ro_log s)). en_nonce a = en_nonce e"
    and "ro_round s < SEND_ROUNDS"
  shows "accounts w0 (replaced s) w" and "ready (replaced s)" and "logged (replaced s) = logged s"
  using assms by (simp_all add: accounts_def replaced_def ready_def logged_def)

lemma judge_contend:
  "judge_broadcast E e s w = (Inr Contend, w') \<Longrightarrow> ro_contention s < NONCE_CONTENTION_ATTEMPTS"
proof -
  assume run: "judge_broadcast E e s w = (Inr Contend, w')"
  obtain r v where "io_try (broadcast_raw E (ro_pool s) e) w = (Inr r, v)"
    by (cases "broadcast_raw E (ro_pool s) e w") (simp add: io_try_def)
  with run show ?thesis
    by (cases r) (auto simp: judge_broadcast_def io_bind_Inr io_bind_eq_Inr not_le split: if_splits)
qed

lemma step_accounts:
  assumes "robust_step E urls key tx timeout s w = (r, s', w')"
    and "accounts w0 s w" and "ready s" and "ro_round s < SEND_ROUNDS"
    and "fills_nonce E" and "receipts_match E"
  shows "accounts w0 s' w' \<and> logged s' \<le> Suc (logged s) \<and> (r = None \<longrightarrow> ready s') \<and>
    (\<forall>rc. r = Some (Inr rc) \<longrightarrow> rc_transaction_hash rc \<in> set (ro_sent s'))"
proof -
  obtain a w1 where sign: "sign_round E key tx s w = (a, w1)" by force
  have signed: "dw_sent w1 = dw_sent w" "\<And>e n. a = Inr e \<Longrightarrow> ro_nonce s = Some n \<Longrightarrow> en_nonce e = n"
    using sign_round_run [OF sign _ assms(5)] assms(3) by (auto simp: ready_def)
  have acc1: "accounts w0 s w1" using assms(2) signed(1) by (simp add: accounts_def)
  show ?thesis
  proof (cases a)
    case (Inl err)
    then show ?thesis using assms(1) sign acc1 by (auto simp: robust_step_def)
  next
    case (Inr e)
    let ?s = "sending e s"
    note sent = sending_accounts [OF acc1 assms(3) signed(2) [OF Inr]]
    have env: "ro_envelope ?s = Some e" "ro_round ?s < SEND_ROUNDS" using assms(4) by (simp_all add: sending_def)
    obtain v w2 where judge: "judge_broadcast E e ?s w1 = (v, w2)" by force
    let ?A = "set (dw_sent w0) \<union> en_raw ` set (concat (ro_log ?s))"
    have "en_raw e \<in> ?A" by (simp add: sending_def)
    from keepsD [OF judge_broadcast_sent [OF this] _ judge] have "set (dw_sent w2) \<subseteq> ?A"
      using sent(1) by (simp add: accounts_def)
    then have acc2: "accounts w0 ?s w" if "dw_sent w = dw_sent w2" for w
      using sent(1) that by (simp add: accounts_def)
    note run = assms(1) sign Inr judge
    show ?thesis
    proof (cases "v = Inr Confirm")
      case True
      obtain found w3 where wait: "wait_receipt_any E (ro_pool ?s) (ro_sent ?s) (dw_now w2 + timeout) w2 = (found, w3)"
        by force
      note waited = wait_receipt_any_run [OF wait assms(6)]
      then have acc3: "accounts w0 ?s w3" using acc2 by simp
      show ?thesis
      proof (cases found)
        case None
        then have "r = None \<and> s' = replaced ?s \<and> w' = w3" using run True wait by (simp add: robust_step_def Let_def)
        then show ?thesis using replaced_accounts [OF acc3 env(1) sent(3) env(2)] sent(2) by simp
      next
        case (Some rc)
        then have "r = Some (Inr rc) \<and> s' = ?s \<and> w' = w3" using run True wait by (simp add: robust_step_def Let_def)
        then show ?thesis using acc3 sent(2) waited Some by simp
      qed
    next
      case False
      then consider (stop) err where "v = Inl err \<or> v = Inr (GiveUp err)"
        | (resign) k n where "v = Inr (Resign k n)" | (contend) "v = Inr Contend"
        by (metis sum.exhaust verdict.exhaust)
      then show ?thesis
      proof cases
        case stop
        then have "r = Some (Inl err) \<and> s' = ?s \<and> w' = w2" using run by (auto simp: robust_step_def Let_def)
        then show ?thesis using acc2 [of w2] sent(2) by simp
      next
        case resign
        then have "r = None \<and> s' = resigned k n ?s \<and> w' = w2" using run by (simp add: robust_step_def Let_def)
        then show ?thesis using closed_accounts(1-3) [OF acc2, of w2 k n] sent(2) by simp
      next
        case contend
        let ?w = "backoff_sleep E (backoff_for_attempt (ro_contention ?s)) w2"
        have "r = None \<and> s' = contended urls ?s \<and> w' = ?w" using run contend by (simp add: robust_step_def Let_def)
        moreover have "accounts w0 ?s ?w" by (rule acc2) (simp add: backoff_sleep_def tick_def)
        ultimately show ?thesis
          using closed_accounts(4-6) [of w0 ?s ?w urls] judge_contend [OF judge [unfolded contend]] sent(2) by simp
      qed
    qed
  qed
qed

lemma robust_from_accounts:
  "robust_from E urls key tx timeout n s w = (r, s', w') \<Longrightarrow> accounts w0 s w \<Longrightarrow> ready s \<Longrightarrow>
   fills_nonce E \<Longrightarrow> receipts_match E \<Longrightarrow>
   accounts w0 s' w' \<and> logged s' \<le> logged s + n \<and> (\<forall>rc. r = Inr rc \<longrightarrow> rc_transaction_hash rc \<in> set (ro_sent s'))"
proof (induction n arbitrary: s w)
  case 0
  then show ?case by auto
next
  case (Suc n)
  show ?case
  proof (cases "SEND_ROUNDS \<le> ro_round s")
    case True
    then show ?thesis using Suc.prems by auto
  next
    case False
    obtain a s1 w1 where step: "robust_step E urls key tx timeout s w = (a, s1, w1)" by (metis prod.exhaust)
    note one = step_accounts [OF step Suc.prems(2,3) _ Suc.prems(4,5)]
    show ?thesis
    proof (cases a)
      case (Some b)
      then show ?thesis using Suc.prems(1) False step one by auto
    next
      case None
      then have "robust_from E urls key tx timeout n s1 w1 = (r, s', w')" using Suc.prems(1) False step by simp
      moreover have "accounts w0 s1 w1" "ready s1" "logged s1 \<le> Suc (logged s)" using one False None by simp_all
      ultimately show ?thesis using Suc.IH Suc.prems(4,5) by fastforce
    qed
  qed
qed

text \<open>
  C38: A robust send accounts for everything it hands out.  A receipt it returns belongs to an
  envelope it broadcast; all bytes sent are those of its envelopes; the envelopes between two
  changes of the nonce share one nonce, so that at most one of them can be mined; a nonce is given
  up only by the two paths that re-sign, at most five times for contention; and at most sixteen
  envelopes go out in at most three rounds.  The filler must keep a nonce that the request fixes
  and a node answer with the receipt of the transaction it was asked for.
\<close>

theorem robust_send_accounts:
  assumes "send_tx_robust E urls key tx timeout w = (r, s, w')" and "fills_nonce E" and "receipts_match E"
  shows "(\<forall>rc. r = Inr rc \<longrightarrow> rc_transaction_hash rc \<in> en_hash ` set (concat (ro_log s))) \<and>
    set (dw_sent w') \<subseteq> set (dw_sent w) \<union> en_raw ` set (concat (ro_log s)) \<and>
    (\<forall>g \<in> set (ro_log s). one_nonce g) \<and>
    length (ro_log s) = Suc (length (ro_given_up s) + ro_contention s) \<and> ro_contention s \<le> 5 \<and>
    length (concat (ro_log s)) \<le> 16 \<and> ro_round s \<le> 3"
proof -
  have "accounts w (robust_start urls tx) w" "ready (robust_start urls tx)"
    by (simp_all add: accounts_def ready_def robust_start_def)
  from robust_from_accounts [OF assms(1) [unfolded send_tx_robust_def] this assms(2,3)]
  have acc: "accounts w s w'" and count: "logged s \<le> 16"
    and hash: "\<forall>rc. r = Inr rc \<longrightarrow> rc_transaction_hash rc \<in> set (ro_sent s)"
    by (simp_all add: logged_def robust_start_def MAX_SEND_ATTEMPTS_def)
  have "set (ro_sent s) = en_hash ` set (concat (ro_log s))" using acc by (simp only: accounts_def)
  with hash acc count show ?thesis
    by (simp add: accounts_def logged_def NONCE_CONTENTION_ATTEMPTS_def SEND_ROUNDS_def)
qed

section \<open>When a nonce is given up\<close>

text \<open>
  What is relied on of the nodes below: a transaction that is in a pool or mined stays there, and
  every endpoint answers the lookup of such a transaction.
\<close>

definition lookups_reliable :: "evm_env \<Rightarrow> (b256 \<Rightarrow> nat \<Rightarrow> bool) \<Rightarrow> bool" where
  "lookups_reliable E pooled =
     ((\<forall>h k k'. pooled h k \<and> k \<le> k' \<longrightarrow> pooled h k') \<and> (\<forall>h k. pooled h k \<longrightarrow> ev_known_tx E k h = Inr True))"

lemma any_known_finds:
  assumes "lookups_reliable E pooled" and "urls \<noteq> []"
  shows "any_tx_known_by_hash E urls hs w = (r, w') \<Longrightarrow> h \<in> set hs \<Longrightarrow> pooled h (dw_calls w) \<Longrightarrow> r = Inr True"
proof (induction hs arbitrary: w)
  case (Cons h' hs)
  have found: "tx_known_by_hash E urls h w = (Inr True, snd (tx_known_by_hash E urls h w))"
    using assms Cons.prems(3)
    by (cases urls) (auto simp: lookups_reliable_def io_bind_def io_try_def ask_def)
  obtain a v where first: "tx_known_by_hash E urls h' w = (a, v)" by force
  have "dw_calls w \<le> dw_calls v" using quiet_run [OF keeps_known first] by (simp add: quiet_def)
  then have later: "pooled h (dw_calls v)" using assms(1) Cons.prems(3) unfolding lookups_reliable_def by blast
  show ?case
  proof (cases "h = h'")
    case True
    then show ?thesis using found Cons.prems(1) by (auto simp: io_bind_def split: prod.splits)
  next
    case False
    have "\<exists>x. a = Inr x"
      using first by (induction urls arbitrary: w) (auto simp: io_bind_def io_try_def split: prod.splits if_splits)
    then show ?thesis
      using False first later Cons.prems(1,2) Cons.IH [of v] by (auto simp: io_bind_def split: if_splits)
  qed
qed simp

lemma judge_resign:
  assumes "judge_broadcast E e s w = (Inr (Resign k n), w')" and "lookups_reliable E pooled" and "ro_pool s \<noteq> []"
    and "h \<in> set (ro_sent s)"
  shows "\<not> pooled h k"
proof
  assume "pooled h k"
  obtain r v where "io_try (broadcast_raw E (ro_pool s) e) w = (Inr r, v)"
    by (cases "broadcast_raw E (ro_pool s) e w") (simp add: io_try_def)
  then obtain v' where "k = dw_calls v" "any_tx_known_by_hash E (ro_pool s) (ro_sent s) v = (Inr False, v')"
    using assms(1) by (cases r) (auto simp: judge_broadcast_def io_bind_Inr io_bind_eq_Inr split: if_splits)
  then show False using any_known_finds [OF assms(2,3) _ assms(4)] \<open>pooled h k\<close> by fastforce
qed

definition given_up_absent :: "(b256 \<Rightarrow> nat \<Rightarrow> bool) \<Rightarrow> robust \<Rightarrow> bool" where
  "given_up_absent pooled s =
     list_all2 (\<lambda>g (k, hs). \<forall>e \<in> set g. \<not> pooled (en_hash e) k) (tl (ro_log s)) (ro_given_up s)"

definition careful :: "(b256 \<Rightarrow> nat \<Rightarrow> bool) \<Rightarrow> robust \<Rightarrow> bool" where
  "careful pooled s =
     (ro_pool s \<noteq> [] \<and> ro_log s \<noteq> [] \<and> en_hash ` set (hd (ro_log s)) \<subseteq> set (ro_sent s) \<and>
      (ro_contention s = 0 \<longrightarrow> given_up_absent pooled s))"

lemma careful_moves:
  assumes "careful pooled s"
  shows "careful pooled (sending e s)" and "careful pooled (replaced s)"
    and "urls \<noteq> [] \<Longrightarrow> careful pooled (contended urls s)"
    and "(\<And>h. h \<in> set (ro_sent s) \<Longrightarrow> \<not> pooled h k) \<Longrightarrow> careful pooled (resigned k n s)"
proof -
  show "careful pooled (sending e s)" "careful pooled (replaced s)"
    using assms by (auto simp: careful_def sending_def replaced_def given_up_absent_def split: option.splits)
  show "urls \<noteq> [] \<Longrightarrow> careful pooled (contended urls s)"
    by (simp add: careful_def contended_def rotated_def)
  assume absent: "\<And>h. h \<in> set (ro_sent s) \<Longrightarrow> \<not> pooled h k"
  obtain g gs where "ro_log s = g # gs" using assms by (cases "ro_log s") (auto simp: careful_def)
  then show "careful pooled (resigned k n s)"
    using assms absent by (auto simp: careful_def resigned_def given_up_absent_def)
qed

lemma step_careful:
  assumes "robust_step E urls key tx timeout s w = (r, s', w')" and "careful pooled s"
    and "lookups_reliable E pooled" and "urls \<noteq> []"
  shows "careful pooled s'"
proof -
  obtain a w1 where sign: "sign_round E key tx s w = (a, w1)" by force
  show ?thesis
  proof (cases a)
    case (Inl err)
    then show ?thesis using assms(1,2) sign by (simp add: robust_step_def)
  next
    case (Inr e)
    let ?s = "sending e s"
    have sent: "careful pooled ?s" by (rule careful_moves(1) [OF assms(2)])
    then have pool: "ro_pool ?s \<noteq> []" by (simp add: careful_def)
    note moves = careful_moves(2-4) [OF sent]
    obtain v w2 where judge: "judge_broadcast E e ?s w1 = (v, w2)" by force
    have "s' = ?s \<or> s' = replaced ?s \<or> s' = contended urls ?s \<or> (\<exists>k n. v = Inr (Resign k n) \<and> s' = resigned k n ?s)"
      using assms(1) sign Inr judge
      by (auto simp: robust_step_def Let_def split: sum.splits verdict.splits prod.splits option.splits)
    then show ?thesis
    proof (elim disjE exE conjE)
      fix k n assume "v = Inr (Resign k n)" and "s' = resigned k n ?s"
      then show ?thesis using moves(3) judge_resign [OF judge [unfolded \<open>v = _\<close>] assms(3) pool] by simp
    qed (use sent moves(1,2) assms(4) in simp_all)
  qed
qed

lemma robust_from_careful:
  assumes "lookups_reliable E pooled" and "urls \<noteq> []"
  shows "robust_from E urls key tx timeout n s w = (r, s', w') \<Longrightarrow> careful pooled s \<Longrightarrow> careful pooled s'"
proof (induction n arbitrary: s w)
  case (Suc n)
  obtain a s1 w1 where step: "robust_step E urls key tx timeout s w = (a, s1, w1)" by (metis prod.exhaust)
  have "careful pooled s1" by (rule step_careful [OF step Suc.prems(2) assms])
  then show ?case
    using Suc.prems step Suc.IH [of s1 w1] by (cases a) (auto split: if_splits)
qed simp


section \<open>Runs of the sender\<close>

lemma robust_from_numeral:
  "0 < n \<Longrightarrow> robust_from E urls key tx timeout n s w =
     (if SEND_ROUNDS \<le> ro_round s then (Inl (Report ''no receipt after 3 broadcast rounds''), s, w)
      else
        case robust_step E urls key tx timeout s w of
          (Some r, s', w') \<Rightarrow> (r, s', w')
        | (None, s', w') \<Rightarrow> robust_from E urls key tx timeout (n - 1) s' w')"
  by (cases n) (simp_all split: option.split prod.split)

text \<open>A filler that takes the nonce and the fee of the request, and a node that mines on request.\<close>

definition filled :: "u64 \<Rightarrow> u128 \<Rightarrow> envelope" where
  "filled n fee =
     sample_envelope\<lparr> en_nonce := n, en_max_fee_per_gas := fee, en_max_priority_fee_per_gas := None,
       en_raw := [ucast n, ucast fee], en_hash := ucast n + ucast fee \<rparr>"

definition robust_env :: "(nat \<Rightarrow> b256 result) \<Rightarrow> (nat \<Rightarrow> b256 \<Rightarrow> bool result) \<Rightarrow> (nat \<Rightarrow> b256 \<Rightarrow> bool) \<Rightarrow> evm_env" where
  "robust_env sends finds mined =
     sample_env\<lparr>
       ev_fill := (\<lambda>k key rq. Inr (filled (case rq_nonce rq of Some n \<Rightarrow> n | None \<Rightarrow> 4)
         (case rq_max_fee_per_gas rq of Some fee \<Rightarrow> fee | None \<Rightarrow> 30))),
       ev_send_raw := (\<lambda>k raw. sends k), ev_known_tx := finds,
       ev_receipt := (\<lambda>k h. Inr (if mined k h then Some (sample_receipt\<lparr> rc_transaction_hash := h \<rparr>) else None)) \<rparr>"

lemma robust_env_laws: "fills_nonce (robust_env sends finds mined)" "receipts_match (robust_env sends finds mined)"
  by (auto simp: fills_nonce_def receipts_match_def robust_env_def filled_def split: if_splits)

definition stale :: report where "stale = Report ''nonce too low: next nonce 7, tx nonce 3''"
definition duplicate :: report where "duplicate = Report ''already known''"
definition underpriced :: report where "underpriced = Report ''replacement transaction underpriced''"

lemma robust_errors:
  "send_error_may_mean_landed stale" "\<not> is_transient_default stale" "\<not> is_pending_state_error stale"
  "parse_expected_nonce (report_text stale) = Some 7"
  "send_error_may_mean_landed duplicate" "\<not> is_transient_default duplicate" "\<not> is_pending_state_error duplicate"
  "parse_expected_nonce (report_text duplicate) = None"
  "\<not> send_error_may_mean_landed underpriced" "nonce_held_by_pooled_tx underpriced"
  "\<not> is_transient_default underpriced" "\<not> is_pending_state_error underpriced"
  by code_simp+

lemmas robust_eval =
  send_tx_robust_def robust_from_numeral robust_step_def sign_round_def round_request_def apply_fees_def or_keep_def
  doubled_from_def sending_def judge_broadcast_def resigned_def contended_def replaced_def broadcast_raw_def
  send_raw_def retry_async_def wait_receipt_any.simps pick_error_def errors_of_def map_filter_simps robust_start_def
  rotated_def backoff_sleep_def saturating_mul_def MAX_SEND_ATTEMPTS_def SEND_ROUNDS_def
  NONCE_CONTENTION_ATTEMPTS_def FALLBACK_ATTEMPTS_def AVALANCHE_FUJI_CHAIN_ID_def robust_errors robust_env_def
  filled_def sample_request_def

text \<open>A stale nonce is taken from the node's answer, and the unmined envelope replaced at it.\<close>

definition sample_pooled :: "b256 \<Rightarrow> nat \<Rightarrow> bool" where
  "sample_pooled h k = (h = 37 \<and> 5 \<le> k \<or> h = 67 \<and> 9 \<le> k)"

definition sample_robust_env :: evm_env where
  "sample_robust_env =
     robust_env (\<lambda>k. if k = 1 then Inl stale else Inr 0) (\<lambda>k h. Inr (sample_pooled h k)) (\<lambda>k h. h = 67)"

definition sample_robust :: "receipt result \<times> robust \<times> deploy_world" where
  "sample_robust = send_tx_robust sample_robust_env [''http://rpc''] ''key'' sample_request 0 sample_world"

lemma sample_robust_run:
  "fst sample_robust = Inr (sample_receipt\<lparr> rc_transaction_hash := 67 \<rparr>) \<and>
   ro_log (fst (snd sample_robust)) = [[filled 7 60, filled 7 30], [filled 3 30]] \<and>
   ro_given_up (fst (snd sample_robust)) = [(2, [33])] \<and> ro_contention (fst (snd sample_robust)) = 0"
  unfolding sample_robust_def sample_robust_env_def
  by (simp add: evm_eval sample_eval robust_eval sample_pooled_def)

lemma sample_robust_split:
  "send_tx_robust sample_robust_env [''http://rpc''] ''key'' sample_request 0 sample_world =
     (fst sample_robust, fst (snd sample_robust), snd (snd sample_robust))"
  by (simp add: sample_robust_def)

theorem robust_send_accounts_witness:
  "ro_log (fst (snd sample_robust)) = [[filled 7 60, filled 7 30], [filled 3 30]] \<and>
   set (dw_sent (snd (snd sample_robust))) \<subseteq> {[7, 60], [7, 30], [3, 30]} \<and> one_nonce [filled 7 60, filled 7 30] \<and>
   (67 :: b256) \<in> en_hash ` {filled 7 60, filled 7 30, filled 3 30}"
proof -
  have raws: "en_raw (filled 7 60) = [7, 60]" "en_raw (filled 7 30) = [7, 30]" "en_raw (filled 3 30) = [3, 30]"
    by (simp_all add: filled_def)
  have laws: "fills_nonce sample_robust_env" "receipts_match sample_robust_env"
    by (simp_all add: sample_robust_env_def robust_env_laws)
  show ?thesis
    using robust_send_accounts [OF sample_robust_split laws]
      sample_robust_run raws
    by (simp add: sample_world_def sample_receipt_def)
qed


text \<open>
  The two ways past the last statement.  A lookup that fails counts as an unknown transaction: a
  node that answers that it has the envelope, followed by one failed lookup, makes the sender sign
  and send a second one at the next nonce.  And a node that refuses the fee replacement because
  the sender's own first envelope is pooled makes it do the same without any lookup.
\<close>

lemma double_send_after_failed_lookup:
  "\<exists>s w. send_tx_robust (robust_env (\<lambda>k. if k = 1 then Inl duplicate else Inr 0)
        (\<lambda>k h. if k = 2 then Inl (Report ''timeout'') else Inr (h = 33)) (\<lambda>k h. h = 33))
      [''http://rpc''] ''key'' sample_request 0 sample_world = (Inr (sample_receipt\<lparr> rc_transaction_hash := 33 \<rparr>), s, w) \<and>
    ro_log s = [[filled 4 30], [filled 3 30]] \<and> dw_sent w = [[4, 30], [3, 30]]"
  by (simp add: evm_eval sample_eval robust_eval)

lemma double_send_after_refused_replacement:
  "\<exists>s w. send_tx_robust (robust_env (\<lambda>k. if k = 4 then Inl underpriced else Inr 0)
        (\<lambda>k h. Inr (h = 33)) (\<lambda>k h. 8 \<le> k \<and> h = 33))
      [''http://rpc''] ''key'' sample_request 0 sample_world = (Inr (sample_receipt\<lparr> rc_transaction_hash := 33 \<rparr>), s, w) \<and>
    ro_log s = [[filled 4 30], [filled 3 60, filled 3 30]] \<and> dw_sent w = [[4, 30], [3, 60], [3, 30]]"
  by (simp add: evm_eval sample_eval robust_eval)

end
