(* ===== verification/Spec2Isabelle.thy ===== *)
theory Spec2Isabelle
  imports Deploy_Plan Deploy_Storage Deploy_Funding Rpc_Retry Verifier_Set Deploy_Lifecycle Load_Submission Lcd_Query
    Verify_Its Mcp_Server Evm_Robust
begin

text \<open>
  A verification development for \<open>axe\<close>, the operator's command line for Axelar deployments and
  cross-chain load tests.  Paths below are relative to \<open>src/src/\<close>; \<open>hardened/\<close> stands for
  \<open>commands/deploy/hardened/\<close>, \<open>load_test/\<close> for \<open>commands/load_test/\<close> and \<open>verification/\<close> for
  \<open>load_test/verification/\<close>.

  \<^bold>\<open>The program.\<close>  Four parts share the retry helpers and the chain clients.

  \<^item> The hardened deployment runs an approved list of steps.  Each step signs transactions, records
    them in a journal before they are broadcast, and recovers from the journal after a crash.
  \<^item> The load test sizes a run, submits transactions at a chosen rate and reports on them; its
    verification engine follows every message through the hub to its destination.
  \<^item> The EVM senders outside a deployment: one transaction with fee replacement, and a pipeline of
    deposits on one wallet.
  \<^item> The MCP server exposes the spending commands as tools under a budget and a machine-wide slot.

  \<^bold>\<open>Conventions.\<close>  A fallible operation returns \<open>report + 'a\<close>; effectful code is a function from a
  world to a result and a world, and an error keeps the world it was raised in.  Machine integers are
  words, with Rust's checked and saturating operations spelled out.  What the nodes, the disk, the
  clock and the operator answer is a field of an environment indexed by the number of the call, so
  two equal questions may be answered differently.  Third-party code (alloy, cosmrs, Protobuf, JSON
  text, hashing, signing) is a field of the environment too; what a theorem needs of it is a named
  hypothesis such as \<open>codec\<close>, \<open>fills_nonce\<close>, \<open>receipts_match\<close> or \<open>lookups_reliable\<close>, and the witness
  of that theorem has a concrete environment that satisfies it.

  \<^bold>\<open>Base layer.\<close>  \<open>Axe_Prelude\<close> (results, words, checked arithmetic), \<open>Axe_Decimal\<close> (decimal text),
  \<open>Axe_Text\<close> (string operations), \<open>Axe_Btree\<close> (\<open>BTreeMap\<close>; locale \<open>ordered_map\<close>), \<open>Axe_Io\<close> (effectful
  code, Hoare triples, invariants and results of computations), \<open>Axe_Json\<close> (JSON values) and
  \<open>Axe_Network\<close> (\<open>types.rs\<close>, \<open>timing.rs\<close>).  \<open>Rpc_Retry\<close> models \<open>retry.rs\<close> and shows that a retried call
  tries every endpoint to exhaustion, stops at a permanent error and returns the last one.

  \<^bold>\<open>Hardened deployment.\<close>
  \<^item> \<open>Deploy_Types\<close>, \<open>Deploy_State\<close> (\<open>state.rs\<close>, \<open>state/loading.rs\<close>) and \<open>Deploy_Plan\<close> (\<open>hardened/plan.rs\<close>):
    the plan, the state file and the selection of the file a run resumes.  Saved progress stays that
    of the approved plan, a hardened state is never hidden, and addresses are read back as stored.
  \<^item> \<open>Deploy_Journal\<close> (\<open>hardened/session.rs\<close>, \<open>hardened/journal.rs\<close>; locale \<open>append_only\<close>): no operation
    forgets a recorded transaction.  \<open>Deploy_Storage\<close> (\<open>hardened/storage.rs\<close>): after a crash at any
    point of a write the file holds its old or its new contents.
  \<^item> \<open>Deploy_Funding\<close>: the liability of an account is that of the dearest transaction at each nonce,
    and every journal that checked submissions can lead to stays within its budgets.
  \<^item> \<open>Evm_Chain\<close> (endpoint pool and filling of \<open>evm.rs\<close>), \<open>Evm_Intent\<close>, \<open>Evm_Recovery\<close>,
    \<open>Evm_Write_Ahead\<close> and \<open>Evm_Confirmed\<close> (\<open>hardened/evm*.rs\<close>): an intent determines what its
    transaction does, nothing is broadcast that is not in the journal on disk, and a receipt that is
    returned is a canonical, deep enough inclusion of a journaled transaction.
  \<^item> \<open>Cosmos_Chain\<close>, \<open>Cosmos_Recovery\<close> and \<open>Cosmos_Fees\<close> (\<open>cosmos/rpc.rs\<close>, \<open>cosmos/tx.rs\<close>,
    \<open>hardened/cosmos*.rs\<close>, \<open>hardened/direct.rs\<close>): the same for Cosmos; a replacement changes the fee only.
  \<^item> \<open>Deploy_Recovery\<close> (\<open>hardened/recovery.rs\<close>), \<open>Deploy_Runner\<close> (\<open>hardened/runner.rs\<close>,
    \<open>commands/deploy.rs\<close>) and \<open>Deploy_Lifecycle\<close> (locale \<open>journaled\<close>): only a proved failure is retired,
    a checkpoint is not passed unapproved, the step loop ends, and write-ahead journaling holds over
    any number of runs, errors and restarts.
  \<^item> \<open>Verifier_Set\<close> (\<open>hardened/verifier_set.rs\<close>; locale \<open>weighted_quorum\<close>): an accepted set is valid and
    any two of its quorums share weight.

  \<^bold>\<open>Load test.\<close>
  \<^item> \<open>Load_Sizing\<close>, \<open>Load_Metrics\<close> and \<open>Load_Submission\<close> (\<open>load_test/scheduling/\<close>, \<open>load_test/support/metrics.rs\<close>):
    the schedule stays within its keys and nonces are consecutive, a burst submits every job, ends and
    loses no metric however its tasks interleave, and the report adds up.
  \<^item> \<open>Lcd_Query\<close> (\<open>cosmos/rpc.rs\<close>): a contract query answers from the first endpoint that serves it.
  \<^item> \<open>Verify_State\<close>, \<open>Verify_Env\<close>, \<open>Verify_Cosmos\<close> and \<open>Verify_Report\<close>: the phase machine, the polled world,
    the hub queries and the report (\<open>verification/engine/\<close>).
  \<^item> \<open>Verify_Destinations\<close>: the adapter of every destination chain.  What one promises the loop is the
    locale \<open>destination_verifier\<close>, interpreted once per adapter.
  \<^item> \<open>Verify_Pipeline\<close>, \<open>Verify_Polling\<close>, \<open>Verify_Gmp\<close> and \<open>Verify_Its\<close>: the polling loops.  The locale
    \<open>polling_round\<close> says what a round of checks promises; both pipelines are sublocales of it.  A run
    returns, every message ends with a verdict, each verdict rests on an answer of a chain or of the
    GMP API, and the report counts every message once.

  \<^bold>\<open>EVM senders.\<close>  \<open>Evm_Pipeline\<close> (\<open>evm/pipeline.rs\<close>): overlapping deposits keep the gas budget and use
  consecutive nonces.  \<open>Evm_Robust\<close> (\<open>send_tx_robust\<close> of \<open>evm.rs\<close>): every receipt, byte and nonce of a send is
  accounted for, and a nonce is given up only when nothing sent at it is pooled; two lemmas show the
  ways in which the program can still send twice.

  \<^bold>\<open>MCP server.\<close>  \<open>Mcp_Policy\<close>, \<open>Mcp_Runs\<close>, \<open>Mcp_Slot\<close> and \<open>Mcp_Server\<close> (\<open>mcp/\<close>): the tools of a server
  never exceed its transaction budget, the registries of all servers on a machine refine one mutex
  over the spending flows, every refusal states a true reason, and run identifiers are read back.

  \<^bold>\<open>Loops and bounds.\<close>  Retries, send rounds and endpoint loops recurse on the attempts the code allows;
  waits are functions whose termination follows from a deadline and a clock that every round moves.
  The step loop of the runner takes fuel, and more fuel than there are pending steps is shown to be
  enough.  The polling loops are partial functions, and are shown to return.

  \<^bold>\<open>Not modelled.\<close>  Terminal output and argument parsing; the contract calls inside a deployment step,
  its previews, evidence and postconditions, which are arguments of the runner; governance, intent
  quoting, administration and inspection commands, which only wrap remote services; the encodings of
  the Solana, Stellar, Sui, XRPL and Hyperliquid libraries; advisory file locks beyond their contract;
  floating-point rounding, random jitter and the scheduling of threads inside one step.
\<close>

end
